(* ===== verification/Redis.thy ===== *)
theory Redis
  imports Prelude
begin

text \<open>
  The Redis (or Valkey) server as Senna sees it.  The server is not part of the repository:
  it is a parameter \<open>call\<close> of everything that runs against it, and this theory states the
  documented behaviour of the commands Senna issues.

  \<^item> \<open>db\<close> is the observable key space: typed values, expiry deadlines and the server clock.
  \<^item> \<open>rcmd\<close> has one constructor per command form that occurs in the repository and
    \<open>exec\<close> states the command reference for it: replies, type errors, the removal of empty
    aggregates and the effect on time to live.
  \<^item> \<open>lua\<close> is the type of script bodies: a tree of \<^verbatim>\<open>redis.call\<close>s.  An error reply aborts a
    script and keeps the writes made before it, as \<open>run_lua\<close> says.
  \<^item> The locale \<open>redis_server\<close> is the interface: a server whose commands act on a view of
    its state as \<open>exec\<close> does, with enumeration order left open.  Every script run on such
    a server agrees with its run on the view (\<open>run_lua_view\<close>).
\<close>

section \<open>Values, key space and replies\<close>

datatype rval =
    VStr string
  | VList "string list"
  | VSet "string list"
  | VZset "(int \<times> string) list"
  | VHash "(string \<times> string) list"

record db =
  data :: "string \<Rightarrow> rval option"
  expires :: "string \<Rightarrow> int option"
  clock_us :: int

datatype rreply =
    RInt int
  | RBulk string
  | RNil
  | RArr "rreply list"
  | RStatus string
  | RErr string

fun empty_val :: "rval \<Rightarrow> bool" where
  "empty_val (VStr _) = False"
| "empty_val (VList xs) = (xs = [])"
| "empty_val (VSet xs) = (xs = [])"
| "empty_val (VZset xs) = (xs = [])"
| "empty_val (VHash xs) = (xs = [])"

definition drop_key :: "string \<Rightarrow> db \<Rightarrow> db" where
  "drop_key k d = d\<lparr>data := (data d)(k := None), expires := (expires d)(k := None)\<rparr>"

definition put :: "string \<Rightarrow> rval \<Rightarrow> db \<Rightarrow> db" where
  "put k v d = (if empty_val v then drop_key k d else d\<lparr>data := (data d)(k \<mapsto> v)\<rparr>)"

definition set_str :: "string \<Rightarrow> string \<Rightarrow> int option \<Rightarrow> db \<Rightarrow> db" where
  "set_str k v dl d = d\<lparr>data := (data d)(k \<mapsto> VStr v), expires := (expires d)(k := dl)\<rparr>"

section \<open>Typed views of a key\<close>

definition rtype :: "db \<Rightarrow> string \<Rightarrow> string" where
  "rtype d k = (case data d k of
      None \<Rightarrow> ''none'' | Some (VStr _) \<Rightarrow> ''string'' | Some (VList _) \<Rightarrow> ''list''
    | Some (VSet _) \<Rightarrow> ''set'' | Some (VZset _) \<Rightarrow> ''zset'' | Some (VHash _) \<Rightarrow> ''hash'')"

definition lst :: "db \<Rightarrow> string \<Rightarrow> string list" where
  "lst d k = (case data d k of Some (VList xs) \<Rightarrow> xs | _ \<Rightarrow> [])"

definition sts :: "db \<Rightarrow> string \<Rightarrow> string list" where
  "sts d k = (case data d k of Some (VSet xs) \<Rightarrow> xs | _ \<Rightarrow> [])"

definition zst :: "db \<Rightarrow> string \<Rightarrow> (int \<times> string) list" where
  "zst d k = (case data d k of Some (VZset xs) \<Rightarrow> xs | _ \<Rightarrow> [])"

definition hsh :: "db \<Rightarrow> string \<Rightarrow> (string \<times> string) list" where
  "hsh d k = (case data d k of Some (VHash xs) \<Rightarrow> xs | _ \<Rightarrow> [])"

definition str :: "db \<Rightarrow> string \<Rightarrow> string option" where
  "str d k = (case data d k of Some (VStr s) \<Rightarrow> Some s | _ \<Rightarrow> None)"

definition has_key :: "db \<Rightarrow> string \<Rightarrow> bool" where
  "has_key d k \<longleftrightarrow> data d k \<noteq> None"

definition listy :: "db \<Rightarrow> string \<Rightarrow> bool" where
  "listy d k \<longleftrightarrow> rtype d k = ''none'' \<or> rtype d k = ''list''"

definition setty :: "db \<Rightarrow> string \<Rightarrow> bool" where
  "setty d k \<longleftrightarrow> rtype d k = ''none'' \<or> rtype d k = ''set''"

definition zsetty :: "db \<Rightarrow> string \<Rightarrow> bool" where
  "zsetty d k \<longleftrightarrow> rtype d k = ''none'' \<or> rtype d k = ''zset''"

definition hashy :: "db \<Rightarrow> string \<Rightarrow> bool" where
  "hashy d k \<longleftrightarrow> rtype d k = ''none'' \<or> rtype d k = ''hash''"

definition stringy :: "db \<Rightarrow> string \<Rightarrow> bool" where
  "stringy d k \<longleftrightarrow> rtype d k = ''none'' \<or> rtype d k = ''string''"

section \<open>Commands\<close>

datatype (plugins only: code size) rcmd =
    cTYPE string | cEXISTS string | cDEL "string list"
  | cEXPIRE string int | cPEXPIRE string int | cPTTL string | cTTL string | cTIME
  | cGET string | cSET string string | cSET_EX string string int | cSET_PX string string int
  | cSET_NX_PX string string int | cSET_NX_EX string string int | cSETNX string string
  | cINCR string | cDECR string
  | cLPUSH string "string list" | cRPUSH string "string list" | cRPOP string | cLPOP string
  | cLMOVE string string | cLREM string string | cLPOS string string | cLSET string int string
  | cLRANGE_ALL string | cLTRIM_TO string nat | cLLEN string
  | cSADD string "string list" | cSREM string string | cSISMEMBER string string
  | cSCARD string | cSMEMBERS string
  | cZADD string "(int \<times> string) list" | cZREM string string
  | cZRANGEBYSCORE string int nat | cZREMRANGEBYSCORE string int | cZCARD string
  | cZRANGE_FIRST string
  | cHSET string "(string \<times> string) list" | cHGET string string | cHMGET string "string list"
  | cHINCRBY string string int | cHDEL string string | cHLEN string | cHGETALL string

definition wrongtype :: rreply where
  "wrongtype = RErr ''WRONGTYPE Operation against a key holding the wrong kind of value''"

definition not_integer :: rreply where
  "not_integer = RErr ''ERR value is not an integer or out of range''"

definition bad_expire :: rreply where
  "bad_expire = RErr ''ERR invalid expire time''"

definition with_list :: "db \<Rightarrow> string \<Rightarrow> (string list \<Rightarrow> rreply \<times> db) \<Rightarrow> rreply \<times> db" where
  "with_list d k f = (case data d k of
     None \<Rightarrow> f [] | Some (VList xs) \<Rightarrow> f xs | Some _ \<Rightarrow> (wrongtype, d))"

definition with_set :: "db \<Rightarrow> string \<Rightarrow> (string list \<Rightarrow> rreply \<times> db) \<Rightarrow> rreply \<times> db" where
  "with_set d k f = (case data d k of
     None \<Rightarrow> f [] | Some (VSet xs) \<Rightarrow> f xs | Some _ \<Rightarrow> (wrongtype, d))"

definition with_zset :: "db \<Rightarrow> string \<Rightarrow> ((int \<times> string) list \<Rightarrow> rreply \<times> db) \<Rightarrow> rreply \<times> db" where
  "with_zset d k f = (case data d k of
     None \<Rightarrow> f [] | Some (VZset xs) \<Rightarrow> f xs | Some _ \<Rightarrow> (wrongtype, d))"

definition with_hash :: "db \<Rightarrow> string \<Rightarrow> ((string \<times> string) list \<Rightarrow> rreply \<times> db) \<Rightarrow> rreply \<times> db" where
  "with_hash d k f = (case data d k of
     None \<Rightarrow> f [] | Some (VHash xs) \<Rightarrow> f xs | Some _ \<Rightarrow> (wrongtype, d))"

definition with_str :: "db \<Rightarrow> string \<Rightarrow> (string option \<Rightarrow> rreply \<times> db) \<Rightarrow> rreply \<times> db" where
  "with_str d k f = (case data d k of
     None \<Rightarrow> f None | Some (VStr s) \<Rightarrow> f (Some s) | Some _ \<Rightarrow> (wrongtype, d))"

definition bulk :: "string option \<Rightarrow> rreply" where
  "bulk v = (case v of None \<Rightarrow> RNil | Some s \<Rightarrow> RBulk s)"

definition expire_in :: "string \<Rightarrow> int \<Rightarrow> db \<Rightarrow> rreply \<times> db" where
  "expire_in k us d =
     (if \<not> has_key d k then (RInt 0, d)
      else if us \<le> 0 then (RInt 1, drop_key k d)
      else (RInt 1, d\<lparr>expires := (expires d)(k \<mapsto> clock_us d + us)\<rparr>))"

text \<open>A counter is a canonical decimal of a signed 64-bit integer and may not leave that range.\<close>

definition overflow_error :: rreply where
  "overflow_error = RErr ''ERR increment or decrement would overflow''"

definition parse_i64 :: "string \<Rightarrow> int option" where
  "parse_i64 s = (case parse_int s of
      Some i \<Rightarrow> if in_i64 i \<and> string_of_int i = s then Some i else None | None \<Rightarrow> None)"

definition add_counter :: "db \<Rightarrow> string option \<Rightarrow> int \<Rightarrow> (string \<Rightarrow> db) \<Rightarrow> rreply \<times> db" where
  "add_counter d v n store =
     (case (case v of None \<Rightarrow> Some 0 | Some s \<Rightarrow> parse_i64 s) of
        None \<Rightarrow> (not_integer, d)
      | Some i \<Rightarrow> if in_i64 (i + n) then (RInt (i + n), store (string_of_int (i + n))) else (overflow_error, d))"

definition incr_by :: "string \<Rightarrow> int \<Rightarrow> db \<Rightarrow> rreply \<times> db" where
  "incr_by k n d = with_str d k (\<lambda>v. add_counter d v n (\<lambda>t. put k (VStr t) d))"

definition zadd1 :: "(int \<times> string) list \<Rightarrow> int \<times> string \<Rightarrow> (int \<times> string) list" where
  "zadd1 z p = insort p (filter (\<lambda>q. snd q \<noteq> snd p) z)"

definition sadd1 :: "string list \<Rightarrow> string \<Rightarrow> string list" where
  "sadd1 xs x = (if x \<in> set xs then xs else xs @ [x])"

definition hset1 :: "(string \<times> string) list \<Rightarrow> string \<times> string \<Rightarrow> (string \<times> string) list" where
  "hset1 h p = AList.update (fst p) (snd p) h"

fun flat_pairs :: "(string \<times> string) list \<Rightarrow> rreply list" where
  "flat_pairs [] = []"
| "flat_pairs ((f, v) # ps) = RBulk f # RBulk v # flat_pairs ps"

primrec exec :: "rcmd \<Rightarrow> db \<Rightarrow> rreply \<times> db" where
  "exec (cTYPE k) d = (RStatus (rtype d k), d)"
| "exec (cEXISTS k) d = (RInt (if has_key d k then 1 else 0), d)"
| "exec (cDEL ks) d =
     (RInt (int (length (filter (has_key d) (remdups ks)))), fold drop_key ks d)"
| "exec (cEXPIRE k secs) d = expire_in k (secs * 1000000) d"
| "exec (cPEXPIRE k ms) d = expire_in k (ms * 1000) d"
| "exec (cPTTL k) d =
     (RInt (if \<not> has_key d k then -2
            else case expires d k of None \<Rightarrow> -1 | Some t \<Rightarrow> (t - clock_us d) div 1000), d)"
| "exec (cTTL k) d =
     (RInt (if \<not> has_key d k then -2
            else case expires d k of None \<Rightarrow> -1 | Some t \<Rightarrow> ((t - clock_us d) div 1000 + 500) div 1000), d)"
| "exec cTIME d =
     (RArr [RBulk (string_of_int (clock_us d div 1000000)), RBulk (string_of_int (clock_us d mod 1000000))], d)"
| "exec (cGET k) d = with_str d k (\<lambda>v. (bulk v, d))"
| "exec (cSET k v) d = (RStatus ''OK'', set_str k v None d)"
| "exec (cSET_EX k v secs) d =
     (if secs \<le> 0 then (bad_expire, d)
      else (RStatus ''OK'', set_str k v (Some (clock_us d + secs * 1000000)) d))"
| "exec (cSET_PX k v ms) d =
     (if ms \<le> 0 then (bad_expire, d)
      else (RStatus ''OK'', set_str k v (Some (clock_us d + ms * 1000)) d))"
| "exec (cSET_NX_PX k v ms) d =
     (if ms \<le> 0 then (bad_expire, d) else if has_key d k then (RNil, d)
      else (RStatus ''OK'', set_str k v (Some (clock_us d + ms * 1000)) d))"
| "exec (cSET_NX_EX k v secs) d =
     (if secs \<le> 0 then (bad_expire, d) else if has_key d k then (RNil, d)
      else (RStatus ''OK'', set_str k v (Some (clock_us d + secs * 1000000)) d))"
| "exec (cSETNX k v) d =
     (if has_key d k then (RInt 0, d) else (RInt 1, set_str k v None d))"
| "exec (cINCR k) d = incr_by k 1 d"
| "exec (cDECR k) d = incr_by k (-1) d"
| "exec (cLPUSH k vs) d = with_list d k (\<lambda>xs.
     (RInt (int (length (rev vs @ xs))), put k (VList (rev vs @ xs)) d))"
| "exec (cRPUSH k vs) d = with_list d k (\<lambda>xs.
     (RInt (int (length (xs @ vs))), put k (VList (xs @ vs)) d))"
| "exec (cRPOP k) d = with_list d k (\<lambda>xs.
     if xs = [] then (RNil, d) else (RBulk (last xs), put k (VList (butlast xs)) d))"
| "exec (cLPOP k) d = with_list d k (\<lambda>xs.
     case xs of [] \<Rightarrow> (RNil, d) | y # ys \<Rightarrow> (RBulk y, put k (VList ys) d))"
| "exec (cLMOVE src dst) d = with_list d src (\<lambda>xs.
     if xs = [] then (RNil, d)
     else with_list d dst (\<lambda>_.
       (let d1 = put src (VList (butlast xs)) d
        in (RBulk (last xs), put dst (VList (last xs # lst d1 dst)) d1))))"
| "exec (cLREM k v) d = with_list d k (\<lambda>xs.
     if v \<in> set xs then (RInt 1, put k (VList (remove1 v xs)) d) else (RInt 0, d))"
| "exec (cLPOS k v) d = with_list d k (\<lambda>xs.
     ((case index_of v xs of None \<Rightarrow> RNil | Some i \<Rightarrow> RInt (int i)), d))"
| "exec (cLSET k i v) d = with_list d k (\<lambda>xs.
     if xs = [] then (RErr ''ERR no such key'', d)
     else if 0 \<le> i \<and> i < int (length xs) then (RStatus ''OK'', put k (VList (xs[nat i := v])) d)
     else (RErr ''ERR index out of range'', d))"
| "exec (cLRANGE_ALL k) d = with_list d k (\<lambda>xs. (RArr (map RBulk xs), d))"
| "exec (cLTRIM_TO k n) d = with_list d k (\<lambda>xs. (RStatus ''OK'', put k (VList (take n xs)) d))"
| "exec (cLLEN k) d = with_list d k (\<lambda>xs. (RInt (int (length xs)), d))"
| "exec (cSADD k vs) d = with_set d k (\<lambda>xs.
     (RInt (int (length (foldl sadd1 xs vs) - length xs)), put k (VSet (foldl sadd1 xs vs)) d))"
| "exec (cSREM k v) d = with_set d k (\<lambda>xs.
     if v \<in> set xs then (RInt 1, put k (VSet (remove1 v xs)) d) else (RInt 0, d))"
| "exec (cSISMEMBER k v) d = with_set d k (\<lambda>xs. (RInt (if v \<in> set xs then 1 else 0), d))"
| "exec (cSCARD k) d = with_set d k (\<lambda>xs. (RInt (int (length xs)), d))"
| "exec (cSMEMBERS k) d = with_set d k (\<lambda>xs. (RArr (map RBulk xs), d))"
| "exec (cZADD k ps) d = with_zset d k (\<lambda>z.
     (RInt (int (length (foldl zadd1 z ps) - length z)), put k (VZset (foldl zadd1 z ps)) d))"
| "exec (cZREM k m) d = with_zset d k (\<lambda>z.
     (RInt (int (length (filter (\<lambda>p. snd p = m) z))), put k (VZset (filter (\<lambda>p. snd p \<noteq> m) z)) d))"
| "exec (cZRANGEBYSCORE k mx n) d = with_zset d k (\<lambda>z.
     (RArr (map (RBulk \<circ> snd) (take n (filter (\<lambda>p. fst p \<le> mx) z))), d))"
| "exec (cZREMRANGEBYSCORE k mx) d = with_zset d k (\<lambda>z.
     (RInt (int (length (filter (\<lambda>p. fst p \<le> mx) z))), put k (VZset (filter (\<lambda>p. \<not> fst p \<le> mx) z)) d))"
| "exec (cZCARD k) d = with_zset d k (\<lambda>z. (RInt (int (length z)), d))"
| "exec (cZRANGE_FIRST k) d = with_zset d k (\<lambda>z.
     ((case z of [] \<Rightarrow> RArr [] | (sc, m) # _ \<Rightarrow> RArr [RBulk m, RBulk (string_of_int sc)]), d))"
| "exec (cHSET k ps) d = with_hash d k (\<lambda>h.
     (RInt (int (length (foldl hset1 h ps) - length h)), put k (VHash (foldl hset1 h ps)) d))"
| "exec (cHGET k f) d = with_hash d k (\<lambda>h. (bulk (map_of h f), d))"
| "exec (cHMGET k fs) d = with_hash d k (\<lambda>h. (RArr (map (\<lambda>f. bulk (map_of h f)) fs), d))"
| "exec (cHINCRBY k f n) d = with_hash d k (\<lambda>h.
     add_counter d (map_of h f) n (\<lambda>t. put k (VHash (AList.update f t h)) d))"
| "exec (cHDEL k f) d = with_hash d k (\<lambda>h.
     (RInt (case map_of h f of None \<Rightarrow> 0 | Some _ \<Rightarrow> 1), put k (VHash (AList.delete f h)) d))"
| "exec (cHLEN k) d = with_hash d k (\<lambda>h. (RInt (int (length h)), d))"
| "exec (cHGETALL k) d = with_hash d k (\<lambda>h. (RArr (flat_pairs h), d))"


text \<open>Time passes between requests; keys whose deadline has been reached are gone.\<close>

definition tick :: "int \<Rightarrow> db \<Rightarrow> db" where
  "tick t d =
     (let gone = (\<lambda>k. case expires d k of None \<Rightarrow> False | Some dl \<Rightarrow> dl \<le> t)
      in d\<lparr>data := (\<lambda>k. if gone k then None else data d k),
           expires := (\<lambda>k. if gone k then None else expires d k),
           clock_us := t\<rparr>)"

definition empty_db :: db where
  "empty_db = \<lparr>data = (\<lambda>_. None), expires = (\<lambda>_. None), clock_us = 0\<rparr>"

section \<open>Scripts\<close>

datatype lua =
    LRet rreply
  | LErr string
  | LCall rcmd "rreply \<Rightarrow> lua"

primrec run_lua :: "(rcmd \<Rightarrow> 's \<Rightarrow> rreply \<times> 's) \<Rightarrow> lua \<Rightarrow> 's \<Rightarrow> (string + rreply) \<times> 's" where
  "run_lua call (LRet r) = (\<lambda>s. (Inr r, s))"
| "run_lua call (LErr e) = (\<lambda>s. (Inl e, s))"
| "run_lua call (LCall c f) = (\<lambda>s.
     (case call c s of (r, s') \<Rightarrow>
        (case r of RErr e \<Rightarrow> (Inl e, s') | _ \<Rightarrow> run_lua call (f r) s')))"

text \<open>
  The guard every script opens with: \<^verbatim>\<open>redis.call("TYPE", key).ok\<close> must be \<^verbatim>\<open>none\<close> or the wanted
  type, otherwise the script returns an error reply.
\<close>

definition status :: "rreply \<Rightarrow> string" where
  "status r = (case r of RStatus t \<Rightarrow> t | _ \<Rightarrow> [])"

definition want :: "string \<Rightarrow> string \<Rightarrow> string \<Rightarrow> lua \<Rightarrow> lua" where
  "want what ty k cont = LCall (cTYPE k) (\<lambda>r.
     if status r \<noteq> ''none'' \<and> status r \<noteq> ty
     then LErr (what @ '' has type '' @ status r @ '', want '' @ ty) else cont)"

text \<open>Commands whose reply enumerates an unordered collection.\<close>

fun enum_cmd :: "rcmd \<Rightarrow> bool" where
  "enum_cmd (cHGETALL _) = True"
| "enum_cmd (cSMEMBERS _) = True"
| "enum_cmd _ = False"

primrec enum_free :: "lua \<Rightarrow> bool" where
  "enum_free (LRet r) = True"
| "enum_free (LErr e) = True"
| "enum_free (LCall c f) = (\<not> enum_cmd c \<and> (\<forall>r. enum_free (f r)))"

section \<open>The server interface\<close>

text \<open>
  A server is any implementation of commands on some state with a view of that state as a key
  space.  \<open>command\<close> is the command reference; an enumeration returns the members of the
  collection in an order the server chooses.
\<close>

locale redis_server =
  fixes call :: "rcmd \<Rightarrow> 's \<Rightarrow> rreply \<times> 's"
    and view :: "'s \<Rightarrow> db"
  assumes command:
      "\<not> enum_cmd c \<Longrightarrow> call c s = (r, s') \<Longrightarrow> exec c (view s) = (r, view s')"
    and hgetall:
      "call (cHGETALL k) s = (r, s') \<Longrightarrow>
         view s' = view s \<and>
         (if hashy (view s) k
          then \<exists>ps. r = RArr (flat_pairs ps) \<and> mset ps = mset (hsh (view s) k)
          else r = wrongtype)"
    and smembers:
      "call (cSMEMBERS k) s = (r, s') \<Longrightarrow>
         view s' = view s \<and>
         (if setty (view s) k
          then \<exists>ms. r = RArr (map RBulk ms) \<and> mset ms = mset (sts (view s) k)
          else r = wrongtype)"
begin

lemma run_lua_view:
  "enum_free p \<Longrightarrow> run_lua call p s = (r, s') \<Longrightarrow> run_lua exec p (view s) = (r, view s')"
proof (induction p arbitrary: s)
  case (LCall c f)
  obtain r1 s1 where c1: "call c s = (r1, s1)"
    by (cases "call c s")
  then have e1: "exec c (view s) = (r1, view s1)"
    using LCall.prems command by simp
  show ?case
  proof (cases "\<exists>e. r1 = RErr e")
    case True
    then show ?thesis
      using LCall.prems c1 e1 by auto
  next
    case False
    then have "run_lua call (f r1) s1 = (r, s')"
      using LCall.prems c1 by (cases r1) auto
    then have "run_lua exec (f r1) (view s1) = (r, view s')"
      using LCall by simp
    then show ?thesis
      using False e1 by (cases r1) auto
  qed
qed auto

end

section \<open>Equations for the key space\<close>

lemma data_put [simp]:
  "data (put k v d) k' = (if k' = k then (if empty_val v then None else Some v) else data d k')"
  by (simp add: put_def drop_key_def)

lemma data_drop_key [simp]: "data (drop_key k d) k' = (if k' = k then None else data d k')"
  by (simp add: drop_key_def)

lemma data_set_str [simp]: "data (set_str k v e d) k' = (if k' = k then Some (VStr v) else data d k')"
  by (simp add: set_str_def)

lemma clock_put [simp]: "clock_us (put k v d) = clock_us d"
  by (simp add: put_def drop_key_def)

lemma clock_drop_key [simp]: "clock_us (drop_key k d) = clock_us d"
  by (simp add: drop_key_def)

lemma clock_set_str [simp]: "clock_us (set_str k v e d) = clock_us d"
  by (simp add: set_str_def)

lemma data_fold_drop [simp]:
  "data (fold drop_key ks d) k = (if k \<in> set ks then None else data d k)"
  by (induction ks arbitrary: d) auto

lemma view_cong:
  assumes "data d k = data e k'"
  shows "lst d k = lst e k'" "sts d k = sts e k'" "zst d k = zst e k'" "hsh d k = hsh e k'"
    "str d k = str e k'" "rtype d k = rtype e k'" "has_key d k = has_key e k'"
  using assms by (simp_all add: lst_def sts_def zst_def hsh_def str_def rtype_def has_key_def)

lemmas key_views = lst_def sts_def zst_def hsh_def str_def rtype_def has_key_def
lemmas key_kinds = listy_def setty_def zsetty_def hashy_def stringy_def

lemma lst_put [redis_simps]:
  "lst (put k v d) k' = (if k' = k then (case v of VList xs \<Rightarrow> xs | _ \<Rightarrow> []) else lst d k')"
  by (cases v) (auto simp: lst_def)

lemma sts_put [redis_simps]:
  "sts (put k v d) k' = (if k' = k then (case v of VSet xs \<Rightarrow> xs | _ \<Rightarrow> []) else sts d k')"
  by (cases v) (auto simp: sts_def)

lemma zst_put [redis_simps]:
  "zst (put k v d) k' = (if k' = k then (case v of VZset xs \<Rightarrow> xs | _ \<Rightarrow> []) else zst d k')"
  by (cases v) (auto simp: zst_def)

lemma hsh_put [redis_simps]:
  "hsh (put k v d) k' = (if k' = k then (case v of VHash xs \<Rightarrow> xs | _ \<Rightarrow> []) else hsh d k')"
  by (cases v) (auto simp: hsh_def)

lemma str_put [redis_simps]:
  "str (put k v d) k' = (if k' = k then (case v of VStr s \<Rightarrow> Some s | _ \<Rightarrow> None) else str d k')"
  by (cases v) (auto simp: str_def)

fun val_type :: "rval \<Rightarrow> string" where
  "val_type (VStr _) = ''string''"
| "val_type (VList _) = ''list''"
| "val_type (VSet _) = ''set''"
| "val_type (VZset _) = ''zset''"
| "val_type (VHash _) = ''hash''"

lemma rtype_put [redis_simps]:
  "rtype (put k v d) k' =
     (if k' = k then (if empty_val v then ''none'' else val_type v) else rtype d k')"
  by (cases v) (auto simp: rtype_def)

lemma views_drop_key [redis_simps]:
  "lst (drop_key k d) k' = (if k' = k then [] else lst d k')"
  "sts (drop_key k d) k' = (if k' = k then [] else sts d k')"
  "zst (drop_key k d) k' = (if k' = k then [] else zst d k')"
  "hsh (drop_key k d) k' = (if k' = k then [] else hsh d k')"
  "str (drop_key k d) k' = (if k' = k then None else str d k')"
  "rtype (drop_key k d) k' = (if k' = k then ''none'' else rtype d k')"
  "has_key (drop_key k d) k' = (k' \<noteq> k \<and> has_key d k')"
  by (auto simp: key_views)

lemma views_set_str [redis_simps]:
  "lst (set_str k v e d) k' = (if k' = k then [] else lst d k')"
  "sts (set_str k v e d) k' = (if k' = k then [] else sts d k')"
  "zst (set_str k v e d) k' = (if k' = k then [] else zst d k')"
  "hsh (set_str k v e d) k' = (if k' = k then [] else hsh d k')"
  "str (set_str k v e d) k' = (if k' = k then Some v else str d k')"
  "rtype (set_str k v e d) k' = (if k' = k then ''string'' else rtype d k')"
  "has_key (set_str k v e d) k' = (k' = k \<or> has_key d k')"
  by (auto simp: key_views)

lemma has_key_put [redis_simps]:
  "has_key (put k v d) k' = (if k' = k then \<not> empty_val v else has_key d k')"
  by (auto simp: has_key_def)

lemma with_list_ok [redis_simps]: "listy d k \<Longrightarrow> with_list d k f = f (lst d k)"
  by (auto simp: listy_def with_list_def key_views split: option.splits rval.splits)

lemma with_set_ok [redis_simps]: "setty d k \<Longrightarrow> with_set d k f = f (sts d k)"
  by (auto simp: setty_def with_set_def key_views split: option.splits rval.splits)

lemma with_zset_ok [redis_simps]: "zsetty d k \<Longrightarrow> with_zset d k f = f (zst d k)"
  by (auto simp: zsetty_def with_zset_def key_views split: option.splits rval.splits)

lemma with_hash_ok [redis_simps]: "hashy d k \<Longrightarrow> with_hash d k f = f (hsh d k)"
  by (auto simp: hashy_def with_hash_def key_views split: option.splits rval.splits)

lemma with_str_ok [redis_simps]: "stringy d k \<Longrightarrow> with_str d k f = f (str d k)"
  by (auto simp: stringy_def with_str_def key_views split: option.splits rval.splits)

lemma kinds_put [redis_simps]:
  "listy (put k v d) k' = (if k' = k then empty_val v \<or> val_type v = ''list'' else listy d k')"
  "setty (put k v d) k' = (if k' = k then empty_val v \<or> val_type v = ''set'' else setty d k')"
  "zsetty (put k v d) k' = (if k' = k then empty_val v \<or> val_type v = ''zset'' else zsetty d k')"
  "hashy (put k v d) k' = (if k' = k then empty_val v \<or> val_type v = ''hash'' else hashy d k')"
  "stringy (put k v d) k' = (if k' = k then empty_val v \<or> val_type v = ''string'' else stringy d k')"
  by (cases v; auto simp: key_kinds rtype_put)+

lemma kinds_drop_key [redis_simps]:
  "listy (drop_key k d) k' = (k' = k \<or> listy d k')"
  "setty (drop_key k d) k' = (k' = k \<or> setty d k')"
  "zsetty (drop_key k d) k' = (k' = k \<or> zsetty d k')"
  "hashy (drop_key k d) k' = (k' = k \<or> hashy d k')"
  "stringy (drop_key k d) k' = (k' = k \<or> stringy d k')"
  by (auto simp: key_kinds views_drop_key)

lemma kinds_set_str [redis_simps]:
  "listy (set_str k v e d) k' = (k' \<noteq> k \<and> listy d k')"
  "setty (set_str k v e d) k' = (k' \<noteq> k \<and> setty d k')"
  "zsetty (set_str k v e d) k' = (k' \<noteq> k \<and> zsetty d k')"
  "hashy (set_str k v e d) k' = (k' \<noteq> k \<and> hashy d k')"
  "stringy (set_str k v e d) k' = (k' = k \<or> stringy d k')"
  by (auto simp: key_kinds views_set_str)

lemma run_want [simp]:
  "run_lua exec (want what ty k cont) d =
     (if rtype d k = ''none'' \<or> rtype d k = ty then run_lua exec cont d
      else (Inl (what @ '' has type '' @ rtype d k @ '', want '' @ ty), d))"
  by (simp add: want_def status_def)

lemma enum_free_want [simp]: "enum_free (want what ty k cont) = enum_free cont"
proof
  assume "enum_free (want what ty k cont)"
  then have "enum_free (if status (RStatus ''none'') \<noteq> ''none'' \<and> status (RStatus ''none'') \<noteq> ty
     then LErr (what @ '' has type '' @ status (RStatus ''none'') @ '', want '' @ ty) else cont)"
    unfolding want_def enum_free.simps by blast
  then show "enum_free cont" by (simp add: status_def)
qed (simp add: want_def)

lemma want_cases [redis_simps]:
  "(rtype d k = ''none'' \<or> rtype d k = ''list'') = listy d k"
  "(rtype d k = ''none'' \<or> rtype d k = ''set'') = setty d k"
  "(rtype d k = ''none'' \<or> rtype d k = ''zset'') = zsetty d k"
  "(rtype d k = ''none'' \<or> rtype d k = ''hash'') = hashy d k"
  "(rtype d k = ''none'' \<or> rtype d k = ''string'') = stringy d k"
  by (simp_all add: key_kinds)

interpretation ref: redis_server exec "\<lambda>d. d"
proof (unfold_locales, goal_cases)
  case (1 c s r s')
  then show ?case by simp
next
  case (2 k s r s')
  then show ?case
    by (cases "hashy s k")
       (auto simp: with_hash_ok intro: exI [of _ "hsh s k"],
        auto simp: hashy_def with_hash_def rtype_def split: option.splits rval.splits)
next
  case (3 k s r s')
  then show ?case
    by (cases "setty s k")
       (auto simp: with_set_ok intro: exI [of _ "sts s k"],
        auto simp: setty_def with_set_def rtype_def split: option.splits rval.splits)
qed

section \<open>Deadlines\<close>

text \<open>The key a command may give a deadline; every other key keeps or loses the one it has.\<close>

fun deadline_key :: "rcmd \<Rightarrow> string option" where
  "deadline_key (cEXPIRE k _) = Some k"
| "deadline_key (cPEXPIRE k _) = Some k"
| "deadline_key (cSET_EX k _ _) = Some k"
| "deadline_key (cSET_PX k _ _) = Some k"
| "deadline_key (cSET_NX_PX k _ _) = Some k"
| "deadline_key (cSET_NX_EX k _ _) = Some k"
| "deadline_key _ = None"

primrec lua_all :: "(rcmd \<Rightarrow> bool) \<Rightarrow> lua \<Rightarrow> bool" where
  "lua_all P (LRet r) = True"
| "lua_all P (LErr e) = True"
| "lua_all P (LCall c f) = (P c \<and> (\<forall>r. lua_all P (f r)))"

lemma expires_put: "expires (put k v d) x = expires d x \<or> expires (put k v d) x = None"
  by (simp add: put_def drop_key_def)

lemma expires_drop_key: "expires (drop_key k d) x = expires d x \<or> expires (drop_key k d) x = None"
  by (simp add: drop_key_def)

lemma expires_fold_drop: "expires d x = None \<Longrightarrow> expires (fold drop_key ks d) x = None"
  by (induction ks arbitrary: d) (auto simp: drop_key_def)

lemma with_undated:
  "(\<And>xs. expires (snd (f xs)) x = None) \<Longrightarrow> expires d x = None \<Longrightarrow> expires (snd (with_list d k f)) x = None"
  "(\<And>xs. expires (snd (f xs)) x = None) \<Longrightarrow> expires d x = None \<Longrightarrow> expires (snd (with_set d k f)) x = None"
  "(\<And>xs. expires (snd (g xs)) x = None) \<Longrightarrow> expires d x = None \<Longrightarrow> expires (snd (with_zset d k g)) x = None"
  "(\<And>xs. expires (snd (h xs)) x = None) \<Longrightarrow> expires d x = None \<Longrightarrow> expires (snd (with_hash d k h)) x = None"
  "(\<And>xs. expires (snd (i xs)) x = None) \<Longrightarrow> expires d x = None \<Longrightarrow> expires (snd (with_str d k i)) x = None"
  by (simp_all add: with_list_def with_set_def with_zset_def with_hash_def with_str_def
      split: option.splits rval.splits)

lemma put_undated: "expires d x = None \<Longrightarrow> expires (put k v d) x = None"
  using expires_put by metis

lemma exec_undated: "expires d x = None \<Longrightarrow> deadline_key c \<noteq> Some x \<Longrightarrow> expires (snd (exec c d)) x = None"
  by (cases c)
     (auto simp: expire_in_def incr_by_def add_counter_def set_str_def put_undated Let_def expires_fold_drop drop_key_def
        intro!: with_undated split: option.splits list.splits)

lemma run_lua_undated:
  "lua_all (\<lambda>c. deadline_key c \<noteq> Some x) p \<Longrightarrow> expires d x = None \<Longrightarrow> expires (snd (run_lua exec p d)) x = None"
proof (induction p arbitrary: d)
  case (LCall c f)
  have "expires (snd (exec c d)) x = None"
    using LCall.prems exec_undated by simp
  then show ?case
    using LCall by (cases "exec c d"; cases "fst (exec c d)") auto
qed simp_all

lemma lua_all_want [simp]: "P (cTYPE k) \<Longrightarrow> lua_all P cont \<Longrightarrow> lua_all P (want what ty k cont)"
  by (simp add: want_def)

lemma tick_undated: "expires d x = None \<Longrightarrow> data (tick t d) x = data d x \<and> expires (tick t d) x = None"
  by (simp add: tick_def Let_def)

section \<open>Frames\<close>

text \<open>The keys a command may change.\<close>

fun writes :: "rcmd \<Rightarrow> string list" where
  "writes (cDEL ks) = ks"
| "writes (cEXPIRE k _) = [k]"
| "writes (cPEXPIRE k _) = [k]"
| "writes (cSET k _) = [k]"
| "writes (cSET_EX k _ _) = [k]"
| "writes (cSET_PX k _ _) = [k]"
| "writes (cSET_NX_PX k _ _) = [k]"
| "writes (cSET_NX_EX k _ _) = [k]"
| "writes (cSETNX k _) = [k]"
| "writes (cINCR k) = [k]"
| "writes (cDECR k) = [k]"
| "writes (cLPUSH k _) = [k]"
| "writes (cRPUSH k _) = [k]"
| "writes (cRPOP k) = [k]"
| "writes (cLPOP k) = [k]"
| "writes (cLMOVE k l) = [k, l]"
| "writes (cLREM k _) = [k]"
| "writes (cLSET k _ _) = [k]"
| "writes (cLTRIM_TO k _) = [k]"
| "writes (cSADD k _) = [k]"
| "writes (cSREM k _) = [k]"
| "writes (cZADD k _) = [k]"
| "writes (cZREM k _) = [k]"
| "writes (cZREMRANGEBYSCORE k _) = [k]"
| "writes (cHSET k _) = [k]"
| "writes (cHINCRBY k _ _) = [k]"
| "writes (cHDEL k _) = [k]"
| "writes _ = []"

definition same_at :: "string \<Rightarrow> db \<Rightarrow> db \<Rightarrow> bool" where
  "same_at x d e \<longleftrightarrow> data e x = data d x \<and> expires e x = expires d x"

lemma same_at_refl [simp]: "same_at x d d"
  by (simp add: same_at_def)

lemma same_at_trans: "same_at x d e \<Longrightarrow> same_at x e f \<Longrightarrow> same_at x d f"
  by (simp add: same_at_def)

lemma same_at_put: "x \<noteq> k \<Longrightarrow> same_at x e d \<Longrightarrow> same_at x e (put k v d)"
  by (simp add: same_at_def put_def drop_key_def)

lemma same_at_fold_drop: "x \<notin> set ks \<Longrightarrow> same_at x d (fold drop_key ks d)"
proof (induction ks arbitrary: d)
  case (Cons k ks)
  then have "same_at x (drop_key k d) (fold drop_key ks (drop_key k d))"
    by simp
  moreover have "same_at x d (drop_key k d)"
    using Cons.prems by (auto simp: same_at_def drop_key_def)
  ultimately show ?case
    using same_at_trans by fastforce
qed simp

lemma same_at_with:
  "(\<And>xs. same_at x d (snd (f xs))) \<Longrightarrow> same_at x d (snd (with_list d k f))"
  "(\<And>xs. same_at x d (snd (f xs))) \<Longrightarrow> same_at x d (snd (with_set d k f))"
  "(\<And>xs. same_at x d (snd (g xs))) \<Longrightarrow> same_at x d (snd (with_zset d k g))"
  "(\<And>xs. same_at x d (snd (h xs))) \<Longrightarrow> same_at x d (snd (with_hash d k h))"
  "(\<And>xs. same_at x d (snd (i xs))) \<Longrightarrow> same_at x d (snd (with_str d k i))"
  by (simp_all add: with_list_def with_set_def with_zset_def with_hash_def with_str_def
      split: option.splits rval.splits)

lemma exec_frame: "x \<notin> set (writes c) \<Longrightarrow> same_at x d (snd (exec c d))"
  by (cases c)
     (auto simp: expire_in_def incr_by_def add_counter_def Let_def same_at_put same_at_fold_drop
        intro!: same_at_with split: option.splits list.splits,
      auto simp: same_at_def set_str_def drop_key_def)

lemma run_lua_frame: "lua_all (\<lambda>c. x \<notin> set (writes c)) p \<Longrightarrow> same_at x d (snd (run_lua exec p d))"
proof (induction p arbitrary: d)
  case (LCall c f)
  have one: "same_at x d (snd (exec c d))"
    using LCall.prems exec_frame by simp
  obtain r e where e: "exec c d = (r, e)"
    by (cases "exec c d")
  have rest: "same_at x e (snd (run_lua exec (f r) e))"
    using LCall by simp
  show ?case
    using one same_at_trans [OF _ rest, of d] e by (cases r) simp_all
qed simp_all

lemma clock_with:
  "(\<And>xs. clock_us (snd (f xs)) = clock_us d) \<Longrightarrow> clock_us (snd (with_list d k f)) = clock_us d"
  "(\<And>xs. clock_us (snd (f xs)) = clock_us d) \<Longrightarrow> clock_us (snd (with_set d k f)) = clock_us d"
  "(\<And>xs. clock_us (snd (g xs)) = clock_us d) \<Longrightarrow> clock_us (snd (with_zset d k g)) = clock_us d"
  "(\<And>xs. clock_us (snd (h xs)) = clock_us d) \<Longrightarrow> clock_us (snd (with_hash d k h)) = clock_us d"
  "(\<And>xs. clock_us (snd (i xs)) = clock_us d) \<Longrightarrow> clock_us (snd (with_str d k i)) = clock_us d"
  by (simp_all add: with_list_def with_set_def with_zset_def with_hash_def with_str_def
      split: option.splits rval.splits)

lemma clock_fold_drop [simp]: "clock_us (fold drop_key ks d) = clock_us d"
  by (induction ks arbitrary: d) simp_all

lemma exec_clock: "clock_us (snd (exec c d)) = clock_us d"
  by (cases c)
     (auto simp: expire_in_def incr_by_def add_counter_def Let_def intro!: clock_with split: option.splits list.splits)

lemma run_lua_clock: "clock_us (snd (run_lua exec p d)) = clock_us d"
proof (induction p arbitrary: d)
  case (LCall c f)
  obtain r e where e: "exec c d = (r, e)"
    by (cases "exec c d")
  then have "clock_us e = clock_us d"
    using exec_clock [of c d] by simp
  then show ?case
    using LCall e by (cases r) simp_all
qed simp_all

lemma parse_i64_string [simp]: "in_i64 i \<Longrightarrow> parse_i64 (string_of_int i) = Some i"
  by (simp add: parse_i64_def)

lemma parse_i64_range: "parse_i64 s = Some i \<Longrightarrow> in_i64 i \<and> s = string_of_int i"
  by (auto simp: parse_i64_def split: option.splits if_splits)

section \<open>Key patterns\<close>

text \<open>
  The glob patterns of \<^verbatim>\<open>SCAN ... MATCH\<close>: a star, a question mark, a bracketed class with
  ranges and negation, and a backslash that quotes the next character.
\<close>

definition or_match :: "bool \<Rightarrow> bool \<times> string \<Rightarrow> bool \<times> string" where
  "or_match b r = (b \<or> fst r, snd r)"

primrec class_items :: "nat \<Rightarrow> char \<Rightarrow> string \<Rightarrow> bool \<times> string" where
  "class_items 0 x p = (False, p)"
| "class_items (Suc n) x p = (case p of
      [] \<Rightarrow> (False, [])
    | c # q \<Rightarrow>
        if c = CHR 0x5C \<and> q \<noteq> [] then or_match (x = hd q) (class_items n x (tl q))
        else if c = CHR '']'' then (False, q)
        else if 2 \<le> length q \<and> hd q = CHR ''-''
        then or_match (min c (q ! 1) \<le> x \<and> x \<le> max c (q ! 1)) (class_items n x (drop 2 q))
        else or_match (x = c) (class_items n x q))"

definition class_match :: "char \<Rightarrow> string \<Rightarrow> bool \<times> string" where
  "class_match x p = class_items (length p) x p"

lemma class_items_shorter: "length (snd (class_items n x p)) \<le> length p"
proof (induction n arbitrary: p)
  case (Suc n)
  show ?case
  proof (cases p)
    case (Cons c q)
    then show ?thesis
      using Suc [of "tl q"] Suc [of "drop 2 q"] Suc [of q] by (auto simp: or_match_def)
  qed simp
qed simp

lemma class_match_shorter: "length (snd (class_match x p)) \<le> length p"
  by (simp add: class_match_def class_items_shorter)

definition char_class :: "char \<Rightarrow> string \<Rightarrow> bool \<times> string" where
  "char_class x p =
     (if p \<noteq> [] \<and> hd p = CHR ''^'' then (\<not> fst (class_match x (tl p)), snd (class_match x (tl p)))
      else class_match x p)"

lemma char_class_shorter: "length (snd (char_class x p)) \<le> length p"
  using class_match_shorter [of x "tl p"] class_match_shorter [of x p] by (auto simp: char_class_def)

function glob :: "string \<Rightarrow> string \<Rightarrow> bool" where
  "glob [] s = (s = [])"
| "glob (c # p) s =
     (if c = CHR ''*'' then glob p s \<or> (case s of [] \<Rightarrow> False | _ # t \<Rightarrow> glob (c # p) t)
      else case s of
        [] \<Rightarrow> False
      | x # t \<Rightarrow>
          if c = CHR ''?'' then glob p t
          else if c = CHR ''['' then fst (char_class x p) \<and> glob (snd (char_class x p)) t
          else if c = CHR 0x5C \<and> p \<noteq> [] then x = hd p \<and> glob (tl p) t
          else x = c \<and> glob p t)"
  by pat_completeness auto
termination
proof (relation "measure (\<lambda>(p, s). length p + length s)")
  show "((snd (char_class x p), t), c # p, s) \<in> measure (\<lambda>(p, s). length p + length s)" if "s = x # t" for c p s x t
    using char_class_shorter [of x p] that by simp
qed simp_all

definition plain_char :: "char \<Rightarrow> bool" where
  "plain_char c \<longleftrightarrow> c \<notin> {CHR ''*'', CHR ''?'', CHR ''['', CHR 0x5C}"

lemma glob_star: "glob ''*'' s"
  by (induction s) simp_all

lemma glob_prefix: "list_all plain_char p \<Longrightarrow> glob (p @ ''*'') s \<longleftrightarrow> (\<exists>t. s = p @ t)"
proof (induction p arbitrary: s)
  case Nil
  then show ?case by (simp add: glob_star del: glob.simps)
next
  case (Cons c p)
  then show ?case
    by (cases s) (auto simp: plain_char_def)
qed

declare glob.simps [simp del]

end
