(* ===== verification/Json.thy ===== *)
theory Json
  imports Prelude
begin

text \<open>
  The part of Go's \<^verbatim>\<open>encoding/json\<close> that Senna relies on: the text form of a JSON document.

  \<^item> \<open>json_print\<close> is the compact output of \<^verbatim>\<open>json.Marshal\<close>, with its escapes (control
    characters, quotes, and the HTML characters that Go escapes by default).
  \<^item> \<open>json_parse\<close> reads a document with white space, all escapes of the grammar and repeated
    object keys kept in document order; a number is kept as its literal.
  \<^item> \<open>json_parse_print\<close> is the round trip every payload in Redis depends on.

  Escaped surrogates are decoded to the replacement character one by one; characters above
  ASCII are passed through as their UTF-8 bytes.
\<close>

datatype json =
    JNull
  | JBool bool
  | JNum string
  | JStr string
  | JArr "json list"
  | JObj "(string \<times> json) list"

section \<open>Printing\<close>

definition hex_char :: "nat \<Rightarrow> char" where
  "hex_char n = ''0123456789abcdef'' ! n"

definition esc_char :: "char \<Rightarrow> string" where
  "esc_char c =
     (if c = CHR 0x22 then [CHR 0x5C, CHR 0x22]
      else if c = CHR 0x5C then [CHR 0x5C, CHR 0x5C]
      else if c = CHR 0x08 then [CHR 0x5C, CHR ''b'']
      else if c = CHR 0x0C then [CHR 0x5C, CHR ''f'']
      else if c = CHR 0x0A then [CHR 0x5C, CHR ''n'']
      else if c = CHR 0x0D then [CHR 0x5C, CHR ''r'']
      else if c = CHR 0x09 then [CHR 0x5C, CHR ''t'']
      else if of_char c < (32::nat) \<or> c = CHR 0x3C \<or> c = CHR 0x3E \<or> c = CHR 0x26
      then [CHR 0x5C, CHR ''u'', CHR ''0'', CHR ''0'', hex_char (of_char c div 16), hex_char (of_char c mod 16)]
      else [c])"

definition quote :: "string \<Rightarrow> string" where
  "quote s = CHR 0x22 # concat (map esc_char s) @ [CHR 0x22]"

fun json_print :: "json \<Rightarrow> string"
  and print_elems :: "json list \<Rightarrow> string"
  and print_members :: "(string \<times> json) list \<Rightarrow> string" where
  "json_print JNull = ''null''"
| "json_print (JBool b) = (if b then ''true'' else ''false'')"
| "json_print (JNum n) = n"
| "json_print (JStr s) = quote s"
| "json_print (JArr xs) = ''['' @ print_elems xs @ '']''"
| "json_print (JObj ms) = ''{'' @ print_members ms @ ''}''"
| "print_elems [] = []"
| "print_elems [x] = json_print x"
| "print_elems (x # y # ys) = json_print x @ '','' @ print_elems (y # ys)"
| "print_members [] = []"
| "print_members [(k, x)] = quote k @ '':'' @ json_print x"
| "print_members ((k, x) # m # ms) = quote k @ '':'' @ json_print x @ '','' @ print_members (m # ms)"

section \<open>Parsing\<close>

definition is_ws :: "char \<Rightarrow> bool" where
  "is_ws c \<longleftrightarrow> c = CHR 0x20 \<or> c = CHR 0x09 \<or> c = CHR 0x0A \<or> c = CHR 0x0D"

definition hex_val :: "char \<Rightarrow> nat option" where
  "hex_val c = (case index_of c ''0123456789abcdef'' of
      Some n \<Rightarrow> Some n | None \<Rightarrow> map_option (\<lambda>n. n + 10) (index_of c ''ABCDEF''))"

definition hex4 :: "char \<Rightarrow> char \<Rightarrow> char \<Rightarrow> char \<Rightarrow> nat option" where
  "hex4 a b c d = (case (hex_val a, hex_val b, hex_val c, hex_val d) of
      (Some w, Some x, Some y, Some z) \<Rightarrow> Some (((w * 16 + x) * 16 + y) * 16 + z) | _ \<Rightarrow> None)"

definition utf8 :: "nat \<Rightarrow> string" where
  "utf8 n =
     (if n < 128 then [char_of n]
      else if n < 2048 then [char_of (192 + n div 64), char_of (128 + n mod 64)]
      else if 55296 \<le> n \<and> n < 57344 then [char_of (239::nat), char_of (191::nat), char_of (189::nat)]
      else [char_of (224 + n div 4096), char_of (128 + n div 64 mod 64), char_of (128 + n mod 64)])"

definition simple_escape :: "char \<Rightarrow> char option" where
  "simple_escape c =
     (if c = CHR 0x22 \<or> c = CHR 0x5C \<or> c = CHR 0x2F then Some c
      else if c = CHR ''b'' then Some (CHR 0x08) else if c = CHR ''f'' then Some (CHR 0x0C)
      else if c = CHR ''n'' then Some (CHR 0x0A) else if c = CHR ''r'' then Some (CHR 0x0D)
      else if c = CHR ''t'' then Some (CHR 0x09) else None)"

fun p_str :: "string \<Rightarrow> (string \<times> string) option" where
  "p_str [] = None"
| "p_str (c # cs) =
     (if c = CHR 0x22 then Some ([], cs)
      else if c = CHR 0x5C then
        (case cs of
           [] \<Rightarrow> None
         | e # es \<Rightarrow>
             if e = CHR ''u'' then
               (case es of
                  h1 # h2 # h3 # h4 # rest \<Rightarrow>
                    (case hex4 h1 h2 h3 h4 of
                       None \<Rightarrow> None
                     | Some n \<Rightarrow> map_option (\<lambda>(s, r). (utf8 n @ s, r)) (p_str rest))
                | _ \<Rightarrow> None)
             else
               (case simple_escape e of
                  None \<Rightarrow> None
                | Some x \<Rightarrow> map_option (\<lambda>(s, r). (x # s, r)) (p_str es)))
      else if of_char c < (32::nat) then None
      else map_option (\<lambda>(s, r). (c # s, r)) (p_str cs))"

definition num_char :: "char \<Rightarrow> bool" where
  "num_char c \<longleftrightarrow> c \<in> set ''+-.0123456789Ee''"

definition is_digit :: "char \<Rightarrow> bool" where
  "is_digit c \<longleftrightarrow> c \<in> set ''0123456789''"

definition valid_exp :: "string \<Rightarrow> bool" where
  "valid_exp s = (case s of
      [] \<Rightarrow> True
    | e # t \<Rightarrow> (e = CHR ''e'' \<or> e = CHR ''E'') \<and>
        (let u = (case t of c # v \<Rightarrow> if c = CHR ''+'' \<or> c = CHR ''-'' then v else t | [] \<Rightarrow> t)
         in u \<noteq> [] \<and> list_all is_digit u))"

definition valid_frac :: "string \<Rightarrow> bool" where
  "valid_frac s = (case s of
      c # t \<Rightarrow> if c = CHR ''.'' then takeWhile is_digit t \<noteq> [] \<and> valid_exp (dropWhile is_digit t)
               else valid_exp s
    | [] \<Rightarrow> True)"

definition valid_num :: "string \<Rightarrow> bool" where
  "valid_num s =
     (let t = (case s of c # u \<Rightarrow> if c = CHR ''-'' then u else s | [] \<Rightarrow> s);
          i = takeWhile is_digit t
      in i \<noteq> [] \<and> (hd i = CHR ''0'' \<longrightarrow> length i = 1) \<and> valid_frac (dropWhile is_digit t))"

definition p_lit :: "string \<Rightarrow> json \<Rightarrow> string \<Rightarrow> (json \<times> string) option" where
  "p_lit l j cs = (if take (length l) cs = l then Some (j, drop (length l) cs) else None)"

definition p_num :: "string \<Rightarrow> (json \<times> string) option" where
  "p_num cs = (let l = takeWhile num_char cs
     in if valid_num l then Some (JNum l, dropWhile num_char cs) else None)"

fun p_value :: "nat \<Rightarrow> string \<Rightarrow> (json \<times> string) option"
  and p_elems :: "nat \<Rightarrow> string \<Rightarrow> (json list \<times> string) option"
  and p_members :: "nat \<Rightarrow> string \<Rightarrow> ((string \<times> json) list \<times> string) option" where
  "p_value 0 cs = None"
| "p_value (Suc f) cs =
     (case dropWhile is_ws cs of
        [] \<Rightarrow> None
      | c # r \<Rightarrow>
          if c = CHR ''n'' then p_lit ''null'' JNull (c # r)
          else if c = CHR ''t'' then p_lit ''true'' (JBool True) (c # r)
          else if c = CHR ''f'' then p_lit ''false'' (JBool False) (c # r)
          else if c = CHR 0x22 then map_option (\<lambda>(s, t). (JStr s, t)) (p_str r)
          else if c = CHR ''['' then
            (case dropWhile is_ws r of
               x # t \<Rightarrow> if x = CHR '']'' then Some (JArr [], t)
                        else map_option (\<lambda>(xs, u). (JArr xs, u)) (p_elems f r)
             | [] \<Rightarrow> None)
          else if c = CHR ''{'' then
            (case dropWhile is_ws r of
               x # t \<Rightarrow> if x = CHR ''}'' then Some (JObj [], t)
                        else map_option (\<lambda>(ms, u). (JObj ms, u)) (p_members f r)
             | [] \<Rightarrow> None)
          else p_num (c # r))"
| "p_elems 0 cs = None"
| "p_elems (Suc f) cs =
     (case p_value f cs of
        None \<Rightarrow> None
      | Some (x, r) \<Rightarrow>
          (case dropWhile is_ws r of
             [] \<Rightarrow> None
           | c # t \<Rightarrow>
               if c = CHR '','' then map_option (\<lambda>(xs, u). (x # xs, u)) (p_elems f t)
               else if c = CHR '']'' then Some ([x], t) else None))"
| "p_members 0 cs = None"
| "p_members (Suc f) cs =
     (case dropWhile is_ws cs of
        [] \<Rightarrow> None
      | q # r0 \<Rightarrow>
          if q \<noteq> CHR 0x22 then None
          else
            (case p_str r0 of
               None \<Rightarrow> None
             | Some (k, r1) \<Rightarrow>
                 (case dropWhile is_ws r1 of
                    [] \<Rightarrow> None
                  | col # r2 \<Rightarrow>
                      if col \<noteq> CHR '':'' then None
                      else
                        (case p_value f r2 of
                           None \<Rightarrow> None
                         | Some (x, r3) \<Rightarrow>
                             (case dropWhile is_ws r3 of
                                [] \<Rightarrow> None
                              | c # t \<Rightarrow>
                                  if c = CHR '','' then map_option (\<lambda>(ms, u). ((k, x) # ms, u)) (p_members f t)
                                  else if c = CHR ''}'' then Some ([(k, x)], t) else None)))))"

definition json_parse :: "string \<Rightarrow> json option" where
  "json_parse s = (case p_value (2 * length s + 2) s of
      Some (j, r) \<Rightarrow> if list_all is_ws r then Some j else None
    | None \<Rightarrow> None)"

section \<open>Round trip\<close>

fun json_ok :: "json \<Rightarrow> bool" where
  "json_ok (JNum n) = valid_num n"
| "json_ok (JArr xs) = (\<forall>x\<in>set xs. json_ok x)"
| "json_ok (JObj ms) = (\<forall>m\<in>set ms. json_ok (snd m))"
| "json_ok _ = True"

lemma hex_val_char: "n < 16 \<Longrightarrow> hex_val (hex_char n) = Some n"
proof -
  have "list_all (\<lambda>n. hex_val (hex_char n) = Some n) [0..<16]"
    by code_simp
  then show "n < 16 \<Longrightarrow> ?thesis"
    by (simp add: list_all_iff)
qed

lemma hex4_low: "n < 128 \<Longrightarrow> hex4 (CHR ''0'') (CHR ''0'') (hex_char (n div 16)) (hex_char (n mod 16)) = Some n"
proof -
  assume "n < 128"
  then have "n div 16 < 16" by simp
  moreover have "hex_val (CHR ''0'') = Some 0"
    by (simp add: hex_val_def)
  ultimately show ?thesis
    by (simp add: hex4_def hex_val_char)
qed

lemma of_char_angle:
  "of_char (CHR 0x3C) = (60::nat)" "of_char (CHR 0x3E) = (62::nat)" "of_char (CHR 0x26) = (38::nat)"
  by simp_all

lemma p_str_esc: "p_str (esc_char c @ t) = map_option (\<lambda>(s, r). (c # s, r)) (p_str t)"
proof -
  let ?n = "of_char c :: nat"
  let ?S = "{CHR 0x22, CHR 0x5C, CHR 0x08, CHR 0x0C, CHR 0x0A, CHR 0x0D, CHR 0x09}"
  let ?L = "?n < 32 \<or> c = CHR 0x3C \<or> c = CHR 0x3E \<or> c = CHR 0x26"
  consider (simple) "c \<in> ?S" | (low) "c \<notin> ?S" "?L" | (plain) "c \<notin> ?S" "\<not> ?L"
    by argo
  then show ?thesis
  proof cases
    case simple
    then show ?thesis
      unfolding insert_iff empty_iff
      by (elim disjE FalseE) (simp_all add: esc_char_def simple_escape_def)
  next
    case low
    then have n: "?n < 128"
      by (elim disjE) (simp_all add: of_char_angle)
    have e: "esc_char c =
        [CHR 0x5C, CHR ''u'', CHR ''0'', CHR ''0'', hex_char (?n div 16), hex_char (?n mod 16)]"
      using low unfolding insert_iff empty_iff by (simp add: esc_char_def)
    have u: "utf8 ?n = [c]"
      using n by (simp add: utf8_def)
    show ?thesis
      unfolding e by (simp add: hex4_low [OF n] u)
  next
    case plain
    then show ?thesis
      unfolding insert_iff empty_iff by (simp add: esc_char_def)
  qed
qed

lemma p_str_quote: "p_str (concat (map esc_char s) @ CHR 0x22 # r) = Some (s, r)"
  by (induction s) (simp_all add: p_str_esc)

lemma is_digit_num_char: "is_digit c \<Longrightarrow> num_char c"
  by (auto simp: is_digit_def num_char_def)

lemma num_char_marks [simp]:
  "num_char (CHR ''+'')" "num_char (CHR ''-'')" "num_char (CHR ''.'')" "num_char (CHR ''e'')"
  "num_char (CHR ''E'')"
  by (simp_all add: num_char_def)

lemma valid_exp_chars: "valid_exp s \<Longrightarrow> list_all num_char s"
  by (auto simp: valid_exp_def Let_def list_all_iff is_digit_num_char split: list.splits if_splits)

lemma takeWhile_dropWhile_all:
  "list_all P (takeWhile Q s) \<Longrightarrow> list_all P (dropWhile Q s) \<Longrightarrow> list_all P s"
  using list_all_append [of P "takeWhile Q s" "dropWhile Q s"] by simp

lemma takeWhile_digits: "list_all num_char (takeWhile is_digit s)"
  by (induction s) (simp_all add: is_digit_num_char)

lemma valid_frac_chars: "valid_frac s \<Longrightarrow> list_all num_char s"
proof (cases s)
  case (Cons c t)
  assume v: "valid_frac s"
  show ?thesis
  proof (cases "c = CHR ''.''")
    case True
    then have "list_all num_char t"
      using v Cons takeWhile_dropWhile_all [OF takeWhile_digits, of t]
      by (simp add: valid_frac_def valid_exp_chars)
    then show ?thesis
      using True Cons by (simp add: num_char_def)
  next
    case False
    then have "valid_exp s"
      using v Cons by (simp add: valid_frac_def)
    then show ?thesis
      by (rule valid_exp_chars)
  qed
qed simp

lemma valid_num_shape:
  assumes "valid_num l"
  shows "list_all num_char l \<and> (\<exists>c t. l = c # t \<and> (c = CHR ''-'' \<or> is_digit c))"
proof -
  define t where "t = (case l of c # u \<Rightarrow> if c = CHR ''-'' then u else l | [] \<Rightarrow> l)"
  have v: "takeWhile is_digit t \<noteq> []" "valid_frac (dropWhile is_digit t)"
    using assms by (simp_all add: valid_num_def t_def [symmetric] Let_def)
  then have all: "list_all num_char t"
    using takeWhile_dropWhile_all [OF takeWhile_digits, of t] by (simp add: valid_frac_chars)
  obtain d u where t: "t = d # u" "is_digit d"
    using v(1) by (cases t) (simp_all split: if_splits)
  show ?thesis
  proof (cases l)
    case Nil
    then show ?thesis using t by (simp add: t_def)
  next
    case (Cons c w)
    show ?thesis
    proof (cases "c = CHR ''-''")
      case True
      then show ?thesis using all Cons by (simp add: t_def)
    next
      case False
      then show ?thesis using all t Cons by (simp add: t_def)
    qed
  qed
qed

definition not_num_start :: "string \<Rightarrow> bool" where
  "not_num_start r \<longleftrightarrow> (case r of [] \<Rightarrow> True | c # _ \<Rightarrow> \<not> num_char c)"

lemma p_num_lit: "valid_num l \<Longrightarrow> not_num_start r \<Longrightarrow> p_num (l @ r) = Some (JNum l, r)"
proof -
  assume v: "valid_num l" and r: "not_num_start r"
  have all: "\<forall>c\<in>set l. num_char c"
    using valid_num_shape [OF v] by (simp add: list_all_iff)
  then have "takeWhile num_char (l @ r) = l" "dropWhile num_char (l @ r) = r"
    using r by (auto simp: not_num_start_def split: list.splits)
  then show ?thesis
    using v by (simp add: p_num_def)
qed

text \<open>The first character of a printed value selects the branch the parser takes.\<close>

lemma digit_start:
  "c = CHR ''-'' \<or> is_digit c \<Longrightarrow>
     \<not> is_ws c \<and> c \<notin> {CHR ''n'', CHR ''t'', CHR ''f'', CHR 0x22, CHR ''['', CHR ''{''}"
  by (auto simp: is_digit_def is_ws_def)

lemma p_value_num:
  assumes "valid_num l" "not_num_start r"
  shows "p_value (Suc f) (l @ r) = Some (JNum l, r)"
proof -
  obtain c t where l: "l = c # t" "c = CHR ''-'' \<or> is_digit c"
    using valid_num_shape [OF assms(1)] by blast
  then show ?thesis
    using digit_start [OF l(2)] p_num_lit [OF assms] by (auto simp: dropWhile_eq_self_iff)
qed

lemma json_print_start: "json_ok j \<Longrightarrow> \<exists>c t. json_print j = c # t \<and> \<not> is_ws c \<and> c \<notin> {CHR '']'', CHR ''}''}"
proof (cases j)
  case (JNum n)
  assume "json_ok j"
  then obtain c t where "n = c # t" "c = CHR ''-'' \<or> is_digit c"
    using JNum valid_num_shape [of n] by auto
  then show ?thesis
    using JNum digit_start [of c] by (auto simp: is_digit_def is_ws_def)
qed (auto simp: quote_def is_ws_def)

lemma not_num_start_closers [simp]:
  "not_num_start []" "not_num_start (CHR '','' # r)" "not_num_start (CHR '']'' # r)"
  "not_num_start (CHR ''}'' # r)"
  by (simp_all add: not_num_start_def num_char_def)

lemma print_elems_start:
  "xs \<noteq> [] \<Longrightarrow> \<forall>x\<in>set xs. json_ok x \<Longrightarrow>
     \<exists>c t. print_elems xs = c # t \<and> \<not> is_ws c \<and> c \<noteq> CHR '']''"
proof (cases xs)
  case (Cons x ys)
  assume "\<forall>x\<in>set xs. json_ok x"
  then have "json_ok x" using Cons by simp
  then obtain c t where "json_print x = c # t" "\<not> is_ws c" "c \<notin> {CHR '']'', CHR ''}''}"
    using json_print_start by blast
  then show ?thesis using Cons by (cases ys) simp_all
qed simp

lemma print_members_start: "ms \<noteq> [] \<Longrightarrow> \<exists>t. print_members ms = CHR 0x22 # t"
  by (cases ms rule: print_members.cases) (auto simp: quote_def)

lemma p_value_print:
  "json_ok j \<Longrightarrow> not_num_start r \<Longrightarrow> 2 * length (json_print j) < f \<Longrightarrow>
     p_value f (json_print j @ r) = Some (j, r)"
  "\<forall>x\<in>set xs. json_ok x \<Longrightarrow> xs \<noteq> [] \<Longrightarrow> 2 * length (print_elems xs) + 1 < f \<Longrightarrow>
     p_elems f (print_elems xs @ CHR '']'' # r) = Some (xs, r)"
  "\<forall>m\<in>set ms. json_ok (snd m) \<Longrightarrow> ms \<noteq> [] \<Longrightarrow> 2 * length (print_members ms) + 1 < f \<Longrightarrow>
     p_members f (print_members ms @ CHR ''}'' # r) = Some (ms, r)"
proof (induction j and xs and ms arbitrary: f r and f r and f r
    rule: json_print_print_elems_print_members.induct)
  case 1
  then show ?case by (cases f) (simp_all add: p_lit_def is_ws_def)
next
  case (2 b)
  then show ?case by (cases f; cases b) (simp_all add: p_lit_def is_ws_def)
next
  case (3 n)
  then show ?case by (cases f) (simp_all add: p_value_num del: p_value.simps)
next
  case (4 s)
  then show ?case by (cases f) (simp_all add: quote_def p_str_quote is_ws_def)
next
  case (5 xs)
  then show ?case
  proof (cases "xs = []")
    case False
    obtain g where f: "f = Suc g"
      using 5 by (cases f) auto
    obtain c t where ct: "print_elems xs = c # t" "\<not> is_ws c" "c \<noteq> CHR '']''"
      using print_elems_start [OF False] 5 by auto
    have "p_elems g (print_elems xs @ CHR '']'' # r) = Some (xs, r)"
      using 5 False f by (intro "5.IH") auto
    then show ?thesis
      using ct f by (simp add: is_ws_def)
  qed (cases f; simp add: is_ws_def)
next
  case (6 ms)
  then show ?case
  proof (cases "ms = []")
    case False
    obtain g where f: "f = Suc g"
      using 6 by (cases f) auto
    obtain t where ct: "print_members ms = CHR 0x22 # t"
      using print_members_start [OF False] by auto
    have "p_members g (print_members ms @ CHR ''}'' # r) = Some (ms, r)"
      using 6 False f by (intro "6.IH") auto
    then show ?thesis
      using ct f by (simp add: is_ws_def)
  qed (cases f; simp add: is_ws_def)
next
  case 7
  then show ?case by simp
next
  case (8 x)
  then obtain g where f: "f = Suc g" by (cases f) auto
  then have "p_value g (json_print x @ CHR '']'' # r) = Some (x, CHR '']'' # r)"
    using 8 by auto
  then show ?case using f by (simp add: is_ws_def)
next
  case (9 x y ys)
  then obtain g where f: "f = Suc g" by (cases f) auto
  have "p_value g (json_print x @ CHR '','' # print_elems (y # ys) @ CHR '']'' # r)
      = Some (x, CHR '','' # print_elems (y # ys) @ CHR '']'' # r)"
    using 9 f by auto
  moreover have "p_elems g (print_elems (y # ys) @ CHR '']'' # r) = Some (y # ys, r)"
    using 9 f by (intro "9.IH"(2)) auto
  ultimately show ?case using f by (simp add: is_ws_def)
next
  case 10
  then show ?case by simp
next
  case (11 k x)
  then obtain g where f: "f = Suc g" by (cases f) auto
  then have "p_value g (json_print x @ CHR ''}'' # r) = Some (x, CHR ''}'' # r)"
    using 11 by (auto simp: quote_def)
  then show ?case using f by (simp add: is_ws_def quote_def p_str_quote)
next
  case (12 k x m ms)
  then obtain g where f: "f = Suc g" by (cases f) auto
  have "p_value g (json_print x @ CHR '','' # print_members (m # ms) @ CHR ''}'' # r)
      = Some (x, CHR '','' # print_members (m # ms) @ CHR ''}'' # r)"
    using 12 f by auto
  moreover have "p_members g (print_members (m # ms) @ CHR ''}'' # r) = Some (m # ms, r)"
    using 12 f by (intro "12.IH"(2)) auto
  ultimately show ?case using f by (simp add: is_ws_def quote_def p_str_quote)
qed

lemma json_parse_print: "json_ok j \<Longrightarrow> json_parse (json_print j) = Some j"
  using p_value_print(1) [of j "[]" "2 * length (json_print j) + 2"]
  by (simp add: json_parse_def)

lemma json_print_inj: "json_ok j \<Longrightarrow> json_ok j' \<Longrightarrow> json_print j = json_print j' \<Longrightarrow> j = j'"
  by (metis json_parse_print option.inject)

subsection \<open>Integers as number literals\<close>

lemma string_of_nat_digits: "list_all is_digit (string_of_nat n)"
proof (induction n rule: string_of_nat.induct)
  case (1 n)
  have "is_digit (digit_char m)" if "m < 10" for m
    using that nth_mem [of m "''0123456789''"] by (simp add: is_digit_def digit_char_def)
  then show ?case
    using 1 by (subst string_of_nat.simps) simp
qed

lemma string_of_nat_zero: "hd (string_of_nat n) = CHR ''0'' \<longrightarrow> length (string_of_nat n) = 1"
proof (induction n rule: string_of_nat.induct)
  case (1 n)
  show ?case
  proof (cases "n < 10")
    case False
    have "hd (string_of_nat (n div 10)) \<noteq> CHR ''0''"
    proof (cases "n div 10 < 10")
      case True
      have "digit_char (n div 10) \<noteq> digit_char 0"
        using digit_val_char [of "n div 10"] digit_val_char [of 0] True False by fastforce
      then show ?thesis
        using True by (subst string_of_nat.simps) (simp add: digit_char_def)
    next
      case False
      then show ?thesis
        using 1 \<open>\<not> n < 10\<close> by (subst (asm) string_of_nat.simps) (auto simp: string_of_nat.simps [of "n div 10"])
    qed
    then show ?thesis
      using False by (subst (1) string_of_nat.simps) simp
  qed (simp add: string_of_nat.simps)
qed

lemma takeWhile_all_self: "list_all P s \<Longrightarrow> takeWhile P s = s \<and> dropWhile P s = []"
  by (induction s) auto

lemma valid_num_int: "valid_num (string_of_int i)"
proof -
  have nat: "takeWhile is_digit (string_of_nat n) = string_of_nat n \<and> dropWhile is_digit (string_of_nat n) = []" for n
    by (simp add: takeWhile_all_self string_of_nat_digits)
  have case_s: "(case string_of_nat n of c # u \<Rightarrow> if c = CHR ''-'' then u else string_of_nat n | [] \<Rightarrow> string_of_nat n)
      = string_of_nat n" for n
    using string_of_nat_hd [of n] by (cases "string_of_nat n") auto
  show ?thesis
    using string_of_nat_zero
    by (simp add: valid_num_def string_of_int_def Let_def valid_frac_def nat case_s)
qed

end
