(* ===== verification/Timestamp.thy ===== *)
theory Timestamp
  imports Json "HOL-Library.Monad_Syntax"
begin

text \<open>
  Go's \<^verbatim>\<open>time.Time\<close> as Senna stores it.  An instant is its number of nanoseconds since the Unix
  epoch; \<open>fmt_time\<close> is the RFC 3339 text \<^verbatim>\<open>json.Marshal\<close> writes for it in UTC (it fails outside the
  years 0 to 9999) and \<open>parse_time\<close> the strict reader of \<^verbatim>\<open>json.Unmarshal\<close>, which also takes a
  numeric zone offset.  \<open>parse_fmt_time\<close> is their round trip.
\<close>

section \<open>The civil calendar\<close>

definition leap :: "nat \<Rightarrow> bool" where
  "leap y \<longleftrightarrow> y mod 4 = 0 \<and> (y mod 100 \<noteq> 0 \<or> y mod 400 = 0)"

definition year_len :: "nat \<Rightarrow> nat" where
  "year_len y = (if leap y then 366 else 365)"

definition days_before_year :: "nat \<Rightarrow> nat" where
  "days_before_year y = 365 * y + (y + 3) div 4 + (y + 399) div 400 - (y + 99) div 100"

definition month_len :: "nat \<Rightarrow> nat \<Rightarrow> nat" where
  "month_len y m = (if m = 2 then (if leap y then 29 else 28)
     else if m = 4 \<or> m = 6 \<or> m = 9 \<or> m = 11 then 30 else 31)"

fun days_before_month :: "nat \<Rightarrow> nat \<Rightarrow> nat" where
  "days_before_month y 0 = 0"
| "days_before_month y (Suc m) = (if m = 0 then 0 else days_before_month y m + month_len y m)"

definition day_number :: "nat \<Rightarrow> nat \<Rightarrow> nat \<Rightarrow> nat" where
  "day_number y m d = days_before_year y + days_before_month y m + d - 1"

definition year_of :: "nat \<Rightarrow> nat" where
  "year_of n = last (filter (\<lambda>y. days_before_year y \<le> n) [n div 366 ..< Suc (n div 365)])"

definition month_of :: "nat \<Rightarrow> nat \<Rightarrow> nat" where
  "month_of y r = last (filter (\<lambda>m. days_before_month y m \<le> r) [1 ..< 13])"

definition civil :: "nat \<Rightarrow> nat \<times> nat \<times> nat" where
  "civil n = (let y = year_of n; r = n - days_before_year y; m = month_of y r
              in (y, m, r - days_before_month y m + 1))"

definition valid_date :: "nat \<Rightarrow> nat \<Rightarrow> nat \<Rightarrow> bool" where
  "valid_date y m d \<longleftrightarrow> 1 \<le> m \<and> m \<le> 12 \<and> 1 \<le> d \<and> d \<le> month_len y m"

lemma div_shift_Suc:
  "0 < n \<Longrightarrow> (y + n) div n = (y + (n - 1)) div n + (if y mod n = 0 then 1 else 0)" for y n :: nat
  using div_Suc [of "y + (n - 1)" n] by simp

lemma year_digits_le: "(y + 99) div 100 \<le> (y::nat)"
proof -
  have "(y + 99) div 100 * 100 \<le> y + 99" by simp
  then show ?thesis by linarith
qed

lemma mod_400_100_4:
  "y mod 400 = 0 \<Longrightarrow> y mod 100 = (0::nat)" "y mod 100 = 0 \<Longrightarrow> y mod 4 = (0::nat)"
  using mod_mod_cancel [of 100 400 y] mod_mod_cancel [of 4 100 y] by auto

lemma days_before_year_Suc: "days_before_year (Suc y) = days_before_year y + year_len y"
proof -
  define a b c where "a = (y + 3) div 4" "b = (y + 399) div 400" "c = (y + 99) div 100"
  define m4 m100 m400 where "m4 = (y mod 4 = 0)" "m100 = (y mod 100 = 0)" "m400 = (y mod 400 = 0)"
  have m: "m400 \<longrightarrow> m100" "m100 \<longrightarrow> m4" and c: "c \<le> y"
    using mod_400_100_4 [of y] year_digits_le [of y] unfolding m4_m100_m400_def a_b_c_def by blast+
  have s: "(Suc y + 3) div 4 = a + (if m4 then 1 else 0)" "(Suc y + 99) div 100 = c + (if m100 then 1 else 0)"
    "(Suc y + 399) div 400 = b + (if m400 then 1 else 0)"
    using div_shift_Suc [of 4 y] div_shift_Suc [of 100 y] div_shift_Suc [of 400 y]
    unfolding a_b_c_def m4_m100_m400_def by (simp_all add: add.commute)
  show ?thesis
    unfolding days_before_year_def year_len_def leap_def s a_b_c_def [symmetric] m4_m100_m400_def [symmetric]
    using m c by (cases m4; cases m100; cases m400) simp_all
qed

lemma days_before_year_mono: "y < z \<Longrightarrow> days_before_year y < days_before_year z"
  by (rule lift_Suc_mono_less [of days_before_year]) (auto simp: days_before_year_Suc year_len_def)

lemma days_before_year_bounds: "365 * y \<le> days_before_year y" "days_before_year y \<le> 366 * y"
proof -
  show "365 * y \<le> days_before_year y"
    by (induction y) (auto simp: days_before_year_def [of 0] days_before_year_Suc year_len_def)
  show "days_before_year y \<le> 366 * y"
    by (induction y) (auto simp: days_before_year_def [of 0] days_before_year_Suc year_len_def)
qed

text \<open>The last index of a range whose value is below a bound, for a strictly increasing sequence.\<close>

lemma last_filter_upt:
  assumes "\<And>i j. a \<le> i \<Longrightarrow> i < j \<Longrightarrow> j \<le> b \<Longrightarrow> f i < f j" "a \<le> y" "y < b" "f y \<le> n" "n < f (Suc y)"
  shows "last (filter (\<lambda>i. f i \<le> (n::nat)) [a..<b]) = y"
proof -
  have split: "[a..<b] = [a..<Suc y] @ [Suc y..<b]"
    using upt_add_eq_append [of a "Suc y" "b - Suc y"] assms(2,3) by simp
  have "f i \<le> n" if "i \<in> set [a..<Suc y]" for i
    using that assms(1) [of i y] assms(3,4) by (cases "i = y") auto
  then have "filter (\<lambda>i. f i \<le> n) [a..<Suc y] = [a..<Suc y]"
    by (simp add: filter_id_conv)
  moreover have "n < f i" if "i \<in> set [Suc y..<b]" for i
    using that assms(1) [of "Suc y" i] assms(2,5) by (cases "i = Suc y") auto
  then have "filter (\<lambda>i. f i \<le> n) [Suc y..<b] = []"
    by (simp add: filter_empty_conv not_le)
  ultimately show ?thesis
    using assms(2) by (simp only: split filter_append) simp
qed

lemma year_of_eq:
  assumes "r < year_len y"
  shows "year_of (days_before_year y + r) = y"
  unfolding year_of_def
proof (rule last_filter_upt)
  let ?n = "days_before_year y + r"
  have "?n < 366 * Suc y"
    using assms days_before_year_bounds(2) [of "Suc y"] by (simp add: days_before_year_Suc)
  then show "?n div 366 \<le> y" by (simp add: less_mult_imp_div_less mult.commute Suc_leI less_Suc_eq_le [symmetric])
  have "365 * y \<le> ?n"
    using days_before_year_bounds(1) [of y] by simp
  then have "y \<le> ?n div 365" by (simp add: less_eq_div_iff_mult_less_eq mult.commute)
  then show "y < Suc (?n div 365)" by simp
qed (use assms in \<open>auto simp: days_before_year_mono days_before_year_Suc\<close>)

lemma days_before_month_mono:
  "1 \<le> i \<Longrightarrow> i < j \<Longrightarrow> days_before_month y i < days_before_month y j"
proof (induction j)
  case (Suc j)
  then show ?case
    by (cases "i = j") (auto simp: month_len_def)
qed simp

lemma month_of_eq:
  assumes "1 \<le> m" "m \<le> 12" "d < month_len y m"
  shows "month_of y (days_before_month y m + d) = m"
  unfolding month_of_def
  by (rule last_filter_upt) (use assms in \<open>auto intro: days_before_month_mono\<close>)

lemma days_before_month_numeral:
  "days_before_month y (numeral v) =
     (if pred_numeral v = 0 then 0 else days_before_month y (pred_numeral v) + month_len y (pred_numeral v))"
  by (simp add: numeral_eq_Suc)

lemma month_days_le_year: "1 \<le> m \<Longrightarrow> m \<le> 12 \<Longrightarrow> days_before_month y m + month_len y m \<le> year_len y"
proof -
  assume "1 \<le> m" "m \<le> 12"
  then have "days_before_month y (Suc m) \<le> days_before_month y 13"
    using days_before_month_mono [of "Suc m" 13 y] by (cases "m = 12") auto
  also have "days_before_month y 13 = year_len y"
    by (simp add: days_before_month_numeral month_len_def year_len_def)
  finally show ?thesis
    using \<open>1 \<le> m\<close> by simp
qed

lemma civil_day_number: "valid_date y m d \<Longrightarrow> civil (day_number y m d) = (y, m, d)"
proof -
  assume v: "valid_date y m d"
  define r where "r = days_before_month y m + (d - 1)"
  have n: "day_number y m d = days_before_year y + r"
    using v by (simp add: day_number_def r_def valid_date_def)
  have "r < year_len y"
    using v month_days_le_year [of m y] by (auto simp: valid_date_def r_def)
  then have "year_of (day_number y m d) = y"
    by (simp add: n year_of_eq)
  moreover have "month_of y r = m"
    using v unfolding r_def by (intro month_of_eq) (auto simp: valid_date_def)
  ultimately show ?thesis
    using v by (simp add: civil_def n Let_def) (simp add: r_def valid_date_def)
qed

lemma year_exists: "\<exists>y r. n = days_before_year y + r \<and> r < year_len y"
proof (induction n)
  case 0
  show ?case
    by (rule exI [of _ 0], rule exI [of _ 0]) (simp add: days_before_year_def year_len_def)
next
  case (Suc n)
  then obtain y r where yr: "n = days_before_year y + r" "r < year_len y" by blast
  show ?case
  proof (cases "Suc r < year_len y")
    case True
    then show ?thesis using yr by (intro exI [of _ y] exI [of _ "Suc r"]) simp
  next
    case False
    then have "Suc n = days_before_year (Suc y) + 0"
      using yr by (simp add: days_before_year_Suc)
    then show ?thesis
      by (intro exI [of _ "Suc y"] exI [of _ 0]) (simp add: year_len_def)
  qed
qed

lemma month_exists:
  "r < days_before_month y (Suc k) \<Longrightarrow> k \<le> 12 \<Longrightarrow>
     \<exists>m e. r = days_before_month y m + e \<and> e < month_len y m \<and> 1 \<le> m \<and> m \<le> k"
proof (induction k)
  case (Suc k)
  show ?case
  proof (cases "r < days_before_month y (Suc k)")
    case True
    then show ?thesis using Suc by fastforce
  next
    case False
    then have "r = days_before_month y (Suc k) + (r - days_before_month y (Suc k))"
      "r - days_before_month y (Suc k) < month_len y (Suc k)"
      using Suc.prems by (auto split: if_splits)
    then show ?thesis
      by (metis le_add1 le_refl plus_1_eq_Suc)
  qed
qed simp

lemma date_exists: "\<exists>y m d. valid_date y m d \<and> n = day_number y m d"
proof -
  obtain y r where n: "n = days_before_year y + r" "r < year_len y"
    using year_exists by blast
  moreover have "days_before_month y (Suc 12) = year_len y"
    by (simp add: days_before_month_numeral month_len_def year_len_def)
  ultimately obtain m e where "r = days_before_month y m + e" "e < month_len y m" "1 \<le> m" "m \<le> 12"
    using month_exists [of r y 12] by auto
  then have "valid_date y m (Suc e)" "n = day_number y m (Suc e)"
    using n by (auto simp: valid_date_def day_number_def)
  then show ?thesis by blast
qed

lemma civil_correct: "civil n = (y, m, d) \<Longrightarrow> valid_date y m d \<and> day_number y m d = n"
  using date_exists [of n] civil_day_number by auto

section \<open>RFC 3339\<close>

definition pad :: "nat \<Rightarrow> nat \<Rightarrow> string" where
  "pad w n = replicate (w - length (string_of_nat n)) (CHR ''0'') @ string_of_nat n"

definition rstrip0 :: "string \<Rightarrow> string" where
  "rstrip0 s = rev (dropWhile (\<lambda>c. c = CHR ''0'') (rev s))"

text \<open>Days and nanoseconds are counted from the start of year 0.\<close>

definition epoch_ns :: int where
  "epoch_ns = 719528 * 86400 * 1000000000"

definition zero_time :: int where
  "zero_time = - 62135596800 * 1000000000"

definition fmt_time :: "int \<Rightarrow> string option" where
  "fmt_time t =
     (let n = nat (t + epoch_ns); ns = n mod 1000000000; s = n div 1000000000;
          sec = s mod 60; mi = s div 60 mod 60; h = s div 3600 mod 24;
          (y, m, d) = civil (s div 86400)
      in if t + epoch_ns < 0 \<or> 9999 < y then None
         else Some (pad 4 y @ ''-'' @ pad 2 m @ ''-'' @ pad 2 d @ ''T'' @ pad 2 h @ '':'' @ pad 2 mi @ '':'' @
                    pad 2 sec @ (if ns = 0 then [] else ''.'' @ rstrip0 (pad 9 ns)) @ ''Z''))"

definition p_digits :: "nat \<Rightarrow> string \<Rightarrow> (nat \<times> string) option" where
  "p_digits w s = (if w \<le> length s \<and> list_all is_digit (take w s)
     then map_option (\<lambda>n. (n, drop w s)) (parse_nat (take w s)) else None)"

definition p_char :: "char \<Rightarrow> string \<Rightarrow> string option" where
  "p_char c s = (case s of x # xs \<Rightarrow> if x = c then Some xs else None | [] \<Rightarrow> None)"

definition p_frac :: "string \<Rightarrow> (nat \<times> string) option" where
  "p_frac s = (case s of
      c # r \<Rightarrow>
        if c = CHR ''.'' then
          (let ds = takeWhile is_digit r
           in if ds = [] then None
              else map_option (\<lambda>n. (n, dropWhile is_digit r)) (parse_nat (take 9 (ds @ replicate 9 (CHR ''0'')))))
        else Some (0, s)
    | [] \<Rightarrow> Some (0, s))"

definition p_zone :: "string \<Rightarrow> int option" where
  "p_zone s =
     (if s = ''Z'' then Some 0
      else case s of
        c # r \<Rightarrow>
          if c = CHR ''+'' \<or> c = CHR ''-'' then do {
            (h, r) \<leftarrow> p_digits 2 r; r \<leftarrow> p_char (CHR '':'') r; (mi, r) \<leftarrow> p_digits 2 r;
            if r = [] \<and> h < 24 \<and> mi < 60
            then Some ((if c = CHR ''-'' then -1 else 1) * int (h * 3600 + mi * 60)) else None
          } else None
      | [] \<Rightarrow> None)"

definition parse_time :: "string \<Rightarrow> int option" where
  "parse_time s = do {
     (y, s) \<leftarrow> p_digits 4 s; s \<leftarrow> p_char (CHR ''-'') s;
     (m, s) \<leftarrow> p_digits 2 s; s \<leftarrow> p_char (CHR ''-'') s;
     (d, s) \<leftarrow> p_digits 2 s; s \<leftarrow> p_char (CHR ''T'') s;
     (h, s) \<leftarrow> p_digits 2 s; s \<leftarrow> p_char (CHR '':'') s;
     (mi, s) \<leftarrow> p_digits 2 s; s \<leftarrow> p_char (CHR '':'') s;
     (sec, s) \<leftarrow> p_digits 2 s; (ns, s) \<leftarrow> p_frac s; off \<leftarrow> p_zone s;
     if valid_date y m d \<and> h < 24 \<and> mi < 60 \<and> sec < 60
     then Some ((int (((day_number y m d * 24 + h) * 60 + mi) * 60 + sec) - off) * 1000000000 + int ns - epoch_ns)
     else None
   }"

section \<open>Round trip\<close>

lemma string_of_nat_length: "n < 10 ^ w \<Longrightarrow> 0 < w \<Longrightarrow> length (string_of_nat n) \<le> w"
proof (induction n arbitrary: w rule: string_of_nat.induct)
  case (1 n)
  show ?case
  proof (cases "n < 10")
    case True
    then show ?thesis using 1 by (subst string_of_nat.simps) simp
  next
    case False
    then obtain v where w: "w = Suc v" "0 < v"
      using 1(2,3) by (cases w; cases "w = 1") auto
    have "n div 10 < 10 ^ v"
      using 1 w by (simp add: less_mult_imp_div_less mult.commute)
    then have "length (string_of_nat (n div 10)) \<le> v"
      using 1 False w by simp
    then show ?thesis
      using False w by (subst string_of_nat.simps) simp
  qed
qed

lemma length_pad: "n < 10 ^ w \<Longrightarrow> 0 < w \<Longrightarrow> length (pad w n) = w"
  using string_of_nat_length by (simp add: pad_def)

lemma pad_digits: "list_all is_digit (pad w n)"
  by (simp add: pad_def string_of_nat_digits) (simp add: list_all_iff is_digit_def)

lemma parse_digits_zeros: "parse_digits 0 (replicate k (CHR ''0'') @ s) = parse_digits 0 s"
  by (induction k) (simp_all add: digit_val_def)

lemma parse_pad: "parse_nat (pad w n) = Some n"
  by (simp add: parse_nat_def pad_def parse_digits_zeros parse_string_of_nat)

lemma p_digits_pad: "n < 10 ^ w \<Longrightarrow> 0 < w \<Longrightarrow> p_digits w (pad w n @ r) = Some (n, r)"
  by (simp add: p_digits_def length_pad pad_digits parse_pad)

lemma rstrip0_restore: "\<exists>k. s = rstrip0 s @ replicate k (CHR ''0'')"
proof -
  let ?z = "\<lambda>c. c = CHR ''0''"
  have "takeWhile ?z (rev s) = replicate (length (takeWhile ?z (rev s))) (CHR ''0'')"
    by (rule replicate_length_same [symmetric]) (auto dest: set_takeWhileD)
  then have "rev s = replicate (length (takeWhile ?z (rev s))) (CHR ''0'') @ dropWhile ?z (rev s)"
    using takeWhile_dropWhile_id [of ?z "rev s"] by simp
  then have "s = rstrip0 s @ replicate (length (takeWhile ?z (rev s))) (CHR ''0'')"
    unfolding rstrip0_def by (metis rev_append rev_replicate rev_rev_ident)
  then show ?thesis ..
qed

lemma rstrip0_refill:
  assumes "length s = w"
  shows "take w (rstrip0 s @ replicate w (CHR ''0'')) = s"
proof -
  obtain k where k: "s = rstrip0 s @ replicate k (CHR ''0'')"
    using rstrip0_restore by blast
  then have "length (rstrip0 s) + k = w"
    using assms by (metis length_append length_replicate)
  then have "take w (rstrip0 s @ replicate w (CHR ''0'')) = rstrip0 s @ replicate k (CHR ''0'')"
    by (auto simp: min_def)
  then show ?thesis using k by simp
qed

lemma is_digit_Z: "\<not> is_digit (CHR ''Z'')"
  by (simp add: is_digit_def)

lemma rstrip0_digits: "list_all is_digit s \<Longrightarrow> list_all is_digit (rstrip0 s)"
  by (auto simp: rstrip0_def list_all_iff dest: set_dropWhileD)

lemma p_frac_print:
  assumes "ns < 1000000000"
  shows "p_frac ((if ns = 0 then [] else ''.'' @ rstrip0 (pad 9 ns)) @ ''Z'') = Some (ns, ''Z'')"
proof (cases "ns = 0")
  case False
  let ?f = "rstrip0 (pad 9 ns)"
  have d: "list_all is_digit ?f"
    by (simp add: rstrip0_digits pad_digits)
  have l: "length (pad 9 ns) = 9"
    using assms by (simp add: length_pad)
  have r: "take 9 (?f @ replicate 9 (CHR ''0'')) = pad 9 ns"
    by (rule rstrip0_refill [OF l])
  have "?f \<noteq> []"
  proof
    assume "?f = []"
    then have "pad 9 ns = replicate 9 (CHR ''0'')"
      using r by simp
    then have "parse_nat (pad 9 ns) = Some 0"
      using parse_digits_zeros [of 9 "[]"] by (simp add: parse_nat_def)
    then show False using False by (simp add: parse_pad)
  qed
  then show ?thesis
    using False d r is_digit_Z parse_pad [of 9 ns]
    by (simp add: p_frac_def Let_def takeWhile_all_self list_all_iff)
qed (simp add: p_frac_def)

lemma p_char_Cons [simp]: "p_char c (c # r) = Some r"
  by (simp add: p_char_def)

lemma day_time_split:
  fixes s :: nat
  shows "((s div 86400 * 24 + s div 3600 mod 24) * 60 + s div 60 mod 60) * 60 + s mod 60 = s"
proof -
  have a: "s div 3600 = s div 60 div 60" "s div 86400 = s div 60 div 60 div 24"
    by (simp_all add: div_mult2_eq [symmetric])
  show ?thesis
    unfolding a by (simp add: mult.commute)
qed

lemma parse_fmt_time: "fmt_time t = Some s \<Longrightarrow> parse_time s = Some t"
proof -
  assume f: "fmt_time t = Some s"
  define n where "n = nat (t + epoch_ns)"
  define ns where "ns = n mod 1000000000"
  define q where "q = n div 1000000000"
  obtain y m d where c: "civil (q div 86400) = (y, m, d)"
    by (cases "civil (q div 86400)") auto
  have t: "0 \<le> t + epoch_ns" "y \<le> 9999" and
    s: "s = pad 4 y @ ''-'' @ pad 2 m @ ''-'' @ pad 2 d @ ''T'' @ pad 2 (q div 3600 mod 24) @ '':'' @
        pad 2 (q div 60 mod 60) @ '':'' @ pad 2 (q mod 60) @
        (if ns = 0 then [] else ''.'' @ rstrip0 (pad 9 ns)) @ ''Z''"
    using f c unfolding fmt_time_def n_def [symmetric] Let_def ns_def [symmetric] q_def [symmetric]
    by (auto split: if_splits)
  have v: "valid_date y m d" and dn: "day_number y m d = q div 86400"
    using civil_correct [OF c] by auto
  have b: "m < 100" "d < 100"
    using v by (auto simp: valid_date_def month_len_def split: if_splits)
  have ns: "ns < 1000000000" by (simp add: ns_def)
  have total: "int q * 1000000000 + int ns = t + epoch_ns"
  proof -
    have "n = q * 1000000000 + ns"
      by (simp add: q_def ns_def)
    then have "int n = int q * 1000000000 + int ns"
      by simp
    then show ?thesis
      using t(1) by (simp add: n_def)
  qed
  have "parse_time s = Some ((int (((q div 86400 * 24 + q div 3600 mod 24) * 60 + q div 60 mod 60) * 60 + q mod 60))
      * 1000000000 + int ns - epoch_ns)"
    unfolding s using t(2) b v
    by (simp add: parse_time_def p_digits_pad p_frac_print [OF ns, simplified] p_zone_def dn)
  then show ?thesis
    using total by (simp only: day_time_split) simp
qed

lemma fmt_time_defined:
  assumes "0 \<le> t + epoch_ns" "t + epoch_ns < 10000 * 365 * 86400 * 1000000000"
  shows "\<exists>s. fmt_time t = Some s"
proof -
  define n where "n = nat (t + epoch_ns)"
  obtain y m d where c: "civil (n div 1000000000 div 86400) = (y, m, d)"
    by (cases "civil (n div 1000000000 div 86400)") auto
  have "n < 10000 * 365 * 86400 * 1000000000"
    using assms by (simp add: n_def nat_less_iff)
  then have "n div 1000000000 div 86400 < 10000 * 365"
    by (simp add: less_mult_imp_div_less)
  moreover have "365 * y \<le> n div 1000000000 div 86400"
    using civil_correct [OF c] by (auto simp: day_number_def days_before_year_def valid_date_def)
  ultimately have "y \<le> 9999" by linarith
  then show ?thesis
    using assms c by (simp add: fmt_time_def n_def Let_def)
qed

lemma fmt_time_clock: "0 \<le> t \<Longrightarrow> t < 2 ^ 63 \<Longrightarrow> \<exists>s. fmt_time t = Some s"
  by (rule fmt_time_defined) (simp_all add: epoch_ns_def)

end
