(* ===== verification/Errors.thy ===== *)
theory Errors
  imports Timestamp
begin

text \<open>
  Go errors: the error types of \<^verbatim>\<open>errors.go\<close>, \<^verbatim>\<open>iterable.go\<close> and \<^verbatim>\<open>ratelimit/limiter.go\<close>, the
  errors of the Redis client, and errors made with \<^verbatim>\<open>fmt.Errorf\<close> and \<^verbatim>\<open>errors.Join\<close>.

  A failed request carries the text the client library gave it.  \<open>Wrap s e\<close> is
  \<^verbatim>\<open>fmt.Errorf("s: %w", e)\<close>, \<open>Noted e s\<close> is \<^verbatim>\<open>fmt.Errorf("%w: s", e)\<close>.  An error that points to a job keeps what its text reads of the job.
  \<open>Error\<close> is the text of an error, with durations printed as \<^verbatim>\<open>time.Duration.String\<close> does.
\<close>

datatype goerr =
    RedisNil
  | RedisErr string
  | NetErr string
  | CtxErr
  | Plain string
  | Wrap string goerr
  | Noted goerr string
  | Joined goerr goerr
  | RetryableError string goerr int
  | MaxRetriesExceededError string int goerr
  | JobNotFoundError string
  | QueuePausedError string
  | DuplicateJobError string
  | BatchNotFoundError string
  | BulkPartialError int int goerr
  | OverLimitError string string int int int
  | SkipItemError string
  | StopIterationError string
  | InterruptedError

section \<open>Searching an error\<close>

text \<open>\<^verbatim>\<open>errors.Is\<close> and \<^verbatim>\<open>errors.As\<close> look at an error and then at the errors it wraps, in order.\<close>

fun find_error :: "(goerr \<Rightarrow> 'a option) \<Rightarrow> goerr \<Rightarrow> 'a option" where
  "find_error f e = (case f e of
      Some x \<Rightarrow> Some x
    | None \<Rightarrow>
        (case e of
           Wrap _ c \<Rightarrow> find_error f c
         | Noted c _ \<Rightarrow> find_error f c
         | Joined a b \<Rightarrow> (case find_error f a of Some x \<Rightarrow> Some x | None \<Rightarrow> find_error f b)
         | RetryableError _ c _ \<Rightarrow> find_error f c
         | MaxRetriesExceededError _ _ c \<Rightarrow> find_error f c
         | BulkPartialError _ _ c \<Rightarrow> find_error f c
         | _ \<Rightarrow> None))"

declare find_error.simps [simp del]

definition is_nil :: "goerr \<Rightarrow> bool" where
  "is_nil e \<longleftrightarrow> find_error (\<lambda>e. if e = RedisNil then Some () else None) e \<noteq> None"

definition as_retryable :: "goerr \<Rightarrow> int option" where
  "as_retryable = find_error (\<lambda>e. case e of RetryableError _ _ d \<Rightarrow> Some d | _ \<Rightarrow> None)"

definition as_max_retries :: "goerr \<Rightarrow> goerr option" where
  "as_max_retries = find_error (\<lambda>e. case e of MaxRetriesExceededError _ _ _ \<Rightarrow> Some e | _ \<Rightarrow> None)"

definition is_interrupted :: "goerr \<Rightarrow> bool" where
  "is_interrupted e \<longleftrightarrow> find_error (\<lambda>e. if e = InterruptedError then Some () else None) e \<noteq> None"

definition is_skip :: "goerr \<Rightarrow> bool" where
  "is_skip e \<longleftrightarrow> find_error (\<lambda>e. case e of SkipItemError _ \<Rightarrow> Some () | _ \<Rightarrow> None) e \<noteq> None"

definition is_stop :: "goerr \<Rightarrow> bool" where
  "is_stop e \<longleftrightarrow> find_error (\<lambda>e. case e of StopIterationError _ \<Rightarrow> Some () | _ \<Rightarrow> None) e \<noteq> None"

section \<open>Texts\<close>

definition frac_text :: "nat \<Rightarrow> nat \<Rightarrow> string" where
  "frac_text prec v = (let ds = rstrip0 (pad prec v) in if ds = [] then [] else ''.'' @ ds)"

definition duration_text :: "int \<Rightarrow> string" where
  "duration_text d =
     (let u = nat \<bar>d\<bar>;
          unit = (\<lambda>prec name. string_of_nat (u div 10 ^ prec) @ frac_text prec (u mod 10 ^ prec) @ name);
          secs = u div 10 ^ 9;
          mins = secs div 60;
          hours = mins div 60;
          body = (if u = 0 then ''0s''
            else if u < 10 ^ 3 then unit 0 ''ns''
            else if u < 10 ^ 6 then unit 3 [CHR 0xC2, CHR 0xB5, CHR ''s'']
            else if u < 10 ^ 9 then unit 6 ''ms''
            else (if 0 < hours then string_of_nat hours @ ''h'' else []) @
                 (if 0 < mins then string_of_nat (mins mod 60) @ ''m'' else []) @
                 string_of_nat (secs mod 60) @ frac_text 9 (u mod 10 ^ 9) @ ''s'')
      in (if d < 0 then ''-'' else []) @ body)"

fun Error :: "goerr \<Rightarrow> string" where
  "Error RedisNil = ''redis: nil''"
| "Error (RedisErr s) = s"
| "Error (NetErr s) = s"
| "Error CtxErr = ''context canceled''"
| "Error (Plain s) = s"
| "Error (Wrap s e) = s @ '': '' @ Error e"
| "Error (Noted e s) = Error e @ '': '' @ s"
| "Error (Joined a b) = Error a @ [CHR 0x0A] @ Error b"
| "Error (RetryableError jid e d) =
     ''retryable error for job '' @ jid @ '': '' @ Error e @ '' (retry in '' @ duration_text d @ '')''"
| "Error (MaxRetriesExceededError jid n e) =
     ''max retries exceeded for job '' @ jid @ '' after '' @ string_of_int n @ '' attempts: '' @ Error e"
| "Error (JobNotFoundError jid) = ''job not found: '' @ jid"
| "Error (QueuePausedError q) = ''queue is paused: '' @ q"
| "Error (DuplicateJobError u) = ''duplicate job with unique key: '' @ u"
| "Error (BatchNotFoundError b) = ''batch not found: '' @ b"
| "Error (BulkPartialError n m e) =
     ''bulk enqueue partially completed: enqueued '' @ string_of_int n @ '' of '' @ string_of_int m @ '' jobs: '' @ Error e"
| "Error (OverLimitError name ty limit current d) =
     ''rate limit exceeded for '' @ name @ '' ('' @ ty @ ''): '' @ string_of_int current @ ''/'' @ string_of_int limit @
     (if d > 0 then '', retry in '' @ duration_text d else [])"
| "Error (SkipItemError r) = ''skipping item: '' @ r"
| "Error (StopIterationError r) = ''stopping iteration: '' @ r"
| "Error InterruptedError = ''job interrupted''"

end
