(* ===== verification/GoProg.thy ===== *)
theory GoProg
  imports Redis Errors
begin

text \<open>
  Go code that talks to Redis, as trees of the requests it makes.

  \<^item> \<open>go\<close> has a node per effect of the repository's Go code: running a script, a single command,
    a \<^verbatim>\<open>SCAN\<close> page, the wall clock, a fresh UUID, a random number, a timer raced against the
    context, a context check, an atomic action on state shared by goroutines, and a wait for such
    an action to become possible raced against the context.
  \<^item> \<open>run_go\<close> runs a tree against a server in an environment \<open>env\<close> that fixes what is outside
    the program: per request a \<open>fault\<close>, and the answers of clock, timers and generators.
    A fault says how often the request reached the server (zero times when it was lost, twice when
    the client library resent it), whether an answer came back, and the text of the error if not.
  \<^item> \<open>pool_step\<close> interleaves any number of such programs; \<open>pool_invariant\<close> reduces a property of
    every reachable state to one check per request (\<open>go_all\<close>).
\<close>

section \<open>Programs\<close>

type_synonym answer = "goerr + rreply"

datatype ('l, 'a) go =
    Done 'a
  | Eval lua "answer \<Rightarrow> ('l, 'a) go"
  | Cmd rcmd "answer \<Rightarrow> ('l, 'a) go"
  | Scan string "goerr + string list \<times> bool \<Rightarrow> ('l, 'a) go"
  | Now "int \<Rightarrow> ('l, 'a) go"
  | Uuid "string \<Rightarrow> ('l, 'a) go"
  | Rand nat "nat \<Rightarrow> ('l, 'a) go"
  | Wait int "bool \<Rightarrow> ('l, 'a) go"
  | CtxDone "bool \<Rightarrow> ('l, 'a) go"
  | Local "'l \<Rightarrow> 'l" "'l \<Rightarrow> ('l, 'a) go"
  | Await "'l \<Rightarrow> bool" "'l \<Rightarrow> 'l" "bool \<Rightarrow> ('l, 'a) go"

primrec go_bind :: "('l, 'a) go \<Rightarrow> ('a \<Rightarrow> ('l, 'b) go) \<Rightarrow> ('l, 'b) go" where
  "go_bind (Done x) f = f x"
| "go_bind (Eval p k) f = Eval p (\<lambda>r. go_bind (k r) f)"
| "go_bind (Cmd c k) f = Cmd c (\<lambda>r. go_bind (k r) f)"
| "go_bind (Scan p k) f = Scan p (\<lambda>r. go_bind (k r) f)"
| "go_bind (Now k) f = Now (\<lambda>r. go_bind (k r) f)"
| "go_bind (Uuid k) f = Uuid (\<lambda>r. go_bind (k r) f)"
| "go_bind (Rand n k) f = Rand n (\<lambda>r. go_bind (k r) f)"
| "go_bind (Wait d k) f = Wait d (\<lambda>r. go_bind (k r) f)"
| "go_bind (CtxDone k) f = CtxDone (\<lambda>r. go_bind (k r) f)"
| "go_bind (Local u k) f = Local u (\<lambda>r. go_bind (k r) f)"
| "go_bind (Await b u k) f = Await b u (\<lambda>r. go_bind (k r) f)"

text \<open>The client library reports an error reply and a nil reply as errors.\<close>

definition go_reply :: "rreply \<Rightarrow> answer" where
  "go_reply r = (case r of RErr e \<Rightarrow> Inl (RedisErr e) | RNil \<Rightarrow> Inl RedisNil | _ \<Rightarrow> Inr r)"

definition go_result :: "string + rreply \<Rightarrow> answer" where
  "go_result r = (case r of Inl e \<Rightarrow> Inl (RedisErr e) | Inr r \<Rightarrow> go_reply r)"

text \<open>A pipeline: every command is sent, and the first error is the result.\<close>

primrec pipeline_from :: "goerr option \<Rightarrow> rcmd list \<Rightarrow> ('l, goerr option) go" where
  "pipeline_from err [] = Done err"
| "pipeline_from err (c # cs) = Cmd c (\<lambda>r. pipeline_from
     (case (err, r) of (None, Inl e) \<Rightarrow> Some e | _ \<Rightarrow> err) cs)"

definition pipeline :: "rcmd list \<Rightarrow> ('l, goerr option) go" where
  "pipeline = pipeline_from None"

section \<open>Environments\<close>

record fault =
  reached :: nat
  answered :: bool
  cause :: string

definition deliver :: fault where
  "deliver = \<lparr>reached = 1, answered = True, cause = []\<rparr>"

record env =
  faults :: "fault list"
  pages :: "(string list \<times> bool) list"
  nows :: "int list"
  uuids :: "string list"
  rands :: "nat list"
  waits :: "bool list"
  ctxs :: "bool list"

text \<open>Exhausted answers: requests are delivered, timers lose against a cancelled context.\<close>

definition quiet :: env where
  "quiet = \<lparr>faults = [], pages = [], nows = [], uuids = [], rands = [], waits = [], ctxs = []\<rparr>"

definition head_or :: "'a \<Rightarrow> 'a list \<Rightarrow> 'a" where
  "head_or x xs = (case xs of [] \<Rightarrow> x | y # _ \<Rightarrow> y)"

primrec times_run :: "('s \<Rightarrow> 'r \<times> 's) \<Rightarrow> nat \<Rightarrow> 's \<Rightarrow> 'r option \<times> 's" where
  "times_run f 0 = (\<lambda>s. (None, s))"
| "times_run f (Suc n) = (\<lambda>s. case f (snd (times_run f n s)) of (r, s') \<Rightarrow> (Some r, s'))"

definition request :: "('s \<Rightarrow> 'r \<times> 's) \<Rightarrow> ('r \<Rightarrow> answer) \<Rightarrow> fault \<Rightarrow> 's \<Rightarrow> answer \<times> 's" where
  "request f conv ft s =
     (case times_run f (reached ft) s of
        (Some r, s') \<Rightarrow> (if answered ft then conv r else Inl (NetErr (cause ft)), s')
      | (None, s') \<Rightarrow> (Inl (NetErr (cause ft)), s'))"

primrec run_go :: "(rcmd \<Rightarrow> 's \<Rightarrow> rreply \<times> 's) \<Rightarrow> ('l, 'a) go \<Rightarrow> env \<Rightarrow> 'l \<Rightarrow> 's \<Rightarrow> 'a \<times> env \<times> 'l \<times> 's" where
  "run_go call (Done x) = (\<lambda>w l s. (x, w, l, s))"
| "run_go call (Eval p k) = (\<lambda>w l s.
     case request (run_lua call p) go_result (head_or deliver (faults w)) s of
       (r, s') \<Rightarrow> run_go call (k r) (w\<lparr>faults := tl (faults w)\<rparr>) l s')"
| "run_go call (Cmd c k) = (\<lambda>w l s.
     case request (call c) go_reply (head_or deliver (faults w)) s of
       (r, s') \<Rightarrow> run_go call (k r) (w\<lparr>faults := tl (faults w)\<rparr>) l s')"
| "run_go call (Scan p k) = (\<lambda>w l s.
     let ft = head_or deliver (faults w)
     in if 0 < reached ft \<and> answered ft
        then run_go call (k (Inr (map_prod (filter (glob p)) id (head_or ([], False) (pages w)))))
               (w\<lparr>faults := tl (faults w), pages := tl (pages w)\<rparr>) l s
        else run_go call (k (Inl (NetErr (cause ft)))) (w\<lparr>faults := tl (faults w)\<rparr>) l s)"
| "run_go call (Now k) = (\<lambda>w l s. run_go call (k (head_or 0 (nows w))) (w\<lparr>nows := tl (nows w)\<rparr>) l s)"
| "run_go call (Uuid k) = (\<lambda>w l s. run_go call (k (head_or [] (uuids w))) (w\<lparr>uuids := tl (uuids w)\<rparr>) l s)"
| "run_go call (Rand n k) = (\<lambda>w l s.
     run_go call (k (head_or 0 (rands w) mod n)) (w\<lparr>rands := tl (rands w)\<rparr>) l s)"
| "run_go call (Wait d k) = (\<lambda>w l s. run_go call (k (head_or False (waits w))) (w\<lparr>waits := tl (waits w)\<rparr>) l s)"
| "run_go call (CtxDone k) = (\<lambda>w l s. run_go call (k (head_or False (ctxs w))) (w\<lparr>ctxs := tl (ctxs w)\<rparr>) l s)"
| "run_go call (Local u k) = (\<lambda>w l s. run_go call (k l) w (u l) s)"
| "run_go call (Await b u k) = (\<lambda>w l s. if b l then run_go call (k True) w (u l) s else run_go call (k False) w l s)"

lemma run_go_bind:
  "run_go call (go_bind p f) w l s = (case run_go call p w l s of (x, w', l', s') \<Rightarrow> run_go call (f x) w' l' s')"
  by (induction p arbitrary: w l s) (simp_all add: Let_def split: prod.splits)

lemma go_bind_assoc: "go_bind (go_bind p f) g = go_bind p (\<lambda>x. go_bind (f x) g)"
  by (induction p) simp_all

lemma go_bind_Done [simp]: "go_bind p Done = p"
  by (induction p) simp_all

lemma request_deliver [simp]: "request f conv deliver s = (case f s of (r, s') \<Rightarrow> (conv r, s'))"
  by (simp add: request_def deliver_def split: prod.splits)

lemma head_or_simps [simp]: "head_or x [] = x" "head_or x (y # ys) = y"
  by (simp_all add: head_or_def)

section \<open>Requests a program can make\<close>

text \<open>A page of a scan holds only keys that match the pattern.\<close>

definition scan_ok :: "string \<Rightarrow> goerr + string list \<times> bool \<Rightarrow> bool" where
  "scan_ok p r \<longleftrightarrow> (case r of Inl _ \<Rightarrow> True | Inr pg \<Rightarrow> list_all (glob p) (fst pg))"

text \<open>
  What a single command can answer: an error of the server or of the connection, and from a clock
  that does not show a time before 1970.
\<close>

definition redis_error :: "goerr \<Rightarrow> bool" where
  "redis_error e \<longleftrightarrow> (case e of RedisErr _ \<Rightarrow> True | RedisNil \<Rightarrow> True | NetErr _ \<Rightarrow> True | _ \<Rightarrow> False)"

definition ans_ok :: "rcmd \<Rightarrow> answer \<Rightarrow> bool" where
  "ans_ok c r \<longleftrightarrow> (\<forall>e. r = Inl e \<longrightarrow> redis_error e) \<and> (\<forall>s u. c = cTIME \<longrightarrow> r = Inr (RArr [RBulk s, RBulk u]) \<longrightarrow>
     (\<forall>i. parse_int s = Some i \<longrightarrow> 0 \<le> i) \<and> (\<forall>i. parse_int u = Some i \<longrightarrow> 0 \<le> i))"

lemma ans_ok_Inl [simp]: "ans_ok c (Inl e) \<longleftrightarrow> redis_error e"
  by (simp add: ans_ok_def)

lemma redis_error_simps [simp]: "redis_error (NetErr s)" "redis_error (RedisErr s)" "redis_error RedisNil"
  by (simp_all add: redis_error_def)

lemma ans_ok_reply: "c \<noteq> cTIME \<Longrightarrow> ans_ok c (go_reply r)"
  by (cases r) (auto simp: ans_ok_def go_reply_def)

primrec go_all :: "(lua \<Rightarrow> bool) \<Rightarrow> (rcmd \<Rightarrow> bool) \<Rightarrow> ('l, 'a) go \<Rightarrow> bool" where
  "go_all P Q (Done x) = True"
| "go_all P Q (Eval p k) = (P p \<and> (\<forall>r. go_all P Q (k r)))"
| "go_all P Q (Cmd c k) = (Q c \<and> (\<forall>r. ans_ok c r \<longrightarrow> go_all P Q (k r)))"
| "go_all P Q (Scan p k) = (\<forall>r. scan_ok p r \<longrightarrow> go_all P Q (k r))"
| "go_all P Q (Now k) = (\<forall>r. go_all P Q (k r))"
| "go_all P Q (Uuid k) = (\<forall>r. go_all P Q (k r))"
| "go_all P Q (Rand n k) = (\<forall>r. n = 0 \<or> r < n \<longrightarrow> go_all P Q (k r))"
| "go_all P Q (Wait d k) = (\<forall>r. go_all P Q (k r))"
| "go_all P Q (CtxDone k) = (\<forall>r. go_all P Q (k r))"
| "go_all P Q (Local u k) = (\<forall>r. go_all P Q (k r))"
| "go_all P Q (Await b u k) = (\<forall>r. go_all P Q (k r))"

lemma go_all_bind: "go_all P Q p \<Longrightarrow> (\<And>x. go_all P Q (f x)) \<Longrightarrow> go_all P Q (go_bind p f)"
  by (induction p) simp_all

lemma go_all_mono:
  "go_all P Q p \<Longrightarrow> (\<And>x. P x \<Longrightarrow> P' x) \<Longrightarrow> (\<And>c. Q c \<Longrightarrow> Q' c) \<Longrightarrow> go_all P' Q' p"
  by (induction p) simp_all

text \<open>With a postcondition on the result.\<close>

primrec go_post :: "(lua \<Rightarrow> bool) \<Rightarrow> (rcmd \<Rightarrow> bool) \<Rightarrow> ('a \<Rightarrow> bool) \<Rightarrow> ('l, 'a) go \<Rightarrow> bool" where
  "go_post P Q R (Done x) = R x"
| "go_post P Q R (Eval p k) = (P p \<and> (\<forall>r. go_post P Q R (k r)))"
| "go_post P Q R (Cmd c k) = (Q c \<and> (\<forall>r. ans_ok c r \<longrightarrow> go_post P Q R (k r)))"
| "go_post P Q R (Scan p k) = (\<forall>r. scan_ok p r \<longrightarrow> go_post P Q R (k r))"
| "go_post P Q R (Now k) = (\<forall>r. go_post P Q R (k r))"
| "go_post P Q R (Uuid k) = (\<forall>r. go_post P Q R (k r))"
| "go_post P Q R (Rand n k) = (\<forall>r. n = 0 \<or> r < n \<longrightarrow> go_post P Q R (k r))"
| "go_post P Q R (Wait d k) = (\<forall>r. go_post P Q R (k r))"
| "go_post P Q R (CtxDone k) = (\<forall>r. go_post P Q R (k r))"
| "go_post P Q R (Local u k) = (\<forall>r. go_post P Q R (k r))"
| "go_post P Q R (Await b u k) = (\<forall>r. go_post P Q R (k r))"

lemma go_post_bind:
  "go_post P Q R p \<Longrightarrow> (\<And>x. R x \<Longrightarrow> go_post P Q S (f x)) \<Longrightarrow> go_post P Q S (go_bind p f)"
  by (induction p) simp_all

lemma go_post_all: "go_post P Q R p \<Longrightarrow> (\<And>x. R x \<Longrightarrow> go_all P Q (f x)) \<Longrightarrow> go_all P Q (go_bind p f)"
  by (induction p) simp_all

lemma go_post_weaken: "go_post P Q R p \<Longrightarrow> (\<And>x. R x \<Longrightarrow> S x) \<Longrightarrow> go_post P Q S p"
  by (induction p) simp_all

lemma go_post_True [simp]: "go_post P Q (\<lambda>_. True) p = go_all P Q p"
  by (induction p) simp_all

lemma go_all_True [simp]: "go_all (\<lambda>_. True) (\<lambda>_. True) p"
  by (induction p) simp_all

lemma go_post_go_all: "go_post P Q R p \<Longrightarrow> go_all P Q p"
  using go_post_weaken [of P Q R p "\<lambda>_. True"] by simp

lemma go_all_and_post: "go_all P Q p \<Longrightarrow> go_post (\<lambda>_. True) (\<lambda>_. True) R p \<Longrightarrow> go_post P Q R p"
  by (induction p) simp_all

definition preserves :: "('s \<Rightarrow> 'r \<times> 's) \<Rightarrow> ('s \<Rightarrow> bool) \<Rightarrow> bool" where
  "preserves f I \<longleftrightarrow> (\<forall>s. I s \<longrightarrow> I (snd (f s)))"

lemma preservesD: "preserves f I \<Longrightarrow> I s \<Longrightarrow> f s = (r, s') \<Longrightarrow> I s'"
  unfolding preserves_def by (metis snd_conv)

lemma preserves_times: "preserves f I \<Longrightarrow> preserves (times_run f n) I"
  by (induction n) (auto simp: preserves_def split: prod.splits)

lemma preserves_request: "preserves f I \<Longrightarrow> preserves (request f conv ft) I"
proof -
  assume "preserves f I"
  then have t: "preserves (times_run f (reached ft)) I"
    by (rule preserves_times)
  have "snd (request f conv ft s) = snd (times_run f (reached ft) s)" for s
    by (auto simp: request_def split: prod.splits option.splits)
  then show ?thesis
    using t by (simp add: preserves_def)
qed

definition sound_cmd :: "(rcmd \<Rightarrow> 's \<Rightarrow> rreply \<times> 's) \<Rightarrow> ('s \<Rightarrow> bool) \<Rightarrow> rcmd \<Rightarrow> bool" where
  "sound_cmd call I c \<longleftrightarrow> preserves (call c) I \<and> (\<forall>s. I s \<longrightarrow> ans_ok c (go_reply (fst (call c s))))"

lemma times_run_last: "times_run f (Suc n) s = (Some (fst (f t)), snd (f t))" if "t = snd (times_run f n s)"
  using that by (simp split: prod.splits)

lemma sound_request:
  assumes "sound_cmd call I c" "I s" "request (call c) go_reply ft s = (r, s')"
  shows "I s'" "ans_ok c r"
proof -
  have p: "preserves (call c) I"
    using assms(1) by (simp add: sound_cmd_def)
  show "I s'"
    using preservesD [OF preserves_request [OF p] assms(2,3)] .
  show "ans_ok c r"
  proof (cases "reached ft")
    case (Suc n)
    define t where "t = snd (times_run (call c) n s)"
    have "I t"
      using preserves_times [OF p, of n] assms(2) by (simp add: preserves_def t_def)
    then have "ans_ok c (go_reply (fst (call c t)))"
      using assms(1) by (simp add: sound_cmd_def)
    then show ?thesis
      using assms(3) Suc times_run_last [OF t_def] by (auto simp: request_def simp del: times_run.simps split: if_splits)
  qed (use assms(3) in \<open>auto simp: request_def\<close>)
qed

lemma run_go_invariant:
  assumes "go_all P Q p"
    and "\<And>x. P x \<Longrightarrow> preserves (run_lua call x) I" "\<And>c. Q c \<Longrightarrow> sound_cmd call I c"
    and "I s" "run_go call p w l s = (x, w', l', s')"
  shows "I s'"
  using assms(1,4,5)
proof (induction p arbitrary: w l s)
  case (Eval q k)
  obtain r s1 where q: "request (run_lua call q) go_result (head_or deliver (faults w)) s = (r, s1)"
    by fastforce
  then have "I s1"
    using Eval.prems assms(2) preserves_request preservesD by (metis go_all.simps(2))
  then show ?case
    using Eval q by (fastforce split: prod.splits)
next
  case (Cmd c k)
  obtain r s1 where q: "request (call c) go_reply (head_or deliver (faults w)) s = (r, s1)"
    by fastforce
  have c: "Q c" "I s"
    using Cmd.prems by auto
  have "I s1" "ans_ok c r"
    using sound_request [OF assms(3) [OF c(1)] c(2) q] by auto
  then show ?case
    using Cmd.IH [OF rangeI, of r] Cmd.prems q by simp
next
  case (Scan pat k)
  have ok: "scan_ok pat (Inl e)" "scan_ok pat (Inr (map_prod (filter (glob pat)) id pg))" for e pg
    by (auto simp: scan_ok_def list_all_iff)
  have rec: "I s'" if "scan_ok pat r" "run_go call (k r) w1 l s = (x, w', l', s')" for r w1
    by (rule Scan.IH [OF rangeI _ Scan.prems(2) that(2)]) (use Scan.prems(1) that(1) in simp)
  from Scan.prems(3) show ?case
    unfolding run_go.simps Let_def by (auto split: if_splits intro: rec [OF ok(1)] rec [OF ok(2)])
next
  case (Await b u k)
  then show ?case by (cases "b l") fastforce+
next
  case (Rand n k)
  have "n = 0 \<or> head_or 0 (rands w) mod n < n"
    by (cases n) simp_all
  then show ?case
    using Rand by (fastforce dest: spec)
qed fastforce+

section \<open>Interleaving\<close>

text \<open>One step of one goroutine: a request with any fault, or any answer of the environment.\<close>

inductive go_step :: "(rcmd \<Rightarrow> 's \<Rightarrow> rreply \<times> 's) \<Rightarrow> ('l, 'a) go \<times> 'l \<times> 's \<Rightarrow> ('l, 'a) go \<times> 'l \<times> 's \<Rightarrow> bool"
  for call where
  eval: "request (run_lua call p) go_result ft s = (r, s') \<Longrightarrow> go_step call (Eval p k, l, s) (k r, l, s')"
| cmd: "request (call c) go_reply ft s = (r, s') \<Longrightarrow> go_step call (Cmd c k, l, s) (k r, l, s')"
| scan: "scan_ok pat pg \<Longrightarrow> go_step call (Scan pat k, l, s) (k pg, l, s)"
| now: "go_step call (Now k, l, s) (k t, l, s)"
| uuid: "go_step call (Uuid k, l, s) (k u, l, s)"
| rand: "i < n \<Longrightarrow> go_step call (Rand n k, l, s) (k i, l, s)"
| wait: "go_step call (Wait d k, l, s) (k b, l, s)"
| ctx: "go_step call (CtxDone k, l, s) (k b, l, s)"
| local: "go_step call (Local u k, l, s) (k l, u l, s)"
| await: "b l \<Longrightarrow> go_step call (Await b u k, l, s) (k True, u l, s)"
| cancelled: "go_step call (Await b u k, l, s) (k False, l, s)"

text \<open>
  Processes, each with its goroutines over its own shared local state, over one server.  Between
  requests the server's time passes as \<open>elapse\<close> allows.
\<close>

type_synonym ('l, 'a) procs = "('l \<times> ('l, 'a) go list) list"

inductive pool_step :: "(rcmd \<Rightarrow> 's \<Rightarrow> rreply \<times> 's) \<Rightarrow> ('s \<Rightarrow> 's \<Rightarrow> bool) \<Rightarrow>
    ('l, 'a) procs \<times> 's \<Rightarrow> ('l, 'a) procs \<times> 's \<Rightarrow> bool"
  for call elapse where
  run: "i < length ps \<Longrightarrow> ps ! i = (l, ts) \<Longrightarrow> j < length ts \<Longrightarrow> go_step call (ts ! j, l, s) (t', l', s') \<Longrightarrow>
     pool_step call elapse (ps, s) (ps[i := (l', ts[j := t'])], s')"
| tick: "elapse s s' \<Longrightarrow> pool_step call elapse (ps, s) (ps, s')"

definition procs_all :: "(lua \<Rightarrow> bool) \<Rightarrow> (rcmd \<Rightarrow> bool) \<Rightarrow> ('l, 'a) procs \<Rightarrow> bool" where
  "procs_all P Q ps \<longleftrightarrow> (\<forall>(l, ts)\<in>set ps. \<forall>t\<in>set ts. go_all P Q t)"

lemma go_step_invariant:
  assumes "go_step call (t, l, s) (t', l', s')" "go_all P Q t" "I s"
    and "\<And>x. P x \<Longrightarrow> preserves (run_lua call x) I" "\<And>c. Q c \<Longrightarrow> sound_cmd call I c"
  shows "go_all P Q t' \<and> I s'"
  using assms(1)
proof cases
  case (eval p ft r k)
  then show ?thesis
    using assms preservesD [OF preserves_request] by fastforce
next
  case (cmd c ft r k)
  then have "Q c"
    using assms(2) by simp
  then have "I s'" "ans_ok c r"
    using sound_request [OF assms(5) assms(3)] cmd by auto
  then show ?thesis
    using cmd assms(2) by simp
qed (use assms(2,3) in auto)

lemma procs_all_update:
  assumes "procs_all P Q ps" "ps ! i = (l, ts)" "go_all P Q t'"
  shows "procs_all P Q (ps[i := (l', ts[j := t'])])"
proof (cases "i < length ps")
  case True
  then have "(l, ts) \<in> set ps"
    using assms(2) nth_mem by metis
  then have "\<forall>t\<in>set (ts[j := t']). go_all P Q t"
    using assms set_update_subset_insert [of ts j t'] by (fastforce simp: procs_all_def)
  then show ?thesis
    using assms(1) set_update_subset_insert [of ps i "(l', ts[j := t'])"] by (fastforce simp: procs_all_def)
qed (use assms(1) in \<open>simp add: list_update_beyond\<close>)

lemma pool_invariant:
  assumes "(pool_step call elapse)\<^sup>*\<^sup>* (ps, s) (ps', s')" "procs_all P Q ps" "I s"
    and "\<And>x. P x \<Longrightarrow> preserves (run_lua call x) I" "\<And>c. Q c \<Longrightarrow> sound_cmd call I c"
    and "\<And>a b. elapse a b \<Longrightarrow> I a \<Longrightarrow> I b"
  shows "procs_all P Q ps' \<and> I s'"
  using assms(1)
proof (induction "(ps', s')" arbitrary: ps' s' rule: rtranclp_induct)
  case base
  then show ?case using assms(2,3) by simp
next
  case (step y)
  obtain qs q where y: "y = (qs, q)" by (cases y)
  then have inv: "procs_all P Q qs" "I q"
    using step by auto
  have "pool_step call elapse (qs, q) (ps', s')"
    using step y by simp
  then show ?case
  proof cases
    case (run i l ts j t' l')
    then have "(l, ts) \<in> set qs" "ts ! j \<in> set ts"
      using nth_mem by metis+
    then have "go_all P Q (ts ! j)"
      using inv(1) by (fastforce simp: procs_all_def)
    then have "go_all P Q t' \<and> I s'"
      using go_step_invariant [where I = I, OF run(5) _ inv(2)] assms(4,5) by blast
    then show ?thesis
      using procs_all_update [OF inv(1) run(3)] run(1) by simp
  next
    case tick
    then show ?thesis using inv assms(6) by simp
  qed
qed

section \<open>Invariants of the key space, on any server\<close>

lemma enum_cmd_iff: "enum_cmd c \<longleftrightarrow> (\<exists>k. c = cHGETALL k \<or> c = cSMEMBERS k)"
  by (cases c) simp_all

context redis_server
begin

lemma preserves_script:
  assumes "enum_free p" "preserves (run_lua exec p) I"
  shows "preserves (run_lua call p) (\<lambda>s. I (view s))"
  unfolding preserves_def
proof (intro allI impI)
  fix s
  assume I: "I (view s)"
  obtain r s' where c: "run_lua call p s = (r, s')" by fastforce
  then have "run_lua exec p (view s) = (r, view s')"
    using run_lua_view assms(1) by blast
  then show "I (view (snd (run_lua call p s)))"
    using preservesD [OF assms(2) I] c by simp
qed

lemma sound_command:
  assumes "sound_cmd exec I c"
  shows "sound_cmd call (\<lambda>s. I (view s)) c"
proof -
  have "I (view (snd (call c s))) \<and> ans_ok c (go_reply (fst (call c s)))" if I: "I (view s)" for s
  proof -
    obtain r s' where c: "call c s = (r, s')" by fastforce
    show ?thesis
    proof (cases "enum_cmd c")
      case True
      then have "view s' = view s" "c \<noteq> cTIME"
        using hgetall smembers c unfolding enum_cmd_iff by blast+
      then show ?thesis using I c by (simp add: ans_ok_reply)
    next
      case False
      then have "exec c (view s) = (r, view s')"
        using command c by blast
      then show ?thesis
        using assms I c unfolding sound_cmd_def preserves_def by (metis fst_conv snd_conv)
    qed
  qed
  then show ?thesis
    by (simp add: sound_cmd_def preserves_def)
qed

lemma pool_invariant_view:
  assumes "(pool_step call elapse)\<^sup>*\<^sup>* (ps, s) (ps', s')" "procs_all P Q ps" "I (view s)"
    and "\<And>x. P x \<Longrightarrow> enum_free x \<and> preserves (run_lua exec x) I" "\<And>c. Q c \<Longrightarrow> sound_cmd exec I c"
    and "\<And>a b. elapse a b \<Longrightarrow> I (view a) \<Longrightarrow> I (view b)"
  shows "I (view s')"
  using pool_invariant [where I = "\<lambda>s. I (view s)" and P = P and Q = Q, OF assms(1,2)] assms(3-6)
    preserves_script sound_command by blast

lemma run_go_invariant_view:
  assumes "go_all P Q p" "I (view s)" "run_go call p w l s = (x, w', l', s')"
    and "\<And>x. P x \<Longrightarrow> enum_free x \<and> preserves (run_lua exec x) I" "\<And>c. Q c \<Longrightarrow> sound_cmd exec I c"
  shows "I (view s')"
  using run_go_invariant [where I = "\<lambda>s. I (view s)" and P = P and Q = Q, OF assms(1)] assms(2-5)
    preserves_script sound_command by blast

end

end
