(* ===== verification/Settings.thy ===== *)
theory Settings
  imports Prelude
begin

text \<open>
  The configuration of clients and workers: \<^verbatim>\<open>config.go\<close>, and the functions of
  \<^verbatim>\<open>worker/worker.go\<close> that complete it.  A \<^verbatim>\<open>time.Duration\<close> is an integer number of
  nanoseconds, Go's \<^verbatim>\<open>/\<close> is \<open>sdiv\<close>.  A TLS configuration is passed through unread and is a type
  parameter.

  The lemmas say that a normalized configuration is usable (every interval positive, locks renewed
  before they expire, polling shorter than the shutdown timeout) and that normalizing changes
  nothing the user has set to a usable value and nothing the second time.
\<close>

section \<open>Redis connection\<close>

record 'tls RedisConfig =
  r_Addr :: string
  r_Password :: string
  r_DB :: int
  r_PoolSize :: int
  r_MinIdleConns :: int
  r_DialTimeout :: int
  r_ReadTimeout :: int
  r_WriteTimeout :: int
  r_TLSConfig :: "'tls option"

text \<open>The fields of \<^verbatim>\<open>redis.Options\<close> that Senna sets.\<close>

record 'tls redis_Options =
  o_Addr :: string
  o_Password :: string
  o_DB :: int
  o_PoolSize :: int
  o_MinIdleConns :: int
  o_DialTimeout :: int
  o_ReadTimeout :: int
  o_WriteTimeout :: int
  o_TLSConfig :: "'tls option"
  o_ContextTimeoutEnabled :: bool

definition RedisConfig_Options :: "'tls RedisConfig \<Rightarrow> 'tls redis_Options" where
  "RedisConfig_Options c =
     (let opts = \<lparr>o_Addr = r_Addr c, o_Password = r_Password c, o_DB = r_DB c, o_PoolSize = 0,
                  o_MinIdleConns = 0, o_DialTimeout = 0, o_ReadTimeout = 0, o_WriteTimeout = 0,
                  o_TLSConfig = r_TLSConfig c, o_ContextTimeoutEnabled = True\<rparr>;
          opts = (if r_PoolSize c > 0 then opts\<lparr>o_PoolSize := r_PoolSize c\<rparr> else opts);
          opts = (if r_MinIdleConns c > 0 then opts\<lparr>o_MinIdleConns := r_MinIdleConns c\<rparr> else opts);
          opts = (if r_DialTimeout c > 0 then opts\<lparr>o_DialTimeout := r_DialTimeout c\<rparr> else opts);
          opts = (if r_ReadTimeout c > 0 then opts\<lparr>o_ReadTimeout := r_ReadTimeout c\<rparr> else opts)
      in if r_WriteTimeout c > 0 then opts\<lparr>o_WriteTimeout := r_WriteTimeout c\<rparr> else opts)"

section \<open>Workers\<close>

record QueueConfig =
  c_Name :: string
  c_Priority :: int
  c_Paused :: bool
  c_Sequential :: bool

record WorkerSettings =
  Concurrency :: int
  SQueues :: "QueueConfig list"
  ShutdownTimeout :: int
  PollInterval :: int
  BlockTimeout :: int
  ScheduledPollInterval :: int
  HeartbeatRate :: int
  ReaperOperationTimeout :: int
  ReaperInterval :: int
  SequentialLockTTL :: int
  SequentialLockRenewInterval :: int
  IterableMaxRuntime :: int
  PeriodicPollInterval :: int
  PeriodicEnabled :: bool
  StrictPriority :: bool

definition DefaultQueueName :: string where
  "DefaultQueueName = ''default''"

definition DefaultRetryCount :: int where
  "DefaultRetryCount = 25"

definition DefaultBulkChunkSize :: int where
  "DefaultBulkChunkSize = 1000"

definition Millisecond :: int where
  "Millisecond = 1000000"

definition Second :: int where
  "Second = 1000000000"

definition DefaultWorkerSettings :: WorkerSettings where
  "DefaultWorkerSettings =
     \<lparr>Concurrency = 10,
      SQueues = [\<lparr>c_Name = DefaultQueueName, c_Priority = 1, c_Paused = False, c_Sequential = False\<rparr>],
      ShutdownTimeout = 30 * Second,
      PollInterval = 100 * Millisecond,
      BlockTimeout = 2 * Second,
      ScheduledPollInterval = 5 * Second,
      HeartbeatRate = 5 * Second,
      ReaperOperationTimeout = 5 * Second,
      ReaperInterval = 30 * Second,
      SequentialLockTTL = 30 * Second,
      SequentialLockRenewInterval = 10 * Second,
      IterableMaxRuntime = 30 * Second,
      PeriodicPollInterval = 15 * Second,
      PeriodicEnabled = False,
      StrictPriority = False\<rparr>"

text \<open>
  The checks of \<^verbatim>\<open>normalizeWorkerSettings\<close>, in the order of the code.  The queue slice is copied,
  so that later changes by the caller are not seen.
\<close>

definition positive_or_default ::
    "(WorkerSettings \<Rightarrow> int) \<Rightarrow> ((int \<Rightarrow> int) \<Rightarrow> WorkerSettings \<Rightarrow> WorkerSettings) \<Rightarrow> WorkerSettings \<Rightarrow> WorkerSettings" where
  "positive_or_default field update s =
     (if field s \<le> 0 then update (\<lambda>_. field DefaultWorkerSettings) s else s)"

definition queues_or_default :: "WorkerSettings \<Rightarrow> WorkerSettings" where
  "queues_or_default s = (if length (SQueues s) = 0 then s\<lparr>SQueues := SQueues DefaultWorkerSettings\<rparr> else s)"

definition renew_before_expiry :: "WorkerSettings \<Rightarrow> WorkerSettings" where
  "renew_before_expiry s =
     (if SequentialLockRenewInterval s \<ge> SequentialLockTTL s
      then (let third = SequentialLockTTL s sdiv 3
            in s\<lparr>SequentialLockRenewInterval := if third \<le> 0 then SequentialLockTTL s else third\<rparr>)
      else s)"

definition runtime_or_default :: "WorkerSettings \<Rightarrow> WorkerSettings" where
  "runtime_or_default s =
     (if IterableMaxRuntime s = 0 then s\<lparr>IterableMaxRuntime := IterableMaxRuntime DefaultWorkerSettings\<rparr> else s)"

definition normalizeWorkerSettings :: "WorkerSettings \<Rightarrow> WorkerSettings" where
  "normalizeWorkerSettings settings = fold (\<lambda>check s. check s)
     [positive_or_default Concurrency Concurrency_update,
      queues_or_default,
      positive_or_default ShutdownTimeout ShutdownTimeout_update,
      positive_or_default PollInterval PollInterval_update,
      positive_or_default BlockTimeout BlockTimeout_update,
      positive_or_default ScheduledPollInterval ScheduledPollInterval_update,
      positive_or_default HeartbeatRate HeartbeatRate_update,
      positive_or_default ReaperOperationTimeout ReaperOperationTimeout_update,
      positive_or_default ReaperInterval ReaperInterval_update,
      positive_or_default SequentialLockTTL SequentialLockTTL_update,
      positive_or_default SequentialLockRenewInterval SequentialLockRenewInterval_update,
      renew_before_expiry,
      runtime_or_default,
      positive_or_default PeriodicPollInterval PeriodicPollInterval_update] settings"

definition workerBlockTimeout :: "WorkerSettings \<Rightarrow> int" where
  "workerBlockTimeout settings =
     (let blockTimeout = BlockTimeout settings;
          blockTimeout = (if blockTimeout \<le> 0 then BlockTimeout DefaultWorkerSettings else blockTimeout);
          shutdownTimeout = ShutdownTimeout settings
      in if shutdownTimeout > 0 \<and> blockTimeout \<ge> shutdownTimeout
         then (let blockTimeout = shutdownTimeout sdiv 2
               in if blockTimeout \<le> 0 then shutdownTimeout else blockTimeout)
         else blockTimeout)"

definition workerReaperInterval :: "WorkerSettings \<Rightarrow> int" where
  "workerReaperInterval settings =
     (if ReaperInterval settings \<le> 0 then ReaperInterval DefaultWorkerSettings else ReaperInterval settings)"

section \<open>Clients and the shared configuration\<close>

record ClientSettings =
  DefaultQueue :: string
  DefaultRetry :: int
  BulkChunkSize :: int

definition DefaultClientSettings :: ClientSettings where
  "DefaultClientSettings =
     \<lparr>DefaultQueue = DefaultQueueName, DefaultRetry = DefaultRetryCount, BulkChunkSize = DefaultBulkChunkSize\<rparr>"

record EncryptionSettings =
  Enabled :: bool
  Key :: string

record 'tls Config =
  cfg_Redis :: "'tls RedisConfig"
  cfg_Namespace :: string
  cfg_Worker :: WorkerSettings
  cfg_Client :: ClientSettings
  cfg_Encryption :: EncryptionSettings

type_synonym 'tls Option = "'tls Config \<Rightarrow> 'tls Config"

definition with_worker :: "(WorkerSettings \<Rightarrow> WorkerSettings) \<Rightarrow> 'tls Option" where
  "with_worker f c = c\<lparr>cfg_Worker := f (cfg_Worker c)\<rparr>"

definition WithNamespace :: "string \<Rightarrow> 'tls Option" where
  "WithNamespace ns c = c\<lparr>cfg_Namespace := ns\<rparr>"

definition WithConcurrency :: "int \<Rightarrow> 'tls Option" where
  "WithConcurrency n = with_worker (\<lambda>w. w\<lparr>Concurrency := n\<rparr>)"

definition WithQueues :: "QueueConfig list \<Rightarrow> 'tls Option" where
  "WithQueues queues = with_worker (\<lambda>w. w\<lparr>SQueues := queues\<rparr>)"

definition WithShutdownTimeout :: "int \<Rightarrow> 'tls Option" where
  "WithShutdownTimeout d = with_worker (\<lambda>w. w\<lparr>ShutdownTimeout := d\<rparr>)"

definition WithReaperOperationTimeout :: "int \<Rightarrow> 'tls Option" where
  "WithReaperOperationTimeout d = with_worker (\<lambda>w. w\<lparr>ReaperOperationTimeout := d\<rparr>)"

definition WithReaperInterval :: "int \<Rightarrow> 'tls Option" where
  "WithReaperInterval d = with_worker (\<lambda>w. w\<lparr>ReaperInterval := d\<rparr>)"

definition WithSequentialLockTTL :: "int \<Rightarrow> 'tls Option" where
  "WithSequentialLockTTL d = with_worker (\<lambda>w. w\<lparr>SequentialLockTTL := d\<rparr>)"

definition WithSequentialLockRenewInterval :: "int \<Rightarrow> 'tls Option" where
  "WithSequentialLockRenewInterval d = with_worker (\<lambda>w. w\<lparr>SequentialLockRenewInterval := d\<rparr>)"

definition WithIterableMaxRuntime :: "int \<Rightarrow> 'tls Option" where
  "WithIterableMaxRuntime d = with_worker (\<lambda>w. w\<lparr>IterableMaxRuntime := d\<rparr>)"

definition WithPeriodicPollInterval :: "int \<Rightarrow> 'tls Option" where
  "WithPeriodicPollInterval d = with_worker (\<lambda>w. w\<lparr>PeriodicPollInterval := d\<rparr>)"

definition WithBlockTimeout :: "int \<Rightarrow> 'tls Option" where
  "WithBlockTimeout d = with_worker (\<lambda>w. w\<lparr>BlockTimeout := d\<rparr>)"

definition WithEncryptionConfig :: "string \<Rightarrow> 'tls Option" where
  "WithEncryptionConfig k c = c\<lparr>cfg_Encryption := (cfg_Encryption c)\<lparr>Enabled := True, Key := k\<rparr>\<rparr>"

definition WithPeriodicEnabled :: "'tls Option" where
  "WithPeriodicEnabled = with_worker (\<lambda>w. w\<lparr>PeriodicEnabled := True\<rparr>)"

definition WithScheduledPollInterval :: "int \<Rightarrow> 'tls Option" where
  "WithScheduledPollInterval d = with_worker (\<lambda>w. w\<lparr>ScheduledPollInterval := d\<rparr>)"

definition WithStrictPriority :: "'tls Option" where
  "WithStrictPriority = with_worker (\<lambda>w. w\<lparr>StrictPriority := True\<rparr>)"

section \<open>Usable settings\<close>

definition settings_ok :: "WorkerSettings \<Rightarrow> bool" where
  "settings_ok s \<longleftrightarrow> 0 < Concurrency s \<and> SQueues s \<noteq> [] \<and> 0 < ShutdownTimeout s \<and> 0 < PollInterval s \<and>
     0 < BlockTimeout s \<and> 0 < ScheduledPollInterval s \<and> 0 < HeartbeatRate s \<and> 0 < ReaperOperationTimeout s \<and>
     0 < ReaperInterval s \<and> 0 < SequentialLockTTL s \<and> 0 < SequentialLockRenewInterval s \<and>
     (SequentialLockRenewInterval s < SequentialLockTTL s \<or> SequentialLockTTL s < 3 \<and> SequentialLockRenewInterval s = SequentialLockTTL s) \<and>
     IterableMaxRuntime s \<noteq> 0 \<and> 0 < PeriodicPollInterval s"

text \<open>
  The normalized settings field by field: a field keeps a usable value and takes the default
  otherwise.
\<close>

definition renew_interval :: "int \<Rightarrow> int \<Rightarrow> int" where
  "renew_interval ttl renew =
     (if renew < ttl then renew else if ttl < 3 then ttl else ttl div 3)"

lemmas settings_defs = positive_or_default_def queues_or_default_def renew_before_expiry_def runtime_or_default_def
  DefaultWorkerSettings_def Second_def Millisecond_def Let_def

text \<open>Each check as one update, so that the updates of a run compose.\<close>

definition positive_or :: "int \<Rightarrow> int \<Rightarrow> int" where
  "positive_or v dflt = (if v \<le> 0 then dflt else v)"

lemma check_updates:
  "positive_or_default Concurrency Concurrency_update s = s\<lparr>Concurrency := positive_or (Concurrency s) (10)\<rparr>"
  "positive_or_default ShutdownTimeout ShutdownTimeout_update s = s\<lparr>ShutdownTimeout := positive_or (ShutdownTimeout s) (30 * Second)\<rparr>"
  "positive_or_default PollInterval PollInterval_update s = s\<lparr>PollInterval := positive_or (PollInterval s) (100 * Millisecond)\<rparr>"
  "positive_or_default BlockTimeout BlockTimeout_update s = s\<lparr>BlockTimeout := positive_or (BlockTimeout s) (2 * Second)\<rparr>"
  "positive_or_default ScheduledPollInterval ScheduledPollInterval_update s = s\<lparr>ScheduledPollInterval := positive_or (ScheduledPollInterval s) (5 * Second)\<rparr>"
  "positive_or_default HeartbeatRate HeartbeatRate_update s = s\<lparr>HeartbeatRate := positive_or (HeartbeatRate s) (5 * Second)\<rparr>"
  "positive_or_default ReaperOperationTimeout ReaperOperationTimeout_update s = s\<lparr>ReaperOperationTimeout := positive_or (ReaperOperationTimeout s) (5 * Second)\<rparr>"
  "positive_or_default ReaperInterval ReaperInterval_update s = s\<lparr>ReaperInterval := positive_or (ReaperInterval s) (30 * Second)\<rparr>"
  "positive_or_default SequentialLockTTL SequentialLockTTL_update s = s\<lparr>SequentialLockTTL := positive_or (SequentialLockTTL s) (30 * Second)\<rparr>"
  "positive_or_default SequentialLockRenewInterval SequentialLockRenewInterval_update s = s\<lparr>SequentialLockRenewInterval := positive_or (SequentialLockRenewInterval s) (10 * Second)\<rparr>"
  "positive_or_default PeriodicPollInterval PeriodicPollInterval_update s = s\<lparr>PeriodicPollInterval := positive_or (PeriodicPollInterval s) (15 * Second)\<rparr>"
  "queues_or_default s = s\<lparr>SQueues := if SQueues s = [] then SQueues DefaultWorkerSettings else SQueues s\<rparr>"
  "runtime_or_default s = s\<lparr>IterableMaxRuntime := if IterableMaxRuntime s = 0 then 30 * Second else IterableMaxRuntime s\<rparr>"
  by (simp_all add: settings_defs positive_or_def)

lemma third_pos: "0 < ttl \<Longrightarrow> (ttl::int) sdiv 3 \<le> 0 \<longleftrightarrow> ttl < 3"
  by (simp add: sdiv_nonneg) presburger

lemma renew_update:
  "0 < SequentialLockTTL s \<Longrightarrow> renew_before_expiry s =
     s\<lparr>SequentialLockRenewInterval := renew_interval (SequentialLockTTL s) (SequentialLockRenewInterval s)\<rparr>"
  using third_pos [of "SequentialLockTTL s"]
  by (simp add: renew_before_expiry_def renew_interval_def sdiv_nonneg Let_def)

lemma positive_or_pos [simp]: "0 < dflt \<Longrightarrow> 0 < positive_or v dflt"
  by (simp add: positive_or_def)

lemma seconds_pos [simp]: "0 < Second" "0 < Millisecond"
  by (simp_all add: Second_def Millisecond_def)

lemma normalize_fields:
  "Concurrency (normalizeWorkerSettings s) = positive_or (Concurrency s) (10)"
  "ShutdownTimeout (normalizeWorkerSettings s) = positive_or (ShutdownTimeout s) (30 * Second)"
  "PollInterval (normalizeWorkerSettings s) = positive_or (PollInterval s) (100 * Millisecond)"
  "BlockTimeout (normalizeWorkerSettings s) = positive_or (BlockTimeout s) (2 * Second)"
  "ScheduledPollInterval (normalizeWorkerSettings s) = positive_or (ScheduledPollInterval s) (5 * Second)"
  "HeartbeatRate (normalizeWorkerSettings s) = positive_or (HeartbeatRate s) (5 * Second)"
  "ReaperOperationTimeout (normalizeWorkerSettings s) = positive_or (ReaperOperationTimeout s) (5 * Second)"
  "ReaperInterval (normalizeWorkerSettings s) = positive_or (ReaperInterval s) (30 * Second)"
  "SequentialLockTTL (normalizeWorkerSettings s) = positive_or (SequentialLockTTL s) (30 * Second)"
  "PeriodicPollInterval (normalizeWorkerSettings s) = positive_or (PeriodicPollInterval s) (15 * Second)"
  "SequentialLockRenewInterval (normalizeWorkerSettings s) =
     renew_interval (positive_or (SequentialLockTTL s) (30 * Second))
       (positive_or (SequentialLockRenewInterval s) (10 * Second))"
  "SQueues (normalizeWorkerSettings s) = (if SQueues s = [] then SQueues DefaultWorkerSettings else SQueues s)"
  "IterableMaxRuntime (normalizeWorkerSettings s) =
     (if IterableMaxRuntime s = 0 then 30 * Second else IterableMaxRuntime s)"
  "PeriodicEnabled (normalizeWorkerSettings s) = PeriodicEnabled s"
  "StrictPriority (normalizeWorkerSettings s) = StrictPriority s"
  by (simp_all add: normalizeWorkerSettings_def check_updates renew_update)

lemma renew_interval_ok:
  assumes "0 < ttl" "0 < renew"
  shows "0 < renew_interval ttl renew"
    and "renew_interval ttl renew < ttl \<or> ttl < 3 \<and> renew_interval ttl renew = ttl"
  using assms by (auto simp: renew_interval_def)

lemma normalize_ok: "settings_ok (normalizeWorkerSettings s)"
  by (auto simp: settings_ok_def normalize_fields renew_interval_ok DefaultWorkerSettings_def Second_def)

lemma normalize_usable: "settings_ok s \<Longrightarrow> normalizeWorkerSettings s = s"
  by (rule WorkerSettings.equality)
     (auto simp: settings_ok_def normalize_fields renew_interval_def positive_or_def)

lemma block_timeout_bounds:
  assumes "settings_ok s"
  shows "0 < workerBlockTimeout s" "workerBlockTimeout s \<le> BlockTimeout s \<or> workerBlockTimeout s < ShutdownTimeout s"
    "1 < ShutdownTimeout s \<Longrightarrow> workerBlockTimeout s < ShutdownTimeout s"
  using assms by (auto simp: workerBlockTimeout_def settings_ok_def sdiv_nonneg Let_def)

section \<open>Guarantees\<close>

text \<open>
  C17: Normalized settings are always usable, and usable settings are kept.  Whatever an application
  configures, the worker ends up with positive concurrency, intervals and time-outs, renews its
  sequential locks before they expire, and never blocks for as long as a shutdown may take; settings
  that already are usable are not changed, so normalizing twice is normalizing once.
\<close>

theorem normalized_settings:
  "settings_ok (normalizeWorkerSettings s)
   \<and> normalizeWorkerSettings (normalizeWorkerSettings s) = normalizeWorkerSettings s
   \<and> 0 < workerBlockTimeout (normalizeWorkerSettings s)
   \<and> (1 < ShutdownTimeout (normalizeWorkerSettings s) \<longrightarrow>
        workerBlockTimeout (normalizeWorkerSettings s) < ShutdownTimeout (normalizeWorkerSettings s))"
  using normalize_ok normalize_usable block_timeout_bounds by blast

theorem normalized_settings_witness:
  "0 < workerBlockTimeout (normalizeWorkerSettings (DefaultWorkerSettings\<lparr>BlockTimeout := 0, ShutdownTimeout := -4\<rparr>))
   \<and> 1 < ShutdownTimeout (normalizeWorkerSettings (DefaultWorkerSettings\<lparr>BlockTimeout := 0, ShutdownTimeout := -4\<rparr>))
   \<and> workerBlockTimeout (normalizeWorkerSettings (DefaultWorkerSettings\<lparr>BlockTimeout := 0, ShutdownTimeout := -4\<rparr>))
     < ShutdownTimeout (normalizeWorkerSettings (DefaultWorkerSettings\<lparr>BlockTimeout := 0, ShutdownTimeout := -4\<rparr>))"
proof -
  let ?s = "DefaultWorkerSettings\<lparr>BlockTimeout := 0, ShutdownTimeout := -4\<rparr>"
  have "1 < ShutdownTimeout (normalizeWorkerSettings ?s)"
    by code_simp
  then show ?thesis
    using normalized_settings [of ?s] by blast
qed

end
