(* ===== verification/Job.thy ===== *)
theory Job
  imports Timestamp Settings
begin

text \<open>
  The job record of \<^verbatim>\<open>src/job.go\<close> and its JSON form.

  \<open>Marshal\<close> writes the fields in the order and with the omissions of the struct tags;
  \<open>UnmarshalJob\<close> is Go's struct decoding: field names are matched without regard to case, later
  members overwrite earlier ones, \<^verbatim>\<open>null\<close> leaves a field alone, a value of the wrong type fails.
  The number a literal denotes after a trip through \<^verbatim>\<open>float64\<close> is the parameter \<open>fl\<close>.
  \<open>unmarshal_marshal\<close> is the round trip that redelivery depends on.

  Values of \<^verbatim>\<open>args\<close> are documents; a time literal is read after its escapes are decoded.
\<close>

record jobfinalization =
  f_Operation :: string
  f_Error :: string
  f_RetryAt :: int

record job =
  j_ID :: string
  j_Type :: string
  j_Queue :: string
  j_Args :: "(string \<times> json) list option"
  j_Retry :: int
  j_RetryCount :: int
  j_CreatedAt :: int
  j_EnqueuedAt :: int
  j_ProcessedAt :: "int option"
  j_FailedAt :: "int option"
  j_Error :: string
  j_BatchID :: string
  j_CallbackBatchID :: string
  j_UniqueKey :: string
  j_UniqueTTL :: int
  j_Encrypted :: bool
  j_raw :: string
  j_finalization :: "jobfinalization option"

definition zero_job :: job where
  "zero_job = \<lparr>j_ID = [], j_Type = [], j_Queue = [], j_Args = None, j_Retry = 0, j_RetryCount = 0,
     j_CreatedAt = zero_time, j_EnqueuedAt = zero_time, j_ProcessedAt = None, j_FailedAt = None,
     j_Error = [], j_BatchID = [], j_CallbackBatchID = [], j_UniqueKey = [], j_UniqueTTL = 0,
     j_Encrypted = False, j_raw = [], j_finalization = None\<rparr>"

definition NewJob :: "int \<Rightarrow> string \<Rightarrow> string \<Rightarrow> (string \<times> json) list option \<Rightarrow> job" where
  "NewJob now uuid jobType args =
     zero_job\<lparr>j_ID := uuid, j_Type := jobType, j_Queue := DefaultQueueName, j_Args := args,
       j_Retry := DefaultRetryCount, j_RetryCount := 0, j_CreatedAt := now, j_EnqueuedAt := now\<rparr>"

definition SetRaw :: "string \<Rightarrow> job \<Rightarrow> job" where
  "SetRaw r j = j\<lparr>j_raw := r\<rparr>"

definition SetFinalization :: "jobfinalization \<Rightarrow> job \<Rightarrow> job" where
  "SetFinalization f j = j\<lparr>j_finalization := Some f\<rparr>"

definition ClearFinalization :: "job \<Rightarrow> job" where
  "ClearFinalization j = j\<lparr>j_finalization := None\<rparr>"

section \<open>Encoding\<close>

text \<open>\<^verbatim>\<open>json.Marshal\<close> of a map writes its keys in sorted order; the last binding of a key counts.\<close>

definition canon_obj :: "(string \<times> json) list \<Rightarrow> (string \<times> json) list" where
  "canon_obj ms = map (\<lambda>k. (k, the (map_of (rev ms) k))) (sort (remdups (map fst ms)))"

definition str_opt :: "string \<Rightarrow> string \<Rightarrow> (string \<times> json) list" where
  "str_opt k s = (if s = [] then [] else [(k, JStr s)])"

definition JInt :: "int \<Rightarrow> json" where
  "JInt i = JNum (string_of_int i)"

definition time_member :: "string \<Rightarrow> int \<Rightarrow> (string \<times> json) list option" where
  "time_member k t = map_option (\<lambda>s. [(k, JStr s)]) (fmt_time t)"

definition time_opt :: "string \<Rightarrow> int option \<Rightarrow> (string \<times> json) list option" where
  "time_opt k t = (case t of None \<Rightarrow> Some [] | Some t \<Rightarrow> time_member k t)"

definition finalization_json :: "jobfinalization \<Rightarrow> json option" where
  "finalization_json f = do {
     r \<leftarrow> time_member ''retry_at'' (f_RetryAt f);
     Some (JObj ([(''operation'', JStr (f_Operation f))] @ str_opt ''error'' (f_Error f) @ r))
   }"

definition MarshalJSON :: "job \<Rightarrow> json option" where
  "MarshalJSON j = do {
     created \<leftarrow> time_member ''created_at'' (j_CreatedAt j);
     enqueued \<leftarrow> time_member ''enqueued_at'' (j_EnqueuedAt j);
     processed \<leftarrow> time_opt ''processed_at'' (j_ProcessedAt j);
     failed \<leftarrow> time_opt ''failed_at'' (j_FailedAt j);
     final \<leftarrow> (case j_finalization j of None \<Rightarrow> Some []
               | Some f \<Rightarrow> map_option (\<lambda>o'. [(''finalization'', o')]) (finalization_json f));
     Some (JObj
       ([(''jid'', JStr (j_ID j)), (''class'', JStr (j_Type j)), (''queue'', JStr (j_Queue j)),
         (''args'', case j_Args j of None \<Rightarrow> JNull | Some a \<Rightarrow> JObj (canon_obj a)),
         (''retry'', JInt (j_Retry j)), (''retry_count'', JInt (j_RetryCount j))] @
        created @ enqueued @ processed @ failed @
        str_opt ''error'' (j_Error j) @ str_opt ''bid'' (j_BatchID j) @
        str_opt ''callback_bid'' (j_CallbackBatchID j) @ str_opt ''unique_key'' (j_UniqueKey j) @
        (if j_UniqueTTL j = 0 then [] else [(''unique_ttl'', JInt (j_UniqueTTL j))]) @
        (if j_Encrypted j then [(''encrypted'', JBool True)] else []) @ final))
   }"

definition Marshal :: "job \<Rightarrow> string option" where
  "Marshal j = map_option json_print (MarshalJSON j)"

section \<open>Decoding\<close>

text \<open>
  Names are compared after folding: ASCII letters regardless of case, and the two non-ASCII
  letters whose simple case folding is an ASCII letter (long s and the Kelvin sign).
\<close>

definition lower_char :: "char \<Rightarrow> char" where
  "lower_char c = (case index_of c ''ABCDEFGHIJKLMNOPQRSTUVWXYZ'' of
      Some i \<Rightarrow> ''abcdefghijklmnopqrstuvwxyz'' ! i | None \<Rightarrow> c)"

fun fold_name :: "string \<Rightarrow> string" where
  "fold_name (a # b # s) =
     (if a = CHR 0xC5 \<and> b = CHR 0xBF then CHR ''s'' # fold_name s
      else case s of
        c # t \<Rightarrow> if a = CHR 0xE2 \<and> b = CHR 0x84 \<and> c = CHR 0xAA then CHR ''k'' # fold_name t
                 else lower_char a # fold_name (b # s)
      | [] \<Rightarrow> lower_char a # fold_name (b # s))"
| "fold_name [a] = [lower_char a]"
| "fold_name [] = []"

definition dec_str :: "json \<Rightarrow> string \<Rightarrow> string option" where
  "dec_str v old = (case v of JStr s \<Rightarrow> Some s | JNull \<Rightarrow> Some old | _ \<Rightarrow> None)"

definition dec_int :: "json \<Rightarrow> int \<Rightarrow> int option" where
  "dec_int v old = (case v of
      JNum n \<Rightarrow> (case parse_int n of Some i \<Rightarrow> if in_i64 i then Some i else None | None \<Rightarrow> None)
    | JNull \<Rightarrow> Some old | _ \<Rightarrow> None)"

definition dec_bool :: "json \<Rightarrow> bool \<Rightarrow> bool option" where
  "dec_bool v old = (case v of JBool b \<Rightarrow> Some b | JNull \<Rightarrow> Some old | _ \<Rightarrow> None)"

definition dec_time :: "json \<Rightarrow> int \<Rightarrow> int option" where
  "dec_time v old = (case v of JStr s \<Rightarrow> parse_time s | JNull \<Rightarrow> Some old | _ \<Rightarrow> None)"

definition dec_timep :: "json \<Rightarrow> int option option" where
  "dec_timep v = (case v of JStr s \<Rightarrow> map_option Some (parse_time s) | JNull \<Rightarrow> Some None | _ \<Rightarrow> None)"

text \<open>Decoding into \<^verbatim>\<open>any\<close>: numbers pass through \<^verbatim>\<open>float64\<close>, objects become maps.\<close>

fun dec_any :: "(string \<Rightarrow> string option) \<Rightarrow> json \<Rightarrow> json option"
  and dec_anys :: "(string \<Rightarrow> string option) \<Rightarrow> json list \<Rightarrow> json list option"
  and dec_members :: "(string \<Rightarrow> string option) \<Rightarrow> (string \<times> json) list \<Rightarrow> (string \<times> json) list option" where
  "dec_any fl JNull = Some JNull"
| "dec_any fl (JBool b) = Some (JBool b)"
| "dec_any fl (JNum n) = map_option JNum (fl n)"
| "dec_any fl (JStr s) = Some (JStr s)"
| "dec_any fl (JArr xs) = map_option JArr (dec_anys fl xs)"
| "dec_any fl (JObj ms) = map_option (\<lambda>ms. JObj (canon_obj ms)) (dec_members fl ms)"
| "dec_anys fl [] = Some []"
| "dec_anys fl (x # xs) = do { y \<leftarrow> dec_any fl x; ys \<leftarrow> dec_anys fl xs; Some (y # ys) }"
| "dec_members fl [] = Some []"
| "dec_members fl ((k, x) # ms) = do { y \<leftarrow> dec_any fl x; ns \<leftarrow> dec_members fl ms; Some ((k, y) # ns) }"

definition dec_args :: "(string \<Rightarrow> string option) \<Rightarrow> json \<Rightarrow> (string \<times> json) list option \<Rightarrow>
    (string \<times> json) list option option" where
  "dec_args fl v old = (case v of
      JNull \<Rightarrow> Some None
    | JObj ms \<Rightarrow> map_option (\<lambda>new. Some (canon_obj (case old of None \<Rightarrow> new | Some o' \<Rightarrow> o' @ new)))
                   (dec_members fl ms)
    | _ \<Rightarrow> None)"

definition dec_finalization_field :: "string \<times> json \<Rightarrow> jobfinalization \<Rightarrow> jobfinalization option" where
  "dec_finalization_field m f =
     (let k = fold_name (fst m); v = snd m
      in if k = ''operation'' then map_option (\<lambda>x. f\<lparr>f_Operation := x\<rparr>) (dec_str v (f_Operation f))
         else if k = ''error'' then map_option (\<lambda>x. f\<lparr>f_Error := x\<rparr>) (dec_str v (f_Error f))
         else if k = ''retry_at'' then map_option (\<lambda>x. f\<lparr>f_RetryAt := x\<rparr>) (dec_time v (f_RetryAt f))
         else Some f)"

definition zero_finalization :: jobfinalization where
  "zero_finalization = \<lparr>f_Operation = [], f_Error = [], f_RetryAt = zero_time\<rparr>"

definition dec_finalization :: "json \<Rightarrow> jobfinalization option \<Rightarrow> jobfinalization option option" where
  "dec_finalization v old = (case v of
      JNull \<Rightarrow> Some None
    | JObj ms \<Rightarrow> map_option Some
        (foldl (\<lambda>acc m. Option.bind acc (dec_finalization_field m))
           (Some (case old of None \<Rightarrow> zero_finalization | Some f \<Rightarrow> f)) ms)
    | _ \<Rightarrow> None)"

definition dec_job_field :: "(string \<Rightarrow> string option) \<Rightarrow> string \<times> json \<Rightarrow> job \<Rightarrow> job option" where
  "dec_job_field fl m j =
     (let k = fold_name (fst m); v = snd m
      in if k = ''jid'' then map_option (\<lambda>x. j\<lparr>j_ID := x\<rparr>) (dec_str v (j_ID j))
         else if k = ''class'' then map_option (\<lambda>x. j\<lparr>j_Type := x\<rparr>) (dec_str v (j_Type j))
         else if k = ''queue'' then map_option (\<lambda>x. j\<lparr>j_Queue := x\<rparr>) (dec_str v (j_Queue j))
         else if k = ''args'' then map_option (\<lambda>x. j\<lparr>j_Args := x\<rparr>) (dec_args fl v (j_Args j))
         else if k = ''retry'' then map_option (\<lambda>x. j\<lparr>j_Retry := x\<rparr>) (dec_int v (j_Retry j))
         else if k = ''retry_count'' then map_option (\<lambda>x. j\<lparr>j_RetryCount := x\<rparr>) (dec_int v (j_RetryCount j))
         else if k = ''created_at'' then map_option (\<lambda>x. j\<lparr>j_CreatedAt := x\<rparr>) (dec_time v (j_CreatedAt j))
         else if k = ''enqueued_at'' then map_option (\<lambda>x. j\<lparr>j_EnqueuedAt := x\<rparr>) (dec_time v (j_EnqueuedAt j))
         else if k = ''processed_at'' then map_option (\<lambda>x. j\<lparr>j_ProcessedAt := x\<rparr>) (dec_timep v)
         else if k = ''failed_at'' then map_option (\<lambda>x. j\<lparr>j_FailedAt := x\<rparr>) (dec_timep v)
         else if k = ''error'' then map_option (\<lambda>x. j\<lparr>j_Error := x\<rparr>) (dec_str v (j_Error j))
         else if k = ''bid'' then map_option (\<lambda>x. j\<lparr>j_BatchID := x\<rparr>) (dec_str v (j_BatchID j))
         else if k = ''callback_bid''
           then map_option (\<lambda>x. j\<lparr>j_CallbackBatchID := x\<rparr>) (dec_str v (j_CallbackBatchID j))
         else if k = ''unique_key'' then map_option (\<lambda>x. j\<lparr>j_UniqueKey := x\<rparr>) (dec_str v (j_UniqueKey j))
         else if k = ''unique_ttl'' then map_option (\<lambda>x. j\<lparr>j_UniqueTTL := x\<rparr>) (dec_int v (j_UniqueTTL j))
         else if k = ''encrypted'' then map_option (\<lambda>x. j\<lparr>j_Encrypted := x\<rparr>) (dec_bool v (j_Encrypted j))
         else if k = ''finalization''
           then map_option (\<lambda>x. j\<lparr>j_finalization := x\<rparr>) (dec_finalization v (j_finalization j))
         else Some j)"

definition UnmarshalJSON :: "(string \<Rightarrow> string option) \<Rightarrow> json \<Rightarrow> job \<Rightarrow> job option" where
  "UnmarshalJSON fl v j = (case v of
      JNull \<Rightarrow> Some (j\<lparr>j_finalization := None\<rparr>)
    | JObj ms \<Rightarrow> foldl (\<lambda>acc m. Option.bind acc (dec_job_field fl m)) (Some (j\<lparr>j_finalization := None\<rparr>)) ms
    | _ \<Rightarrow> None)"

definition UnmarshalJob :: "(string \<Rightarrow> string option) \<Rightarrow> string \<Rightarrow> job option" where
  "UnmarshalJob fl s = Option.bind (json_parse s) (\<lambda>v. UnmarshalJSON fl v zero_job)"

section \<open>Round trip\<close>

abbreviation dec_all :: "(string \<Rightarrow> string option) \<Rightarrow> job option \<Rightarrow> (string \<times> json) list \<Rightarrow> job option" where
  "dec_all fl \<equiv> foldl (\<lambda>acc m. Option.bind acc (dec_job_field fl m))"

text \<open>
  A job that survives the trip: its integers are 64 bit values and its arguments are values as Go
  decodes them (maps without repeated keys, numbers as \<^verbatim>\<open>float64\<close> prints them).
\<close>

definition args_ok :: "(string \<Rightarrow> string option) \<Rightarrow> (string \<times> json) list option \<Rightarrow> bool" where
  "args_ok fl a = (case a of None \<Rightarrow> True
     | Some ms \<Rightarrow> canon_obj ms = ms \<and> dec_members fl ms = Some ms \<and> list_all (\<lambda>m. json_ok (snd m)) ms)"

definition job_ok :: "(string \<Rightarrow> string option) \<Rightarrow> job \<Rightarrow> bool" where
  "job_ok fl j \<longleftrightarrow> in_i64 (j_Retry j) \<and> in_i64 (j_RetryCount j) \<and> in_i64 (j_UniqueTTL j) \<and> args_ok fl (j_Args j)"

declare fold_name.simps [simp del]

lemma fold_field_names [simp]:
  "fold_name ''jid'' = ''jid''" "fold_name ''class'' = ''class''" "fold_name ''queue'' = ''queue''"
  "fold_name ''args'' = ''args''" "fold_name ''retry'' = ''retry''" "fold_name ''retry_count'' = ''retry_count''"
  "fold_name ''created_at'' = ''created_at''" "fold_name ''enqueued_at'' = ''enqueued_at''"
  "fold_name ''processed_at'' = ''processed_at''" "fold_name ''failed_at'' = ''failed_at''"
  "fold_name ''error'' = ''error''" "fold_name ''bid'' = ''bid''" "fold_name ''callback_bid'' = ''callback_bid''"
  "fold_name ''unique_key'' = ''unique_key''" "fold_name ''unique_ttl'' = ''unique_ttl''"
  "fold_name ''encrypted'' = ''encrypted''" "fold_name ''finalization'' = ''finalization''"
  "fold_name ''operation'' = ''operation''" "fold_name ''retry_at'' = ''retry_at''"
  by code_simp+

lemma dec_scalars [simp]:
  "dec_str (JStr s) old = Some s" "in_i64 i \<Longrightarrow> dec_int (JInt i) n = Some i" "dec_bool (JBool b) b' = Some b"
  by (simp_all add: dec_str_def dec_int_def dec_bool_def JInt_def)

lemma dec_time_fmt [simp]:
  "fmt_time t = Some s \<Longrightarrow> dec_time (JStr s) old = Some t"
  "fmt_time t = Some s \<Longrightarrow> dec_timep (JStr s) = Some (Some t)"
  by (simp_all add: dec_time_def dec_timep_def parse_fmt_time)

lemma dec_args_ok [simp]:
  "args_ok fl a \<Longrightarrow> dec_args fl (case a of None \<Rightarrow> JNull | Some m \<Rightarrow> JObj (canon_obj m)) None = Some a"
  by (auto simp: dec_args_def args_ok_def split: option.splits)

lemma dec_finalization_json:
  "finalization_json f = Some v \<Longrightarrow> dec_finalization v None = Some (Some f)"
  by (cases f)
     (auto simp: finalization_json_def time_member_def dec_finalization_def dec_finalization_field_def
        Let_def str_opt_def zero_finalization_def split: bind_splits option.splits if_splits)

lemma json_ok_finalization: "finalization_json f = Some v \<Longrightarrow> json_ok v"
  by (auto simp: finalization_json_def time_member_def str_opt_def split: bind_splits)

definition job_head :: "job \<Rightarrow> (string \<times> json) list" where
  "job_head j = [(''jid'', JStr (j_ID j)), (''class'', JStr (j_Type j)), (''queue'', JStr (j_Queue j)),
     (''args'', case j_Args j of None \<Rightarrow> JNull | Some a \<Rightarrow> JObj (canon_obj a)),
     (''retry'', JInt (j_Retry j)), (''retry_count'', JInt (j_RetryCount j))]"

lemma MarshalJSON_parts:
  assumes "MarshalJSON j = Some v"
  obtains created enqueued processed failed final where
    "time_member ''created_at'' (j_CreatedAt j) = Some created"
    "time_member ''enqueued_at'' (j_EnqueuedAt j) = Some enqueued"
    "time_opt ''processed_at'' (j_ProcessedAt j) = Some processed"
    "time_opt ''failed_at'' (j_FailedAt j) = Some failed"
    "(case j_finalization j of None \<Rightarrow> Some []
       | Some f \<Rightarrow> map_option (\<lambda>o'. [(''finalization'', o')]) (finalization_json f)) = Some final"
    "v = JObj (job_head j @ created @ enqueued @ processed @ failed @
        str_opt ''error'' (j_Error j) @ str_opt ''bid'' (j_BatchID j) @
        str_opt ''callback_bid'' (j_CallbackBatchID j) @ str_opt ''unique_key'' (j_UniqueKey j) @
        (if j_UniqueTTL j = 0 then [] else [(''unique_ttl'', JInt (j_UniqueTTL j))]) @
        (if j_Encrypted j then [(''encrypted'', JBool True)] else []) @ final)"
  using assms that unfolding MarshalJSON_def job_head_def
  by (simp add: Option.bind_eq_Some_conv) blast

lemma json_ok_parts:
  "\<forall>m\<in>set (str_opt k s). json_ok (snd m)"
  "time_member k t = Some ms \<Longrightarrow> \<forall>m\<in>set ms. json_ok (snd m)"
  "time_opt k t' = Some ms \<Longrightarrow> \<forall>m\<in>set ms. json_ok (snd m)"
  "(case f of None \<Rightarrow> Some [] | Some f \<Rightarrow> map_option (\<lambda>o'. [(k, o')]) (finalization_json f)) = Some ms \<Longrightarrow>
     \<forall>m\<in>set ms. json_ok (snd m)"
  by (auto simp: str_opt_def time_member_def time_opt_def json_ok_finalization split: option.splits)

lemma json_ok_JInt [simp]: "json_ok (JInt i)"
  by (simp add: JInt_def valid_num_int)

lemma json_ok_head: "args_ok fl (j_Args j) \<Longrightarrow> \<forall>m\<in>set (job_head j). json_ok (snd m)"
  by (auto simp: job_head_def args_ok_def list_all_iff split: option.splits)

lemma json_ok_Marshal:
  assumes "MarshalJSON j = Some v" "args_ok fl (j_Args j)"
  shows "json_ok v"
  using MarshalJSON_parts [OF assms(1)]
proof cases
  case (1 created enqueued processed failed final)
  show ?thesis
    using json_ok_parts(1) [of "''error''" "j_Error j"] json_ok_parts(1) [of "''bid''" "j_BatchID j"]
      json_ok_parts(1) [of "''callback_bid''" "j_CallbackBatchID j"]
      json_ok_parts(1) [of "''unique_key''" "j_UniqueKey j"]
      json_ok_parts(2) [OF 1(1)] json_ok_parts(2) [OF 1(2)] json_ok_parts(3) [OF 1(3)]
      json_ok_parts(3) [OF 1(4)] json_ok_parts(4) [OF 1(5)] json_ok_head [OF assms(2)]
    unfolding 1(6) json_ok.simps set_append ball_Un by simp
qed

lemma dec_job_field_simps:
  "dec_job_field fl (''jid'', v) j = map_option (\<lambda>x. j\<lparr>j_ID := x\<rparr>) (dec_str v (j_ID j))"
  "dec_job_field fl (''class'', v) j = map_option (\<lambda>x. j\<lparr>j_Type := x\<rparr>) (dec_str v (j_Type j))"
  "dec_job_field fl (''queue'', v) j = map_option (\<lambda>x. j\<lparr>j_Queue := x\<rparr>) (dec_str v (j_Queue j))"
  "dec_job_field fl (''args'', v) j = map_option (\<lambda>x. j\<lparr>j_Args := x\<rparr>) (dec_args fl v (j_Args j))"
  "dec_job_field fl (''retry'', v) j = map_option (\<lambda>x. j\<lparr>j_Retry := x\<rparr>) (dec_int v (j_Retry j))"
  "dec_job_field fl (''retry_count'', v) j = map_option (\<lambda>x. j\<lparr>j_RetryCount := x\<rparr>) (dec_int v (j_RetryCount j))"
  "dec_job_field fl (''encrypted'', v) j = map_option (\<lambda>x. j\<lparr>j_Encrypted := x\<rparr>) (dec_bool v (j_Encrypted j))"
  "dec_job_field fl (''unique_ttl'', v) j = map_option (\<lambda>x. j\<lparr>j_UniqueTTL := x\<rparr>) (dec_int v (j_UniqueTTL j))"
  "dec_job_field fl (''finalization'', v) j =
     map_option (\<lambda>x. j\<lparr>j_finalization := x\<rparr>) (dec_finalization v (j_finalization j))"
  by (simp_all add: dec_job_field_def Let_def)

lemma dec_str_opts:
  "dec_all fl (Some j) (str_opt ''error'' s) = Some (j\<lparr>j_Error := if s = [] then j_Error j else s\<rparr>)"
  "dec_all fl (Some j) (str_opt ''bid'' s) = Some (j\<lparr>j_BatchID := if s = [] then j_BatchID j else s\<rparr>)"
  "dec_all fl (Some j) (str_opt ''callback_bid'' s) =
     Some (j\<lparr>j_CallbackBatchID := if s = [] then j_CallbackBatchID j else s\<rparr>)"
  "dec_all fl (Some j) (str_opt ''unique_key'' s) = Some (j\<lparr>j_UniqueKey := if s = [] then j_UniqueKey j else s\<rparr>)"
  by (simp_all add: str_opt_def dec_job_field_def Let_def)

lemma dec_times:
  "time_member ''created_at'' t = Some ms \<Longrightarrow> dec_all fl (Some j) ms = Some (j\<lparr>j_CreatedAt := t\<rparr>)"
  "time_member ''enqueued_at'' t = Some ms \<Longrightarrow> dec_all fl (Some j) ms = Some (j\<lparr>j_EnqueuedAt := t\<rparr>)"
  "time_opt ''processed_at'' p = Some ms \<Longrightarrow>
     dec_all fl (Some j) ms = Some (j\<lparr>j_ProcessedAt := if p = None then j_ProcessedAt j else p\<rparr>)"
  "time_opt ''failed_at'' p = Some ms \<Longrightarrow>
     dec_all fl (Some j) ms = Some (j\<lparr>j_FailedAt := if p = None then j_FailedAt j else p\<rparr>)"
  by (auto simp: time_member_def time_opt_def dec_job_field_def Let_def split: option.splits)

lemma dec_opts:
  "in_i64 i \<Longrightarrow> dec_all fl (Some j) (if i = 0 then [] else [(''unique_ttl'', JInt i)]) =
     Some (j\<lparr>j_UniqueTTL := if i = 0 then j_UniqueTTL j else i\<rparr>)"
  "dec_all fl (Some j) (if b then [(''encrypted'', JBool True)] else []) =
     Some (j\<lparr>j_Encrypted := (b \<or> j_Encrypted j)\<rparr>)"
  "(case f of None \<Rightarrow> Some [] | Some x \<Rightarrow> map_option (\<lambda>o'. [(''finalization'', o')]) (finalization_json x)) = Some ms \<Longrightarrow>
   j_finalization j = None \<Longrightarrow> dec_all fl (Some j) ms = Some (j\<lparr>j_finalization := f\<rparr>)"
  by (auto simp: dec_job_field_simps dec_finalization_json split: option.splits)

lemma dec_head:
  "job_ok fl j \<Longrightarrow> dec_all fl (Some zero_job) (job_head j) = Some (zero_job\<lparr>j_ID := j_ID j, j_Type := j_Type j,
      j_Queue := j_Queue j, j_Args := j_Args j, j_Retry := j_Retry j, j_RetryCount := j_RetryCount j\<rparr>)"
  by (simp add: job_head_def dec_job_field_simps job_ok_def zero_job_def)

lemma zero_job_finalization: "zero_job\<lparr>j_finalization := None\<rparr> = zero_job"
  by (simp add: zero_job_def)

lemma UnmarshalJSON_Marshal:
  assumes "MarshalJSON j = Some v" "job_ok fl j"
  shows "UnmarshalJSON fl v zero_job = Some (j\<lparr>j_raw := []\<rparr>)"
  using MarshalJSON_parts [OF assms(1)]
proof cases
  case (1 created enqueued processed failed final)
  have ttl: "in_i64 (j_UniqueTTL j)"
    using assms(2) by (simp add: job_ok_def)
  show ?thesis
    unfolding 1(6) UnmarshalJSON_def json.case foldl_append zero_job_finalization dec_head [OF assms(2)]
      dec_times(1) [OF 1(1)] dec_times(2) [OF 1(2)] dec_times(3) [OF 1(3)] dec_times(4) [OF 1(4)]
      dec_str_opts dec_opts(1) [OF ttl] dec_opts(2)
    by (subst dec_opts(3) [OF 1(5)]) (cases j; simp add: zero_job_def)+
qed

lemma unmarshal_marshal:
  assumes "Marshal j = Some s" "job_ok fl j"
  shows "UnmarshalJob fl s = Some (j\<lparr>j_raw := []\<rparr>)"
proof -
  obtain v where v: "MarshalJSON j = Some v" "s = json_print v"
    using assms(1) by (auto simp: Marshal_def)
  then have "json_parse s = Some v"
    using json_ok_Marshal [OF v(1), of fl] assms(2) by (simp add: job_ok_def json_parse_print)
  then show ?thesis
    using UnmarshalJSON_Marshal [OF v(1) assms(2)] by (simp add: UnmarshalJob_def)
qed


section \<open>Decoded jobs can be written back\<close>

text \<open>
  \<open>floats fl\<close>: the number that \<^verbatim>\<open>float64\<close> prints for a number it read is a JSON number, and is
  printed the same when it is read again.
\<close>

definition floats :: "(string \<Rightarrow> string option) \<Rightarrow> bool" where
  "floats fl \<longleftrightarrow> (\<forall>n m. fl n = Some m \<longrightarrow> valid_num m \<and> fl m = Some m)"

lemma canon_obj_subset: "set (canon_obj ms) \<subseteq> set ms"
proof
  fix m
  assume "m \<in> set (canon_obj ms)"
  then obtain k where k: "k \<in> fst ` set ms" "m = (k, the (map_of (rev ms) k))"
    by (auto simp: canon_obj_def)
  then obtain v where "map_of (rev ms) k = Some v"
    by (metis map_of_eq_None_iff not_Some_eq set_rev image_set set_map)
  then show "m \<in> set ms"
    using k(2) map_of_SomeD by fastforce
qed

lemma canon_obj_idem: "canon_obj (canon_obj ms) = canon_obj ms"
proof -
  let ?ks = "sort (remdups (map fst ms))"
  let ?v = "\<lambda>k. the (map_of (rev ms) k)"
  have ks: "map fst (canon_obj ms) = ?ks" "sort (remdups ?ks) = ?ks"
    by (simp_all add: canon_obj_def comp_def distinct_remdups_id sorted_sort_id)
  have "map_of (rev (canon_obj ms)) k = Some (?v k)" if "k \<in> set ?ks" for k
    using that by (simp add: canon_obj_def map_of_eq_Some_iff comp_def rev_map [symmetric])
  then have "map (\<lambda>k. (k, the (map_of (rev (canon_obj ms)) k))) ?ks = canon_obj ms"
    by (simp add: canon_obj_def)
  then show ?thesis
    using ks by (simp add: canon_obj_def)
qed

lemma dec_members_id: "dec_members fl ms = Some ms \<longleftrightarrow> (\<forall>m\<in>set ms. dec_any fl (snd m) = Some (snd m))"
proof (induction ms)
  case (Cons m ms)
  then show ?case
    by (cases m) (auto split: bind_splits)
qed simp

lemma dec_settles:
  "floats fl \<Longrightarrow> dec_any fl x = Some y \<Longrightarrow> json_ok y \<and> dec_any fl y = Some y"
  "floats fl \<Longrightarrow> dec_anys fl xs = Some ys \<Longrightarrow> (\<forall>y\<in>set ys. json_ok y) \<and> dec_anys fl ys = Some ys"
  "floats fl \<Longrightarrow> dec_members fl ms = Some ns \<Longrightarrow> (\<forall>m\<in>set ns. json_ok (snd m)) \<and> dec_members fl ns = Some ns"
proof (induction fl x and fl xs and fl ms arbitrary: y and ys and ns rule: dec_any_dec_anys_dec_members.induct)
  case (6 fl ms)
  then obtain ns where ns: "dec_members fl ms = Some ns" "y = JObj (canon_obj ns)"
    by auto
  then have "\<forall>m\<in>set ns. json_ok (snd m)" "\<forall>m\<in>set ns. dec_any fl (snd m) = Some (snd m)"
    using 6 dec_members_id by blast+
  then have c: "\<forall>m\<in>set (canon_obj ns). json_ok (snd m)" "dec_members fl (canon_obj ns) = Some (canon_obj ns)"
    using canon_obj_subset [of ns] dec_members_id by blast+
  then show ?case
    using ns(2) by (simp add: canon_obj_idem)
next
  case (3 fl n)
  then show ?case
    by (auto simp: floats_def)
next
  case (8 fl x xs)
  obtain z zs where z: "dec_any fl x = Some z" "dec_anys fl xs = Some zs" "ys = z # zs"
    using 8(4) by (auto split: bind_splits)
  show ?case
    using 8(1) [OF 8(3) z(1)] 8(2) [OF z(1) 8(3) z(2)] z(3) by simp
next
  case (10 fl k x ms)
  obtain z zs where z: "dec_any fl x = Some z" "dec_members fl ms = Some zs" "ns = (k, z) # zs"
    using 10(4) by (auto split: bind_splits)
  show ?case
    using 10(1) [OF 10(3) z(1)] 10(2) [OF z(1) 10(3) z(2)] z(3) by simp
qed auto

lemma dec_args_settles:
  assumes "floats fl" "dec_args fl v old = Some a" "args_ok fl old"
  shows "args_ok fl a"
proof (cases v)
  case (JObj ms)
  define base where "base = (case old of None \<Rightarrow> [] | Some o' \<Rightarrow> o')"
  obtain ns where ns: "dec_members fl ms = Some ns" "a = Some (canon_obj (base @ ns))"
    using assms(2) JObj by (auto simp: dec_args_def base_def split: option.splits)
  have new: "\<forall>m\<in>set ns. json_ok (snd m) \<and> dec_any fl (snd m) = Some (snd m)"
    using dec_settles(3) [OF assms(1) ns(1)] dec_members_id by blast
  have "\<forall>m\<in>set base. json_ok (snd m) \<and> dec_any fl (snd m) = Some (snd m)"
    using assms(3) dec_members_id by (auto simp: args_ok_def base_def list_all_iff split: option.splits)
  then have "\<forall>m\<in>set (base @ ns). json_ok (snd m) \<and> dec_any fl (snd m) = Some (snd m)"
    using new by auto
  then have "\<forall>m\<in>set (canon_obj (base @ ns)). json_ok (snd m) \<and> dec_any fl (snd m) = Some (snd m)"
    using canon_obj_subset by blast
  then show ?thesis
    unfolding ns(2) args_ok_def option.case(2) dec_members_id list_all_iff by (simp add: canon_obj_idem)
qed (use assms in \<open>auto simp: dec_args_def args_ok_def\<close>)

lemma dec_job_field_ok:
  assumes "floats fl" "dec_job_field fl m j = Some j'" "job_ok fl j"
  shows "job_ok fl j' \<and> j_raw j' = j_raw j"
proof -
  have int: "dec_int v old = Some i \<Longrightarrow> in_i64 old \<Longrightarrow> in_i64 i" for v old i
    by (auto simp: dec_int_def split: json.splits option.splits if_splits)
  have args: "dec_args fl v (j_Args j) = Some a \<Longrightarrow> args_ok fl a" for v a
    using dec_args_settles assms(1,3) by (auto simp: job_ok_def)
  show ?thesis
    using assms(2,3)
    by (auto simp: dec_job_field_def Let_def job_ok_def split: if_splits dest: int args)
qed

lemma decoded_ok:
  assumes "floats fl" "UnmarshalJob fl s = Some j"
  shows "job_ok fl j \<and> j_raw j = []"
proof -
  have zero: "job_ok fl (zero_job\<lparr>j_finalization := None\<rparr>)" "j_raw zero_job = []"
    by (simp_all add: job_ok_def zero_job_def args_ok_def in_i64_def)
  have fold: "dec_all fl (Some i) ms = Some j \<Longrightarrow> job_ok fl i \<Longrightarrow> job_ok fl j \<and> j_raw j = j_raw i" for i ms
  proof (induction ms arbitrary: i)
    case (Cons m ms)
    have none: "dec_all fl None ns = None" for ns
      by (induction ns) simp_all
    obtain i' where i': "dec_job_field fl m i = Some i'"
      using Cons.prems(1) none by (cases "dec_job_field fl m i") simp_all
    then show ?case
      using Cons.IH [of i'] Cons.prems dec_job_field_ok [OF assms(1) i'] by simp
  qed simp
  obtain v where "UnmarshalJSON fl v zero_job = Some j"
    using assms(2) by (auto simp: UnmarshalJob_def split: bind_splits)
  then show ?thesis
    using fold zero by (fastforce simp: UnmarshalJSON_def split: json.splits)
qed

lemma Marshal_NewJob: "0 \<le> now \<Longrightarrow> now < 2 ^ 63 \<Longrightarrow> \<exists>p. Marshal (NewJob now uuid jobType args) = Some p"
  using fmt_time_clock [of now]
  by (auto simp: Marshal_def MarshalJSON_def NewJob_def zero_job_def time_member_def time_opt_def)

section \<open>Guarantees\<close>



text \<open>
  C14: Rewriting a payload does not change the job.  Whatever text a worker accepts as a job, writing
  the decoded job and reading it again gives the same job, so the retry, dead and requeue paths, which
  write the decoded job back, hand on exactly what they read.
\<close>

theorem job_rewrite_stable:
  assumes "floats fl" "UnmarshalJob fl p = Some j" "Marshal j = Some q"
  shows "UnmarshalJob fl q = Some j"
  using unmarshal_marshal [OF assms(3)] decoded_ok [OF assms(1,2)] by simp

theorem job_rewrite_stable_witness:
  "\<exists>p j q. UnmarshalJob (\<lambda>_. None) p = Some j \<and> Marshal j = Some q \<and> UnmarshalJob (\<lambda>_. None) q = Some j"
proof -
  let ?j = "NewJob 7 ''id'' ''mail'' None"
  obtain s where s: "Marshal ?j = Some s"
    using Marshal_NewJob [of 7] by fastforce
  have "args_ok (\<lambda>_. None) (j_Args ?j)" "in_i64 (j_Retry ?j)" "in_i64 (j_RetryCount ?j)" "in_i64 (j_UniqueTTL ?j)" "?j\<lparr>j_raw := []\<rparr> = ?j"
    by code_simp+
  then have "UnmarshalJob (\<lambda>_. None) s = Some ?j"
    using unmarshal_marshal [OF s, of "\<lambda>_. None"] by (simp add: job_ok_def)
  then show ?thesis
    using job_rewrite_stable [of "\<lambda>_. None" s ?j s] s by (auto simp: floats_def)
qed

end
