(* ===== verification/Keys.thy ===== *)
theory Keys
  imports Prelude
begin

text \<open>
  The Redis key schema, \<^verbatim>\<open>src/internal/keys/keys.go\<close>: one definition per method of
  \<^verbatim>\<open>Keys\<close>.  Every key is the namespace followed by colon-separated parts.  The lemmas show
  that a namespace's key families cannot meet and that each family is injective in its
  argument, and name the one exception: batch ids that contain a colon.
\<close>

record keys =
  namespace :: string

definition keys_New :: "string \<Rightarrow> keys" where
  "keys_New ns = (if ns = '''' then \<lparr>namespace = ''senna''\<rparr> else \<lparr>namespace = ns\<rparr>)"

definition keys_prefix :: "keys \<Rightarrow> string list \<Rightarrow> string" where
  "keys_prefix k parts = foldl (\<lambda>key p. key @ '':'' @ p) (namespace k) parts"

definition Queue :: "keys \<Rightarrow> string \<Rightarrow> string" where
  "Queue k name = keys_prefix k [''queue'', name]"

definition Scheduled :: "keys \<Rightarrow> string" where
  "Scheduled k = keys_prefix k [''scheduled'']"

definition Retry :: "keys \<Rightarrow> string" where
  "Retry k = keys_prefix k [''retry'']"

definition Dead :: "keys \<Rightarrow> string" where
  "Dead k = keys_prefix k [''dead'']"

definition InFlight :: "keys \<Rightarrow> string \<Rightarrow> string" where
  "InFlight k workerID = keys_prefix k [''inflight'', workerID]"

definition Finalization :: "keys \<Rightarrow> string \<Rightarrow> string" where
  "Finalization k jobID = keys_prefix k [''finalization'', jobID]"

definition Workers :: "keys \<Rightarrow> string" where
  "Workers k = keys_prefix k [''workers'']"

definition Worker :: "keys \<Rightarrow> string \<Rightarrow> string" where
  "Worker k i = keys_prefix k [''worker'', i]"

definition Stats :: "keys \<Rightarrow> string" where
  "Stats k = keys_prefix k [''stats'']"

definition Queues :: "keys \<Rightarrow> string" where
  "Queues k = keys_prefix k [''queues'']"

definition Batch :: "keys \<Rightarrow> string \<Rightarrow> string" where
  "Batch k i = keys_prefix k [''batch'', i]"

definition BatchProgress :: "keys \<Rightarrow> string \<Rightarrow> string" where
  "BatchProgress k i = keys_prefix k [''batch'', i, ''progress'']"

definition BatchJobs :: "keys \<Rightarrow> string \<Rightarrow> string" where
  "BatchJobs k i = keys_prefix k [''batch'', i, ''jobs'']"

definition BatchFailed :: "keys \<Rightarrow> string \<Rightarrow> string" where
  "BatchFailed k i = keys_prefix k [''batch'', i, ''failed'']"

definition BatchCallbacks :: "keys \<Rightarrow> string \<Rightarrow> string" where
  "BatchCallbacks k i = keys_prefix k [''batch'', i, ''callbacks'']"

definition Batches :: "keys \<Rightarrow> string" where
  "Batches k = keys_prefix k [''batches'']"

definition DeadBatches :: "keys \<Rightarrow> string" where
  "DeadBatches k = keys_prefix k [''batches'', ''dead'']"

definition Unique :: "keys \<Rightarrow> string \<Rightarrow> string" where
  "Unique k key = keys_prefix k [''unique'', key]"

definition Periodic :: "keys \<Rightarrow> string" where
  "Periodic k = keys_prefix k [''periodic'']"

definition PeriodicLock :: "keys \<Rightarrow> string \<Rightarrow> string" where
  "PeriodicLock k name = keys_prefix k [''periodic'', name, ''lock'']"

definition SequentialLock :: "keys \<Rightarrow> string \<Rightarrow> string" where
  "SequentialLock k queueName = keys_prefix k [''sequential'', queueName, ''lock'']"

definition Leader :: "keys \<Rightarrow> string" where
  "Leader k = keys_prefix k [''leader'']"

definition RateLimit :: "keys \<Rightarrow> string \<Rightarrow> string list \<Rightarrow> string" where
  "RateLimit k limiterType parts = keys_prefix k ([''ratelimit'', limiterType] @ parts)"

definition IterationState :: "keys \<Rightarrow> string \<Rightarrow> string" where
  "IterationState k jobID = keys_prefix k [''iteration'', jobID]"

lemmas key_defs =
  keys_prefix_def Queue_def Scheduled_def Retry_def Dead_def InFlight_def Finalization_def
  Workers_def Worker_def Stats_def Queues_def Batch_def BatchProgress_def BatchJobs_def
  BatchFailed_def BatchCallbacks_def Batches_def DeadBatches_def Unique_def Periodic_def
  PeriodicLock_def SequentialLock_def Leader_def RateLimit_def IterationState_def

section \<open>Families are disjoint and injective\<close>

lemma keys_inj [simp]:
  "Queue k a = Queue k b \<longleftrightarrow> a = b"
  "InFlight k a = InFlight k b \<longleftrightarrow> a = b"
  "Finalization k a = Finalization k b \<longleftrightarrow> a = b"
  "Unique k a = Unique k b \<longleftrightarrow> a = b"
  "Worker k a = Worker k b \<longleftrightarrow> a = b"
  "Batch k a = Batch k b \<longleftrightarrow> a = b"
  "BatchProgress k a = BatchProgress k b \<longleftrightarrow> a = b"
  "BatchJobs k a = BatchJobs k b \<longleftrightarrow> a = b"
  "BatchFailed k a = BatchFailed k b \<longleftrightarrow> a = b"
  "BatchCallbacks k a = BatchCallbacks k b \<longleftrightarrow> a = b"
  "SequentialLock k a = SequentialLock k b \<longleftrightarrow> a = b"
  "PeriodicLock k a = PeriodicLock k b \<longleftrightarrow> a = b"
  "IterationState k a = IterationState k b \<longleftrightarrow> a = b"
  by (simp_all add: key_defs)

text \<open>The keys a job moves between: queue, in-flight list, retry, scheduled and dead set, markers.\<close>

lemma job_keys_disjoint [simp]:
  "Queue k a \<noteq> InFlight k b" "InFlight k b \<noteq> Queue k a"
  "Queue k a \<noteq> Queues k" "Queues k \<noteq> Queue k a"
  "Queue k a \<noteq> Retry k" "Retry k \<noteq> Queue k a"
  "Queue k a \<noteq> Dead k" "Dead k \<noteq> Queue k a"
  "Queue k a \<noteq> Scheduled k" "Scheduled k \<noteq> Queue k a"
  "Queue k a \<noteq> Finalization k b" "Finalization k b \<noteq> Queue k a"
  "Queue k a \<noteq> Unique k b" "Unique k b \<noteq> Queue k a"
  "Queue k a \<noteq> SequentialLock k b" "SequentialLock k b \<noteq> Queue k a"
  "Queue k a \<noteq> PeriodicLock k b" "PeriodicLock k b \<noteq> Queue k a"
  "InFlight k a \<noteq> Queues k" "Queues k \<noteq> InFlight k a"
  "InFlight k a \<noteq> Retry k" "Retry k \<noteq> InFlight k a"
  "InFlight k a \<noteq> Dead k" "Dead k \<noteq> InFlight k a"
  "InFlight k a \<noteq> Scheduled k" "Scheduled k \<noteq> InFlight k a"
  "InFlight k a \<noteq> Finalization k b" "Finalization k b \<noteq> InFlight k a"
  "InFlight k a \<noteq> Unique k b" "Unique k b \<noteq> InFlight k a"
  "InFlight k a \<noteq> SequentialLock k b" "SequentialLock k b \<noteq> InFlight k a"
  by (simp_all add: key_defs)

lemma set_keys_disjoint [simp]:
  "Retry k \<noteq> Dead k" "Dead k \<noteq> Retry k" "Retry k \<noteq> Scheduled k" "Scheduled k \<noteq> Retry k"
  "Dead k \<noteq> Scheduled k" "Scheduled k \<noteq> Dead k"
  "Retry k \<noteq> Queues k" "Queues k \<noteq> Retry k" "Dead k \<noteq> Queues k" "Queues k \<noteq> Dead k"
  "Scheduled k \<noteq> Queues k" "Queues k \<noteq> Scheduled k"
  "Retry k \<noteq> Finalization k b" "Finalization k b \<noteq> Retry k"
  "Dead k \<noteq> Finalization k b" "Finalization k b \<noteq> Dead k"
  "Scheduled k \<noteq> Finalization k b" "Finalization k b \<noteq> Scheduled k"
  "Queues k \<noteq> Finalization k b" "Finalization k b \<noteq> Queues k"
  "Retry k \<noteq> Unique k b" "Unique k b \<noteq> Retry k"
  "Dead k \<noteq> Unique k b" "Unique k b \<noteq> Dead k"
  "Scheduled k \<noteq> Unique k b" "Unique k b \<noteq> Scheduled k"
  "Queues k \<noteq> Unique k b" "Unique k b \<noteq> Queues k"
  "Queues k \<noteq> PeriodicLock k b" "PeriodicLock k b \<noteq> Queues k"
  "Finalization k a \<noteq> Unique k b" "Unique k b \<noteq> Finalization k a"
  "Finalization k a \<noteq> SequentialLock k b" "SequentialLock k b \<noteq> Finalization k a"
  by (simp_all add: key_defs)

lemma lock_keys_disjoint [simp]:
  "SequentialLock k a \<noteq> Retry k" "Retry k \<noteq> SequentialLock k a"
  "SequentialLock k a \<noteq> Dead k" "Dead k \<noteq> SequentialLock k a"
  "SequentialLock k a \<noteq> Scheduled k" "Scheduled k \<noteq> SequentialLock k a"
  "SequentialLock k a \<noteq> Queues k" "Queues k \<noteq> SequentialLock k a"
  "SequentialLock k a \<noteq> Unique k b" "Unique k b \<noteq> SequentialLock k a"
  "SequentialLock k a \<noteq> PeriodicLock k b" "PeriodicLock k b \<noteq> SequentialLock k a"
  "PeriodicLock k a \<noteq> Retry k" "Retry k \<noteq> PeriodicLock k a"
  "PeriodicLock k a \<noteq> Dead k" "Dead k \<noteq> PeriodicLock k a"
  "PeriodicLock k a \<noteq> Scheduled k" "Scheduled k \<noteq> PeriodicLock k a"
  "PeriodicLock k a \<noteq> InFlight k b" "InFlight k b \<noteq> PeriodicLock k a"
  "PeriodicLock k a \<noteq> Unique k b" "Unique k b \<noteq> PeriodicLock k a"
  "PeriodicLock k a \<noteq> Finalization k b" "Finalization k b \<noteq> PeriodicLock k a"
  by (simp_all add: key_defs)

text \<open>The prefixes handed to scripts name the same keys.\<close>

lemma key_prefixes [simp]:
  "Queue k [] @ q = Queue k q" "InFlight k [] @ w = InFlight k w" "Finalization k [] @ j = Finalization k j"
  by (simp_all add: key_defs)

lemma append_suffix_drop:
  "xs @ u = ys @ v \<Longrightarrow> length u \<le> length v \<Longrightarrow> drop (length v - length u) v = u"
proof -
  assume eq: "xs @ u = ys @ v" and len: "length u \<le> length v"
  have l: "length xs + length u = length ys + length v"
    using arg_cong [OF eq, of length] by simp
  then have n: "length xs - length ys = length v - length u" and "length ys \<le> length xs"
    using len by auto
  have "u = drop (length xs) (xs @ u)"
    by simp
  also have "\<dots> = drop (length xs) (ys @ v)"
    using eq by simp
  also have "\<dots> = drop (length v - length u) v"
    using \<open>length ys \<le> length xs\<close> by (simp add: n)
  finally show ?thesis by simp
qed

lemma suffix_clash:
  "length u \<le> length v \<Longrightarrow> drop (length v - length u) v \<noteq> u \<Longrightarrow> xs @ u \<noteq> ys @ v \<and> ys @ v \<noteq> xs @ u"
  using append_suffix_drop by metis

lemma batch_keys_disjoint [simp]:
  "BatchProgress k a \<noteq> BatchJobs k b" "BatchJobs k b \<noteq> BatchProgress k a"
  "BatchProgress k a \<noteq> BatchFailed k b" "BatchFailed k b \<noteq> BatchProgress k a"
  "BatchProgress k a \<noteq> BatchCallbacks k b" "BatchCallbacks k b \<noteq> BatchProgress k a"
  "BatchJobs k a \<noteq> BatchFailed k b" "BatchFailed k b \<noteq> BatchJobs k a"
  "BatchJobs k a \<noteq> BatchCallbacks k b" "BatchCallbacks k b \<noteq> BatchJobs k a"
  "BatchFailed k a \<noteq> BatchCallbacks k b" "BatchCallbacks k b \<noteq> BatchFailed k a"
  using suffix_clash [of "'':jobs''" "'':progress''" b a] suffix_clash [of "'':failed''" "'':progress''" b a]
    suffix_clash [of "'':progress''" "'':callbacks''" a b] suffix_clash [of "'':jobs''" "'':failed''" a b]
    suffix_clash [of "'':jobs''" "'':callbacks''" a b] suffix_clash [of "'':failed''" "'':callbacks''" a b]
  by (simp_all add: key_defs)

text \<open>
  A batch's document shares its family with the batch's other keys: the document of a batch whose
  id ends in \<^verbatim>\<open>:progress\<close> is the progress hash of another batch.  Ids without a colon, such as the
  UUIDs Senna generates, are safe.
\<close>

lemma batch_document_clash: "Batch k a = BatchProgress k b \<longleftrightarrow> a = b @ '':progress''"
  by (simp add: key_defs)

lemma batch_document_disjoint:
  "CHR '':'' \<notin> set a \<Longrightarrow> Batch k a \<noteq> BatchProgress k b \<and> Batch k a \<noteq> BatchJobs k b \<and>
     Batch k a \<noteq> BatchFailed k b \<and> Batch k a \<noteq> BatchCallbacks k b"
  by (auto simp: key_defs)

end
