(* ===== verification/QueueScripts.thy ===== *)
theory QueueScripts
  imports Redis Json
begin

text \<open>
  The Lua scripts that move a job payload between the keys of a queue:
  \<^verbatim>\<open>src/worker/lua/*.lua\<close>, the enqueue scripts of \<^verbatim>\<open>src/internal/lua\<close> and the periodic slot
  script.  Each script is a function of \<^verbatim>\<open>KEYS\<close> and \<^verbatim>\<open>ARGV\<close>, written call by call; Lua's
  one-based indices become zero-based list positions.

  \<^verbatim>\<open>cjson\<close> belongs to the server and is the record parameter \<open>cjson\<close>; a decoded table is a
  \<open>json\<close> value whose last binding of a key wins, and \<open>None\<close> is a raised Lua error.  \<open>cj_number\<close> is the
  text that a number read from a document has when it is passed to a command.

  The lemmas give every script's complete effect on a key space of the expected types, and that a
  key of another type makes the script fail without a write.
\<close>

record cjson =
  cj_decode :: "string \<Rightarrow> json option"
  cj_encode :: "json \<Rightarrow> string option"
  cj_number :: "string \<Rightarrow> string"

section \<open>Lua vocabulary\<close>

definition reply_int :: "rreply \<Rightarrow> int" where
  "reply_int r = (case r of RInt i \<Rightarrow> i | _ \<Rightarrow> 0)"

definition reply_str :: "rreply \<Rightarrow> string" where
  "reply_str r = (case r of RBulk s \<Rightarrow> s | _ \<Rightarrow> [])"

definition bulks :: "rreply \<Rightarrow> string list" where
  "bulks r = (case r of RArr rs \<Rightarrow> map reply_str rs | _ \<Rightarrow> [])"

definition lwhen :: "bool \<Rightarrow> rcmd \<Rightarrow> lua \<Rightarrow> lua" where
  "lwhen b c cont = (if b then LCall c (\<lambda>_. cont) else cont)"

definition tonumber :: "string \<Rightarrow> (int \<Rightarrow> lua) \<Rightarrow> lua" where
  "tonumber s cont = (case parse_int s of Some i \<Rightarrow> cont i | None \<Rightarrow> LErr ''value is not a valid number'')"

text \<open>\<^verbatim>\<open>redis.call("TYPE", k).ok == "string" and redis.call("GET", k) == v\<close>\<close>

definition holds_string :: "string \<Rightarrow> string \<Rightarrow> (bool \<Rightarrow> lua) \<Rightarrow> lua" where
  "holds_string k v cont = LCall (cTYPE k) (\<lambda>t.
     if status t = ''string'' then LCall (cGET k) (\<lambda>r. cont (r = RBulk v)) else cont False)"

definition is_table :: "json \<Rightarrow> bool" where
  "is_table j = (case j of JObj _ \<Rightarrow> True | JArr _ \<Rightarrow> True | _ \<Rightarrow> False)"

definition table_field :: "json \<Rightarrow> string \<Rightarrow> json option" where
  "table_field j f = (case j of JObj ms \<Rightarrow> map_of (rev ms) f | _ \<Rightarrow> None)"

definition table_without :: "string \<Rightarrow> json \<Rightarrow> json" where
  "table_without f j = (case j of JObj ms \<Rightarrow> JObj (filter (\<lambda>p. fst p \<noteq> f) ms) | _ \<Rightarrow> j)"

definition nonempty_str_field :: "json \<Rightarrow> string \<Rightarrow> string option" where
  "nonempty_str_field j f = (case table_field j f of
      Some (JStr s) \<Rightarrow> if s \<noteq> [] then Some s else None | _ \<Rightarrow> None)"

section \<open>Acknowledging\<close>

definition ack_job :: "string list \<Rightarrow> string list \<Rightarrow> lua" where
  "ack_job KEYS ARGV =
     want ''in-flight key'' ''list'' (KEYS ! 0)
       ((\<lambda>cont. if 3 \<le> length KEYS \<and> 2 \<le> length ARGV
                then holds_string (KEYS ! 2) (ARGV ! 1) cont else cont False)
        (\<lambda>delete_unique_key.
           LCall (cLREM (KEYS ! 0) (ARGV ! 0)) (\<lambda>removed.
             if 0 < reply_int removed
             then lwhen (2 \<le> length KEYS) (cDEL [KEYS ! 1])
                   (lwhen delete_unique_key (cDEL [KEYS ! 2]) (LRet removed))
             else LRet removed)))"

definition retry_job :: "string list \<Rightarrow> string list \<Rightarrow> lua" where
  "retry_job KEYS ARGV =
     want ''in-flight key'' ''list'' (KEYS ! 0)
      (want ''retry key'' ''zset'' (KEYS ! 1)
        (LCall (cLREM (KEYS ! 0) (ARGV ! 0)) (\<lambda>removed.
           if 0 < reply_int removed
           then lwhen (3 \<le> length KEYS) (cDEL [KEYS ! 2])
                 (tonumber (ARGV ! 1) (\<lambda>score.
                   LCall (cZADD (KEYS ! 1) [(score, ARGV ! 2)]) (\<lambda>_. LRet removed)))
           else LRet removed)))"

definition move_to_dead_job :: "string list \<Rightarrow> string list \<Rightarrow> lua" where
  "move_to_dead_job KEYS ARGV =
     want ''in-flight key'' ''list'' (KEYS ! 0)
      (want ''dead key'' ''zset'' (KEYS ! 1)
        ((\<lambda>cont. if 4 \<le> length KEYS \<and> 4 \<le> length ARGV
                 then holds_string (KEYS ! 3) (ARGV ! 3) cont else cont False)
         (\<lambda>delete_unique_key.
            LCall (cLREM (KEYS ! 0) (ARGV ! 0)) (\<lambda>removed.
              if 0 < reply_int removed
              then lwhen (3 \<le> length KEYS) (cDEL [KEYS ! 2])
                    (lwhen delete_unique_key (cDEL [KEYS ! 3])
                      (tonumber (ARGV ! 1) (\<lambda>score.
                        LCall (cZADD (KEYS ! 1) [(score, ARGV ! 2)]) (\<lambda>_. LRet removed))))
              else LRet removed))))"

definition requeue_job :: "string list \<Rightarrow> string list \<Rightarrow> lua" where
  "requeue_job KEYS ARGV =
     want ''in-flight key'' ''list'' (KEYS ! 0)
      (want ''queue key'' ''list'' (KEYS ! 1)
        (LCall (cLREM (KEYS ! 0) (ARGV ! 0)) (\<lambda>removed.
           lwhen (0 < reply_int removed) (cLPUSH (KEYS ! 1) [ARGV ! 1]) (LRet removed))))"

section \<open>Fetching\<close>

definition trusted_finalization :: "string \<Rightarrow> string \<Rightarrow> json \<Rightarrow> (bool \<Rightarrow> lua) \<Rightarrow> lua" where
  "trusted_finalization finalization_prefix payload job cont =
     (case (map_option is_table (table_field job ''finalization''), nonempty_str_field job ''jid'') of
        (Some True, Some jid) \<Rightarrow> holds_string (finalization_prefix @ jid) payload cont
      | _ \<Rightarrow> cont False)"

definition strip_untrusted :: "cjson \<Rightarrow> string \<Rightarrow> string \<Rightarrow> (string \<Rightarrow> lua) \<Rightarrow> lua" where
  "strip_untrusted cj finalization_prefix payload cont =
     (case cj_decode cj payload of
        None \<Rightarrow> cont payload
      | Some job \<Rightarrow>
          if is_table job \<and> table_field job ''finalization'' \<noteq> None
          then trusted_finalization finalization_prefix payload job (\<lambda>trusted.
                 if trusted then cont payload
                 else (case cj_encode cj (table_without ''finalization'' job) of
                         Some text \<Rightarrow> cont text
                       | None \<Rightarrow> LErr ''Cannot serialise''))
          else cont payload)"

definition fetch_job :: "cjson \<Rightarrow> string list \<Rightarrow> string list \<Rightarrow> lua" where
  "fetch_job cj KEYS ARGV =
     want ''queue key'' ''list'' (KEYS ! 0)
      (want ''in-flight key'' ''list'' (KEYS ! 1)
        (LCall (cRPOP (KEYS ! 0)) (\<lambda>payload.
           case payload of
             RBulk payload \<Rightarrow>
               strip_untrusted cj (ARGV ! 0) payload (\<lambda>in_flight_payload.
                 LCall (cLPUSH (KEYS ! 1) [in_flight_payload]) (\<lambda>_.
                   LRet (RArr [RBulk ''job'', RBulk in_flight_payload])))
           | _ \<Rightarrow> LRet (RArr [RBulk ''empty'', RBulk []]))))"

definition replace_at :: "string \<Rightarrow> string \<Rightarrow> string \<Rightarrow> (bool \<Rightarrow> lua) \<Rightarrow> lua" where
  "replace_at k old new cont = LCall (cLPOS k old) (\<lambda>index.
     case index of RInt i \<Rightarrow> LCall (cLSET k i new) (\<lambda>_. cont True) | _ \<Rightarrow> cont False)"

definition sequential_fetch :: "cjson \<Rightarrow> string list \<Rightarrow> string list \<Rightarrow> lua" where
  "sequential_fetch cj KEYS ARGV =
     want ''queue key'' ''list'' (KEYS ! 0)
      (want ''in-flight key'' ''list'' (KEYS ! 1)
        (LCall (cGET (KEYS ! 2)) (\<lambda>holder.
           if holder \<noteq> RNil \<and> holder \<noteq> RBulk (ARGV ! 0)
           then LRet (RArr [RBulk ''locked'', RBulk []])
           else
             LCall (cLMOVE (KEYS ! 0) (KEYS ! 1)) (\<lambda>job.
               case job of
                 RBulk job \<Rightarrow>
                   strip_untrusted cj (ARGV ! 2) job (\<lambda>in_flight_payload.
                     (\<lambda>cont. if in_flight_payload \<noteq> job
                              then replace_at (KEYS ! 1) job in_flight_payload (\<lambda>_. cont) else cont)
                     (tonumber (ARGV ! 1) (\<lambda>lock_ttl.
                       LCall (cSET_PX (KEYS ! 2) (ARGV ! 0) lock_ttl) (\<lambda>_.
                         LRet (RArr [RBulk ''job'', RBulk in_flight_payload])))))
               | _ \<Rightarrow> LRet (RArr [RBulk ''empty'', RBulk []])))))"

definition release_sequential_lock :: "string list \<Rightarrow> string list \<Rightarrow> lua" where
  "release_sequential_lock KEYS ARGV =
     LCall (cGET (KEYS ! 0)) (\<lambda>v.
       if v = RBulk (ARGV ! 0) then LCall (cDEL [KEYS ! 0]) LRet else LRet (RInt 0))"

definition discard_sequential_fetch :: "string list \<Rightarrow> string list \<Rightarrow> lua" where
  "discard_sequential_fetch KEYS ARGV =
     want ''in-flight key'' ''list'' (KEYS ! 0)
      (LCall (cLREM (KEYS ! 0) (ARGV ! 0)) (\<lambda>removed.
         LCall (cGET (KEYS ! 1)) (\<lambda>v.
           lwhen (v = RBulk (ARGV ! 1)) (cDEL [KEYS ! 1]) (LRet removed))))"

definition sanitize_job_finalization :: "string list \<Rightarrow> string list \<Rightarrow> lua" where
  "sanitize_job_finalization KEYS ARGV =
     want ''in-flight key'' ''list'' (KEYS ! 0)
      (replace_at (KEYS ! 0) (ARGV ! 0) (ARGV ! 1) (\<lambda>found. LRet (RInt (if found then 1 else 0))))"

definition mark_in :: "string list \<Rightarrow> string list \<Rightarrow> string \<Rightarrow> int \<Rightarrow> lua \<Rightarrow> lua" where
  "mark_in KEYS ARGV key code otherwise =
     (let mark_trusted = lwhen (3 \<le> length KEYS) (cSET (KEYS ! 2) (ARGV ! 1)) (LRet (RInt code))
      in replace_at key (ARGV ! 0) (ARGV ! 1) (\<lambda>replaced.
           if replaced then mark_trusted
           else LCall (cLPOS key (ARGV ! 1)) (\<lambda>index.
                  case index of RInt _ \<Rightarrow> mark_trusted | _ \<Rightarrow> otherwise)))"

definition mark_job_finalization :: "string list \<Rightarrow> string list \<Rightarrow> lua" where
  "mark_job_finalization KEYS ARGV =
     want ''in-flight key'' ''list'' (KEYS ! 0)
      (mark_in KEYS ARGV (KEYS ! 0) 1
        (if 2 \<le> length KEYS
         then want ''queue key'' ''list'' (KEYS ! 1) (mark_in KEYS ARGV (KEYS ! 1) 2 (LRet (RInt 0)))
         else LRet (RInt 0)))"

section \<open>Scheduled jobs and orphans\<close>

text \<open>
  The queue a decoded payload names: a missing field means the default queue, a value of another
  type makes the payload unsupported.
\<close>

definition target_queue :: "json \<Rightarrow> string option" where
  "target_queue job = (case table_field job ''queue'' of
      None \<Rightarrow> Some ''default'' | Some (JStr q) \<Rightarrow> Some q | Some _ \<Rightarrow> None)"

definition sched_target :: "cjson \<Rightarrow> string \<Rightarrow> string option" where
  "sched_target cj payload = (case cj_decode cj payload of
      Some job \<Rightarrow> if is_table job then target_queue job else None | None \<Rightarrow> None)"

fun check_sched_queues :: "cjson \<Rightarrow> string \<Rightarrow> string list \<Rightarrow> ((string \<times> string) list \<Rightarrow> lua) \<Rightarrow> lua" where
  "check_sched_queues cj queue_prefix [] cont = cont []"
| "check_sched_queues cj queue_prefix (payload # items) cont =
     (case sched_target cj payload of
        Some queue \<Rightarrow> want ''queue key'' ''list'' (queue_prefix @ queue)
          (check_sched_queues cj queue_prefix items (\<lambda>targets. cont ((queue, payload) # targets)))
      | None \<Rightarrow> check_sched_queues cj queue_prefix items cont)"

fun zrem_all :: "string \<Rightarrow> string list \<Rightarrow> lua \<Rightarrow> lua" where
  "zrem_all k [] cont = cont"
| "zrem_all k (payload # items) cont = LCall (cZREM k payload) (\<lambda>_. zrem_all k items cont)"

fun push_targets :: "string \<Rightarrow> string \<Rightarrow> (string \<times> string) list \<Rightarrow> lua \<Rightarrow> lua" where
  "push_targets queues_key queue_prefix [] cont = cont"
| "push_targets queues_key queue_prefix ((queue, payload) # targets) cont =
     LCall (cSADD queues_key [queue]) (\<lambda>_.
       LCall (cLPUSH (queue_prefix @ queue) [payload]) (\<lambda>_.
         push_targets queues_key queue_prefix targets cont))"

definition promote :: "string \<Rightarrow> string \<Rightarrow> string \<Rightarrow> string list \<Rightarrow> (string \<times> string) list \<Rightarrow> lua" where
  "promote zset_key queues_key queue_prefix items targets =
     (\<lambda>cont. if targets \<noteq> [] then want ''queues key'' ''set'' queues_key cont else cont)
     (zrem_all zset_key items
       (push_targets queues_key queue_prefix targets (LRet (RInt (int (length targets))))))"

definition enqueue_scheduled :: "cjson \<Rightarrow> string list \<Rightarrow> string list \<Rightarrow> lua" where
  "enqueue_scheduled cj KEYS ARGV =
     tonumber (ARGV ! 0) (\<lambda>limit.
       LCall cTIME (\<lambda>redis_time. tonumber (bulks redis_time ! 0) (\<lambda>max_score.
         LCall (cTYPE (KEYS ! 0)) (\<lambda>zset_type.
           if status zset_type = ''none'' then LRet (RInt 0)
           else if status zset_type \<noteq> ''zset''
           then LErr (''source key has type '' @ status zset_type @ '', want zset'')
           else
             LCall (cZRANGEBYSCORE (KEYS ! 0) max_score (nat limit)) (\<lambda>items.
               if bulks items = [] then LRet (RInt 0)
               else check_sched_queues cj (ARGV ! 1) (bulks items)
                      (promote (KEYS ! 0) (KEYS ! 1) (ARGV ! 1) (bulks items)))))))"

text \<open>A reaped payload: queue, payload, job id and whether it carries a finalization table.\<close>

type_synonym orphan = "string \<times> string \<times> string \<times> bool"

definition orphan_target :: "cjson \<Rightarrow> string \<Rightarrow> orphan option" where
  "orphan_target cj payload = (case cj_decode cj payload of
      None \<Rightarrow> None
    | Some job \<Rightarrow>
        if is_table job
        then (case (nonempty_str_field job ''jid'', nonempty_str_field job ''class'', target_queue job) of
                (Some jid, Some _, Some queue) \<Rightarrow>
                  Some (queue, payload, jid,
                        case table_field job ''finalization'' of Some f \<Rightarrow> is_table f | None \<Rightarrow> False)
              | _ \<Rightarrow> None)
        else None)"

fun check_orphan_queues :: "cjson \<Rightarrow> string \<Rightarrow> string list \<Rightarrow> (orphan list \<Rightarrow> lua) \<Rightarrow> lua" where
  "check_orphan_queues cj queue_prefix [] cont = cont []"
| "check_orphan_queues cj queue_prefix (payload # jobs) cont =
     (case orphan_target cj payload of
        Some t \<Rightarrow> want ''queue key'' ''list'' (queue_prefix @ fst t)
          (check_orphan_queues cj queue_prefix jobs (\<lambda>targets. cont (t # targets)))
      | None \<Rightarrow> check_orphan_queues cj queue_prefix jobs cont)"

fun push_orphans :: "string \<Rightarrow> string \<Rightarrow> string \<Rightarrow> orphan list \<Rightarrow> lua \<Rightarrow> lua" where
  "push_orphans queues_key queue_prefix finalization_prefix [] cont = cont"
| "push_orphans queues_key queue_prefix finalization_prefix ((queue, payload, jid, finalized) # targets) cont =
     LCall (cSADD queues_key [queue]) (\<lambda>_.
       LCall (cLPUSH (queue_prefix @ queue) [payload]) (\<lambda>_.
         lwhen finalized (cSET (finalization_prefix @ jid) payload)
           (push_orphans queues_key queue_prefix finalization_prefix targets cont)))"

definition requeue_orphaned :: "cjson \<Rightarrow> string list \<Rightarrow> string list \<Rightarrow> lua" where
  "requeue_orphaned cj KEYS ARGV =
     LCall (cTYPE (KEYS ! 0)) (\<lambda>inflight_type.
       if status inflight_type = ''none'' then LRet (RInt 0)
       else if status inflight_type \<noteq> ''list''
       then LErr (''in-flight key has type '' @ status inflight_type @ '', want list'')
       else
         want ''queues key'' ''set'' (KEYS ! 1)
          (LCall (cLRANGE_ALL (KEYS ! 0)) (\<lambda>jobs.
             if bulks jobs = [] then LCall (cDEL [KEYS ! 0]) (\<lambda>_. LRet (RInt 0))
             else
               check_orphan_queues cj (ARGV ! 0) (bulks jobs) (\<lambda>targets.
                 push_orphans (KEYS ! 1) (ARGV ! 0) (ARGV ! 1) targets
                   (LCall (cDEL [KEYS ! 0]) (\<lambda>_. LRet (RInt (int (length targets)))))))))"

section \<open>Enqueueing\<close>

definition enqueue_now :: "string list \<Rightarrow> string list \<Rightarrow> lua" where
  "enqueue_now KEYS ARGV =
     want ''queues key'' ''set'' (KEYS ! 0)
      (want ''queue key'' ''list'' (KEYS ! 1)
        (LCall (cSADD (KEYS ! 0) [ARGV ! 0]) (\<lambda>_.
           LCall (cLPUSH (KEYS ! 1) [ARGV ! 1]) (\<lambda>_. LRet (RInt 1)))))"

text \<open>The opening of the claiming scripts: a string key is a held claim.\<close>

definition unless_claimed :: "string \<Rightarrow> string \<Rightarrow> lua \<Rightarrow> lua" where
  "unless_claimed what k cont = LCall (cTYPE k) (\<lambda>t.
     if status t \<noteq> ''none'' \<and> status t \<noteq> ''string''
     then LErr (what @ '' has type '' @ status t @ '', want string'')
     else if status t = ''string'' then LRet (RInt 0) else cont)"

definition claim :: "rcmd \<Rightarrow> lua \<Rightarrow> lua" where
  "claim set_nx cont = LCall set_nx (\<lambda>claimed. if claimed = RNil then LRet (RInt 0) else cont)"

definition enqueue_unique_now :: "string list \<Rightarrow> string list \<Rightarrow> lua" where
  "enqueue_unique_now KEYS ARGV =
     unless_claimed ''unique key'' (KEYS ! 0)
      (want ''queues key'' ''set'' (KEYS ! 1)
        (want ''queue key'' ''list'' (KEYS ! 2)
          (tonumber (ARGV ! 1) (\<lambda>ttl.
            claim (cSET_NX_PX (KEYS ! 0) (ARGV ! 0) ttl)
             (LCall (cSADD (KEYS ! 1) [ARGV ! 2]) (\<lambda>_.
                LCall (cLPUSH (KEYS ! 2) [ARGV ! 3]) (\<lambda>_. LRet (RInt 1))))))))"

definition enqueue_unique_at :: "string list \<Rightarrow> string list \<Rightarrow> lua" where
  "enqueue_unique_at KEYS ARGV =
     unless_claimed ''unique key'' (KEYS ! 0)
      (want ''scheduled key'' ''zset'' (KEYS ! 1)
        (tonumber (ARGV ! 1) (\<lambda>ttl.
          claim (cSET_NX_PX (KEYS ! 0) (ARGV ! 0) ttl)
           (tonumber (ARGV ! 2) (\<lambda>score.
             LCall (cZADD (KEYS ! 1) [(score, ARGV ! 3)]) (\<lambda>_. LRet (RInt 1)))))))"

definition periodic_enqueue :: "string list \<Rightarrow> string list \<Rightarrow> lua" where
  "periodic_enqueue KEYS ARGV =
     unless_claimed ''periodic lock key'' (KEYS ! 0)
      (want ''queues key'' ''set'' (KEYS ! 1)
        (want ''queue key'' ''list'' (KEYS ! 2)
          (tonumber (ARGV ! 1) (\<lambda>ttl.
            claim (cSET_NX_EX (KEYS ! 0) (ARGV ! 0) ttl)
             (LCall (cSADD (KEYS ! 1) [ARGV ! 2]) (\<lambda>_.
                LCall (cLPUSH (KEYS ! 2) [ARGV ! 3]) (\<lambda>_. LRet (RInt 1))))))))"

section \<open>Running the vocabulary\<close>

lemma run_lwhen [simp]:
  "run_lua exec (lwhen b (cDEL ks) cont) d = run_lua exec cont (if b then fold drop_key ks d else d)"
  "run_lua exec (lwhen b (cSET k v) cont) d = run_lua exec cont (if b then set_str k v None d else d)"
  by (simp_all add: lwhen_def)

lemma run_lwhen_push [simp]:
  "b \<longrightarrow> listy d k \<Longrightarrow>
   run_lua exec (lwhen b (cLPUSH k vs) cont) d =
     run_lua exec cont (if b then put k (VList (rev vs @ lst d k)) d else d)"
  by (simp add: lwhen_def redis_simps)

lemma run_tonumber [simp]: "run_lua exec (tonumber (string_of_int i) cont) d = run_lua exec (cont i) d"
  by (simp add: tonumber_def)

lemma string_iff_str: "rtype d k = ''string'' \<longleftrightarrow> (\<exists>s. str d k = Some s)"
  by (auto simp: key_views split: option.splits rval.splits)

lemma run_holds_string [simp]:
  "run_lua exec (holds_string k v cont) d = run_lua exec (cont (str d k = Some v)) d"
proof (cases "rtype d k = ''string''")
  case True
  then obtain s where "str d k = Some s"
    by (auto simp: string_iff_str)
  moreover from True have "stringy d k"
    by (simp add: stringy_def)
  ultimately show ?thesis
    using True by (simp add: holds_string_def status_def redis_simps bulk_def)
next
  case False
  then have "str d k = None"
    using string_iff_str by (cases "str d k") auto
  then show ?thesis
    using False by (simp add: holds_string_def status_def)
qed

lemma with_str_not: "\<not> stringy d k \<Longrightarrow> with_str d k f = (wrongtype, d)"
  by (auto simp: stringy_def with_str_def key_views split: option.splits rval.splits)

lemma run_replace_at [simp]:
  "listy d k \<Longrightarrow>
   run_lua exec (replace_at k old new cont) d =
     (case index_of old (lst d k) of
        None \<Rightarrow> run_lua exec (cont False) d
      | Some i \<Rightarrow> run_lua exec (cont True) (put k (VList ((lst d k)[i := new])) d))"
  using index_of_Some [of old "lst d k"]
  by (auto simp: replace_at_def redis_simps split: option.splits)

lemma reply_int_RInt [simp]: "reply_int (RInt i) = i"
  by (simp add: reply_int_def)

lemma bulks_map [simp]: "bulks (RArr (map RBulk xs)) = xs"
  by (induction xs) (simp_all add: bulks_def reply_str_def)

lemma enum_free_vocabulary [simp]:
  "enum_free (lwhen b c cont) \<longleftrightarrow> (if b then \<not> enum_cmd c \<and> enum_free cont else enum_free cont)"
  "enum_free (tonumber s f) \<longleftrightarrow> (\<forall>i. parse_int s = Some i \<longrightarrow> enum_free (f i))"
  by (auto simp: lwhen_def tonumber_def split: option.splits)

lemma enum_free_holds_string [simp]: "(\<And>b. enum_free (f b)) \<Longrightarrow> enum_free (holds_string k v f)"
  by (simp add: holds_string_def)

lemma enum_free_replace_at [simp]: "(\<And>b. enum_free (f b)) \<Longrightarrow> enum_free (replace_at k x y f)"
  by (simp add: replace_at_def split: rreply.splits)

section \<open>Effects of the acknowledging scripts\<close>

text \<open>Removing one occurrence of a payload from an in-flight list.\<close>

definition take_inflight :: "string \<Rightarrow> string \<Rightarrow> db \<Rightarrow> db" where
  "take_inflight k p d = put k (VList (remove1 p (lst d k))) d"

lemma run_ack_job:
  assumes "listy d fl"
  shows "run_lua exec (ack_job [fl, fin] [p, jid]) d =
     (if p \<in> set (lst d fl) then (Inr (RInt 1), drop_key fin (take_inflight fl p d))
      else (Inr (RInt 0), d))"
    and "run_lua exec (ack_job [fl, fin, uniq] [p, jid]) d =
     (if p \<in> set (lst d fl)
      then (Inr (RInt 1), if str d uniq = Some jid then drop_key uniq (drop_key fin (take_inflight fl p d))
                          else drop_key fin (take_inflight fl p d))
      else (Inr (RInt 0), d))"
  using assms by (simp_all add: ack_job_def redis_simps take_inflight_def)

lemma run_retry_job:
  assumes "listy d fl" "zsetty d ret" "fl \<noteq> ret" "fin \<noteq> ret"
  shows "run_lua exec (retry_job [fl, ret, fin] [p, string_of_int score, newp]) d =
     (if p \<in> set (lst d fl)
      then (Inr (RInt 1), put ret (VZset (zadd1 (zst d ret) (score, newp))) (drop_key fin (take_inflight fl p d)))
      else (Inr (RInt 0), d))"
  using assms by (simp add: retry_job_def redis_simps take_inflight_def)

lemma run_move_to_dead_job:
  assumes "listy d fl" "zsetty d dead" "fl \<noteq> dead" "fin \<noteq> dead"
  shows "run_lua exec (move_to_dead_job [fl, dead, fin] [p, string_of_int score, newp, jid]) d =
     (if p \<in> set (lst d fl)
      then (Inr (RInt 1), put dead (VZset (zadd1 (zst d dead) (score, newp))) (drop_key fin (take_inflight fl p d)))
      else (Inr (RInt 0), d))"
    and "uniq \<noteq> dead \<Longrightarrow>
     run_lua exec (move_to_dead_job [fl, dead, fin, uniq] [p, string_of_int score, newp, jid]) d =
     (if p \<in> set (lst d fl)
      then (Inr (RInt 1), put dead (VZset (zadd1 (zst d dead) (score, newp)))
              (let d1 = drop_key fin (take_inflight fl p d)
               in if str d uniq = Some jid then drop_key uniq d1 else d1))
      else (Inr (RInt 0), d))"
  using assms by (simp_all add: move_to_dead_job_def redis_simps take_inflight_def Let_def)

lemma run_requeue_job:
  assumes "listy d fl" "listy d q" "fl \<noteq> q"
  shows "run_lua exec (requeue_job [fl, q] [p, newp]) d =
     (if p \<in> set (lst d fl)
      then (Inr (RInt 1), put q (VList (newp # lst d q)) (take_inflight fl p d))
      else (Inr (RInt 0), d))"
  using assms by (simp add: requeue_job_def redis_simps take_inflight_def)

section \<open>Effects of the fetching scripts\<close>

text \<open>
  The payload that goes in flight: a finalization marker that the trust key does not vouch for is
  removed.  \<open>None\<close> is the script error of a document that cannot be encoded again.
\<close>

definition vouched :: "string \<Rightarrow> string \<Rightarrow> json \<Rightarrow> db \<Rightarrow> bool" where
  "vouched pre payload job d =
     (case (map_option is_table (table_field job ''finalization''), nonempty_str_field job ''jid'') of
        (Some True, Some jid) \<Rightarrow> str d (pre @ jid) = Some payload | _ \<Rightarrow> False)"

definition stripped :: "cjson \<Rightarrow> string \<Rightarrow> string \<Rightarrow> db \<Rightarrow> string option" where
  "stripped cj pre payload d =
     (case cj_decode cj payload of
        None \<Rightarrow> Some payload
      | Some job \<Rightarrow>
          if is_table job \<and> table_field job ''finalization'' \<noteq> None \<and> \<not> vouched pre payload job d
          then cj_encode cj (table_without ''finalization'' job) else Some payload)"

lemma run_strip_untrusted [simp]:
  "run_lua exec (strip_untrusted cj pre p cont) d =
     (case stripped cj pre p d of
        Some t \<Rightarrow> run_lua exec (cont t) d | None \<Rightarrow> (Inl ''Cannot serialise'', d))"
  by (auto simp: strip_untrusted_def stripped_def trusted_finalization_def vouched_def
      split: option.splits bool.splits)

lemma listy_str [simp]: "listy d k \<Longrightarrow> str d k = None"
  by (auto simp: listy_def key_views split: option.splits rval.splits)

lemma run_fetch_job_empty:
  assumes "listy d q" "listy d fl" "lst d q = []"
  shows "run_lua exec (fetch_job cj [q, fl] [pre]) d = (Inr (RArr [RBulk ''empty'', RBulk []]), d)"
  using assms by (simp add: fetch_job_def redis_simps)

lemma str_put_list: "listy d k \<Longrightarrow> str (put k (VList xs) d) = str d"
  by (auto simp: redis_simps)

lemma stripped_cong:
  assumes "str d' = str d"
  shows "stripped cj pre p d' = stripped cj pre p d"
  unfolding stripped_def vouched_def assms ..

lemma stripped_put_list: "listy d k \<Longrightarrow> stripped cj pre p (put k (VList xs) d) = stripped cj pre p d"
  by (rule stripped_cong) (rule str_put_list)

lemma put_put_same: "\<not> empty_val w \<Longrightarrow> put k v (put k w d) = put k v d"
  by (simp add: put_def drop_key_def)

lemma run_fetch_job:
  assumes "listy d q" "listy d fl" "q \<noteq> fl" "lst d q = xs @ [p]"
  shows "run_lua exec (fetch_job cj [q, fl] [pre]) d =
     (case stripped cj pre p d of
        Some t \<Rightarrow> (Inr (RArr [RBulk ''job'', RBulk t]), put fl (VList (t # lst d fl)) (put q (VList xs) d))
      | None \<Rightarrow> (Inl ''Cannot serialise'', put q (VList xs) d))"
  using assms by (auto simp: fetch_job_def redis_simps stripped_put_list split: option.splits)

lemma index_of_hd [simp]: "index_of x (x # xs) = Some 0"
  by simp

lemma run_sequential_fetch_locked:
  assumes "listy d q" "listy d fl" "str d lock = Some w'" "w' \<noteq> w"
  shows "run_lua exec (sequential_fetch cj [q, fl, lock] [w, ttl, pre]) d =
     (Inr (RArr [RBulk ''locked'', RBulk []]), d)"
proof -
  have "stringy d lock"
    using assms(3) string_iff_str by (auto simp: stringy_def)
  then show ?thesis
    using assms by (simp add: sequential_fetch_def redis_simps bulk_def)
qed

lemma run_sequential_fetch_empty:
  assumes "listy d q" "listy d fl" "stringy d lock" "str d lock \<in> {None, Some w}" "lst d q = []"
  shows "run_lua exec (sequential_fetch cj [q, fl, lock] [w, ttl, pre]) d =
     (Inr (RArr [RBulk ''empty'', RBulk []]), d)"
  using assms by (auto simp: sequential_fetch_def redis_simps bulk_def)

lemma run_sequential_fetch:
  assumes "listy d q" "listy d fl" "q \<noteq> fl" "stringy d lock" "str d lock \<in> {None, Some w}"
    "lst d q = xs @ [p]" "lock \<noteq> fl" "0 < ttl"
  shows "run_lua exec (sequential_fetch cj [q, fl, lock] [w, string_of_int ttl, pre]) d =
     (case stripped cj pre p d of
        Some t \<Rightarrow> (Inr (RArr [RBulk ''job'', RBulk t]),
                   set_str lock w (Some (clock_us d + ttl * 1000))
                     (put fl (VList (t # lst d fl)) (put q (VList xs) d)))
      | None \<Rightarrow> (Inl ''Cannot serialise'', put fl (VList (p # lst d fl)) (put q (VList xs) d)))"
proof -
  have strip: "stripped cj pre p (put fl (VList ys) (put q (VList zs) d)) = stripped cj pre p d" for ys zs
    using assms by (simp add: stripped_put_list redis_simps)
  show ?thesis
    using assms
    by (auto simp: sequential_fetch_def redis_simps bulk_def strip Let_def put_put_same split: option.splits)
qed

lemma run_sanitize_job_finalization:
  "listy d fl \<Longrightarrow> run_lua exec (sanitize_job_finalization [fl] [p, p']) d =
     (case index_of p (lst d fl) of
        None \<Rightarrow> (Inr (RInt 0), d) | Some i \<Rightarrow> (Inr (RInt 1), put fl (VList ((lst d fl)[i := p'])) d))"
  by (auto simp: sanitize_job_finalization_def redis_simps split: option.splits)

lemma run_release_sequential_lock:
  "stringy d lock \<Longrightarrow> run_lua exec (release_sequential_lock [lock] [w]) d =
     (if str d lock = Some w then (Inr (RInt 1), drop_key lock d) else (Inr (RInt 0), d))"
  by (auto simp: release_sequential_lock_def redis_simps bulk_def key_views split: option.splits rval.splits)

lemma run_discard_sequential_fetch:
  assumes "listy d fl" "stringy d lock" "lock \<noteq> fl"
  shows "run_lua exec (discard_sequential_fetch [fl, lock] [p, w]) d =
     (let d1 = (if p \<in> set (lst d fl) then take_inflight fl p d else d)
      in (Inr (RInt (if p \<in> set (lst d fl) then 1 else 0)), if str d lock = Some w then drop_key lock d1 else d1))"
  using assms by (auto simp: discard_sequential_fetch_def redis_simps bulk_def take_inflight_def split: option.splits)

lemma run_mark_in:
  assumes "listy d k" "k \<noteq> fin"
  shows "run_lua exec (mark_in [a, b, fin] [p, p'] k code other) d =
     (case index_of p (lst d k) of
        Some i \<Rightarrow> (Inr (RInt code), set_str fin p' None (put k (VList ((lst d k)[i := p'])) d))
      | None \<Rightarrow> if p' \<in> set (lst d k) then (Inr (RInt code), set_str fin p' None d)
                else run_lua exec other d)"
  using assms index_of_in_set [of p' "lst d k"] index_of_None [of p' "lst d k"]
  by (auto simp: mark_in_def Let_def redis_simps split: option.splits)

lemma run_mark_job_finalization:
  assumes "listy d fl" "listy d q" "fl \<noteq> fin" "q \<noteq> fin"
  shows "run_lua exec (mark_job_finalization [fl, q, fin] [p, p']) d =
     (case index_of p (lst d fl) of
        Some i \<Rightarrow> (Inr (RInt 1), set_str fin p' None (put fl (VList ((lst d fl)[i := p'])) d))
      | None \<Rightarrow>
          if p' \<in> set (lst d fl) then (Inr (RInt 1), set_str fin p' None d)
          else (case index_of p (lst d q) of
                  Some i \<Rightarrow> (Inr (RInt 2), set_str fin p' None (put q (VList ((lst d q)[i := p'])) d))
                | None \<Rightarrow> if p' \<in> set (lst d q) then (Inr (RInt 2), set_str fin p' None d)
                          else (Inr (RInt 0), d)))"
  using assms
  by (simp add: mark_job_finalization_def redis_simps run_mark_in split: option.splits)

section \<open>Effects of the enqueue scripts\<close>

definition push_target :: "string \<Rightarrow> string \<Rightarrow> string \<times> string \<Rightarrow> db \<Rightarrow> db" where
  "push_target qs pre t d =
     (let d1 = put qs (VSet (sadd1 (sts d qs) (fst t))) d
      in put (pre @ fst t) (VList (snd t # lst d1 (pre @ fst t))) d1)"

lemma sadd1_nonempty [simp]: "sadd1 xs x \<noteq> []"
  by (auto simp: sadd1_def)

lemma set_sadd1 [simp]: "set (sadd1 xs x) = insert x (set xs)"
  by (auto simp: sadd1_def)

lemma run_enqueue_now:
  assumes "setty d qs" "listy d (pre @ q)" "pre @ q \<noteq> qs"
  shows "run_lua exec (enqueue_now [qs, pre @ q] [q, p]) d = (Inr (RInt 1), push_target qs pre (q, p) d)"
  using assms by (simp add: enqueue_now_def redis_simps push_target_def Let_def)

lemma run_unless_claimed:
  "run_lua exec (unless_claimed what k cont) d =
     (if \<not> stringy d k then (Inl (what @ '' has type '' @ rtype d k @ '', want string''), d)
      else if str d k \<noteq> None then (Inr (RInt 0), d) else run_lua exec cont d)"
  using string_iff_str [of d k] by (auto simp: unless_claimed_def status_def stringy_def)

lemma has_key_stringy: "stringy d k \<Longrightarrow> has_key d k \<longleftrightarrow> str d k \<noteq> None"
  by (auto simp: stringy_def key_views split: option.splits rval.splits)

lemma run_enqueue_unique_now:
  assumes "stringy d u" "setty d qs" "listy d (pre @ q)" "pre @ q \<noteq> qs" "u \<noteq> qs" "pre @ q \<noteq> u" "0 < ttl"
  shows "run_lua exec (enqueue_unique_now [u, qs, pre @ q] [jid, string_of_int ttl, q, p]) d =
     (if str d u \<noteq> None then (Inr (RInt 0), d)
      else (Inr (RInt 1), push_target qs pre (q, p) (set_str u jid (Some (clock_us d + ttl * 1000)) d)))"
  using assms
  by (auto simp: enqueue_unique_now_def run_unless_claimed claim_def redis_simps push_target_def Let_def
      has_key_stringy)

lemma run_enqueue_unique_at:
  assumes "stringy d u" "zsetty d z" "z \<noteq> u" "0 < ttl"
  shows "run_lua exec (enqueue_unique_at [u, z] [jid, string_of_int ttl, string_of_int score, p]) d =
     (if str d u \<noteq> None then (Inr (RInt 0), d)
      else (Inr (RInt 1), put z (VZset (zadd1 (zst d z) (score, p)))
              (set_str u jid (Some (clock_us d + ttl * 1000)) d)))"
  using assms
  by (auto simp: enqueue_unique_at_def run_unless_claimed claim_def redis_simps has_key_stringy)

lemma run_periodic_enqueue:
  assumes "stringy d u" "setty d qs" "listy d (pre @ q)" "pre @ q \<noteq> qs" "u \<noteq> qs" "pre @ q \<noteq> u" "0 < ttl"
  shows "run_lua exec (periodic_enqueue [u, qs, pre @ q] [v, string_of_int ttl, q, p]) d =
     (if str d u \<noteq> None then (Inr (RInt 0), d)
      else (Inr (RInt 1), push_target qs pre (q, p) (set_str u v (Some (clock_us d + ttl * 1000000)) d)))"
  using assms
  by (auto simp: periodic_enqueue_def run_unless_claimed claim_def redis_simps push_target_def Let_def
      has_key_stringy)

section \<open>Effects of the scheduler and the reaper scripts\<close>

definition sched_targets :: "cjson \<Rightarrow> string list \<Rightarrow> (string \<times> string) list" where
  "sched_targets cj items = List.map_filter (\<lambda>p. map_option (\<lambda>q. (q, p)) (sched_target cj p)) items"

definition zrem1 :: "string \<Rightarrow> string \<Rightarrow> db \<Rightarrow> db" where
  "zrem1 k p d = put k (VZset (filter (\<lambda>x. snd x \<noteq> p) (zst d k))) d"

lemma sched_targets_simps [simp]:
  "sched_targets cj [] = []"
  "sched_targets cj (p # ps) = (case sched_target cj p of
      None \<Rightarrow> sched_targets cj ps | Some q \<Rightarrow> (q, p) # sched_targets cj ps)"
  by (simp_all add: sched_targets_def List.map_filter_simps split: option.splits)

lemma run_check_sched_queues:
  "(\<forall>t\<in>set (sched_targets cj items). listy d (pre @ fst t)) \<Longrightarrow>
   run_lua exec (check_sched_queues cj pre items cont) d = run_lua exec (cont (sched_targets cj items)) d"
  by (induction items arbitrary: cont) (auto simp: redis_simps split: option.splits)

lemma run_check_sched_queues_fail:
  "\<exists>t\<in>set (sched_targets cj items). \<not> listy d (pre @ fst t) \<Longrightarrow>
   \<exists>e. run_lua exec (check_sched_queues cj pre items cont) d = (Inl e, d)"
  by (induction items arbitrary: cont) (auto simp: redis_simps split: option.splits)

lemma run_zrem_all:
  "zsetty d k \<Longrightarrow> run_lua exec (zrem_all k items cont) d = run_lua exec cont (fold (zrem1 k) items d)"
  by (induction items arbitrary: d) (auto simp: redis_simps zrem1_def)

lemma push_target_kinds:
  "setty d qs \<Longrightarrow> setty (push_target qs pre t d) qs \<longleftrightarrow> pre @ fst t \<noteq> qs"
  "listy d k \<Longrightarrow> k \<noteq> qs \<Longrightarrow> listy (push_target qs pre t d) k"
  by (auto simp: push_target_def Let_def redis_simps)

lemma run_push_targets:
  "setty d qs \<Longrightarrow> \<forall>t\<in>set ts. listy d (pre @ fst t) \<and> pre @ fst t \<noteq> qs \<Longrightarrow>
   run_lua exec (push_targets qs pre ts cont) d = run_lua exec cont (fold (push_target qs pre) ts d)"
proof (induction ts arbitrary: d)
  case (Cons t ts)
  obtain q p where t: "t = (q, p)" by (cases t)
  have "run_lua exec (push_targets qs pre (t # ts) cont) d
      = run_lua exec (push_targets qs pre ts cont) (push_target qs pre t d)"
    using Cons.prems t by (simp add: push_target_def Let_def redis_simps)
  also have "\<dots> = run_lua exec cont (fold (push_target qs pre) ts (push_target qs pre t d))"
    using Cons.prems by (intro Cons.IH) (auto simp: push_target_kinds)
  finally show ?case by simp
qed simp

lemma zset_type_cases: "zsetty d k \<Longrightarrow> rtype d k = ''none'' \<and> zst d k = [] \<or> rtype d k = ''zset''"
  by (auto simp: zsetty_def key_views split: option.splits rval.splits)

lemma zrem1_other:
  "k' \<noteq> k \<Longrightarrow> data (zrem1 k p d) k' = data d k'"
  "zsetty d k \<Longrightarrow> zsetty (zrem1 k p d) k"
  by (auto simp: zrem1_def redis_simps)

lemma data_fold_zrem1: "k' \<noteq> k \<Longrightarrow> data (fold (zrem1 k) items d) k' = data d k'"
  by (induction items arbitrary: d) (auto simp: zrem1_other)

lemma kinds_cong: "data d k = data e k \<Longrightarrow> listy d k = listy e k \<and> setty d k = setty e k \<and>
    zsetty d k = zsetty e k \<and> hashy d k = hashy e k \<and> stringy d k = stringy e k"
  by (simp add: key_kinds rtype_def)

definition due :: "string \<Rightarrow> nat \<Rightarrow> db \<Rightarrow> string list" where
  "due z n d = map snd (take n (filter (\<lambda>p. fst p \<le> clock_us d div 1000000) (zst d z)))"

lemma bulks_time [simp]:
  "bulks (RArr [RBulk a, RBulk b]) = [a, b]"
  by (simp add: bulks_def reply_str_def)

lemma bulks_range [simp]: "bulks (RArr (map (RBulk \<circ> f) xs)) = map f xs"
  by (simp add: bulks_def reply_str_def)

lemma enqueue_scheduled_items:
  assumes "zsetty d z" "0 \<le> limit"
  shows "run_lua exec (enqueue_scheduled cj [z, qs] [string_of_int limit, pre]) d =
     (if due z (nat limit) d = [] then (Inr (RInt 0), d)
      else run_lua exec (check_sched_queues cj pre (due z (nat limit) d)
             (promote z qs pre (due z (nat limit) d))) d)"
  using zset_type_cases [OF assms(1)]
proof
  assume "rtype d z = ''none'' \<and> zst d z = []"
  then show ?thesis
    by (simp add: enqueue_scheduled_def status_def due_def)
next
  assume "rtype d z = ''zset''"
  then show ?thesis
    using assms by (simp add: enqueue_scheduled_def status_def due_def redis_simps)
qed

lemma run_promote:
  assumes "zsetty d z" "ts = [] \<or> setty d qs" "qs \<noteq> z"
    "\<forall>t\<in>set ts. listy d (pre @ fst t) \<and> pre @ fst t \<notin> {qs, z}"
  shows "run_lua exec (promote z qs pre items ts) d =
     (Inr (RInt (int (length ts))), fold (push_target qs pre) ts (fold (zrem1 z) items d))"
proof -
  let ?d1 = "fold (zrem1 z) items d"
  have "ts = [] \<or> setty ?d1 qs" "\<forall>t\<in>set ts. listy ?d1 (pre @ fst t) \<and> pre @ fst t \<noteq> qs"
    using assms kinds_cong [OF data_fold_zrem1] by auto
  then have "run_lua exec (push_targets qs pre ts cont) ?d1 = run_lua exec cont (fold (push_target qs pre) ts ?d1)"
    for cont
    using run_push_targets by (cases "ts = []") auto
  then show ?thesis
    using assms by (auto simp: promote_def run_zrem_all redis_simps)
qed

lemma run_enqueue_scheduled:
  assumes "zsetty d z" "sched_targets cj (due z (nat limit) d) = [] \<or> setty d qs" "qs \<noteq> z" "0 \<le> limit"
    "\<forall>t\<in>set (sched_targets cj (due z (nat limit) d)). listy d (pre @ fst t) \<and> pre @ fst t \<notin> {qs, z}"
  shows "run_lua exec (enqueue_scheduled cj [z, qs] [string_of_int limit, pre]) d =
     (let items = due z (nat limit) d; ts = sched_targets cj items
      in (Inr (RInt (int (length ts))), fold (push_target qs pre) ts (fold (zrem1 z) items d)))"
  using assms run_promote [OF assms(1,2,3,5)]
  by (simp add: enqueue_scheduled_items run_check_sched_queues Let_def)

lemma zset_not: "\<not> zsetty d k \<Longrightarrow> rtype d k \<noteq> ''none'' \<and> rtype d k \<noteq> ''zset''"
  by (auto simp: zsetty_def)

lemma enqueue_scheduled_state:
  assumes "qs \<noteq> z" "0 \<le> limit" "\<forall>q. pre @ q \<noteq> qs \<and> pre @ q \<noteq> z"
  shows "snd (run_lua exec (enqueue_scheduled cj [z, qs] [string_of_int limit, pre]) d) \<in>
     {d, fold (push_target qs pre) (sched_targets cj (due z (nat limit) d)) (fold (zrem1 z) (due z (nat limit) d) d)}"
proof (cases "zsetty d z")
  case z: True
  let ?items = "due z (nat limit) d"
  let ?ts = "sched_targets cj ?items"
  consider (ok) "\<forall>t\<in>set ?ts. listy d (pre @ fst t)" "?ts = [] \<or> setty d qs"
    | (queue) "\<exists>t\<in>set ?ts. \<not> listy d (pre @ fst t)" "?items \<noteq> []"
    | (queues) "\<forall>t\<in>set ?ts. listy d (pre @ fst t)" "\<not> setty d qs" "?ts \<noteq> []" "?items \<noteq> []"
    by fastforce
  then show ?thesis
  proof cases
    case ok
    then show ?thesis
      using run_enqueue_scheduled [OF z _ assms(1,2), of cj pre] assms(3) by (simp add: Let_def)
  next
    case queue
    then obtain e where "run_lua exec (check_sched_queues cj pre ?items (promote z qs pre ?items)) d = (Inl e, d)"
      using run_check_sched_queues_fail by blast
    then show ?thesis
      using z assms(2) queue(2) by (simp add: enqueue_scheduled_items)
  next
    case queues
    then have "snd (run_lua exec (promote z qs pre ?items ?ts) d) = d"
      by (simp add: promote_def setty_def)
    then show ?thesis
      using z assms(2) queues(1,4) by (simp add: enqueue_scheduled_items run_check_sched_queues)
  qed
next
  case False
  then show ?thesis
    using assms(2) by (simp add: enqueue_scheduled_def status_def zset_not)
qed

text \<open>What the scheduler leaves behind: due members are gone, each queue gains its payloads in order.\<close>

lemma zst_fold_zrem1: "zst (fold (zrem1 z) items d) z = filter (\<lambda>x. snd x \<notin> set items) (zst d z)"
  by (induction items arbitrary: d) (auto simp: zrem1_def redis_simps conj_commute intro: filter_cong)

lemma lst_push_target:
  "qs \<noteq> k \<Longrightarrow> listy d k \<Longrightarrow> lst (push_target qs pre t d) k = (if k = pre @ fst t then snd t # lst d k else lst d k)"
  by (auto simp: push_target_def Let_def redis_simps)

lemma lst_fold_push_target:
  "qs \<noteq> k \<Longrightarrow> listy d k \<Longrightarrow> lst (fold (push_target qs pre) ts d) k =
     rev (map snd (filter (\<lambda>t. pre @ fst t = k) ts)) @ lst d k"
  by (induction ts arbitrary: d) (auto simp: lst_push_target push_target_kinds)

lemma zst_fold_push_target:
  "z \<noteq> qs \<Longrightarrow> \<forall>t\<in>set ts. pre @ fst t \<noteq> z \<Longrightarrow> zst (fold (push_target qs pre) ts d) z = zst d z"
  by (induction ts arbitrary: d) (auto simp: push_target_def Let_def redis_simps)

section \<open>Effects of the reaper script\<close>

definition orphan_targets :: "cjson \<Rightarrow> string list \<Rightarrow> orphan list" where
  "orphan_targets cj items = List.map_filter (orphan_target cj) items"

definition push_orphan :: "string \<Rightarrow> string \<Rightarrow> string \<Rightarrow> orphan \<Rightarrow> db \<Rightarrow> db" where
  "push_orphan qs pre fpre = (\<lambda>(q, p, jid, fin) d.
     let d1 = push_target qs pre (q, p) d in if fin then set_str (fpre @ jid) p None d1 else d1)"

lemma orphan_targets_simps [simp]:
  "orphan_targets cj [] = []"
  "orphan_targets cj (p # ps) = (case orphan_target cj p of
      None \<Rightarrow> orphan_targets cj ps | Some t \<Rightarrow> t # orphan_targets cj ps)"
  by (simp_all add: orphan_targets_def List.map_filter_simps split: option.splits)

lemma run_check_orphan_queues:
  "(\<forall>t\<in>set (orphan_targets cj items). listy d (pre @ fst t)) \<Longrightarrow>
   run_lua exec (check_orphan_queues cj pre items cont) d = run_lua exec (cont (orphan_targets cj items)) d"
  by (induction items arbitrary: cont) (auto simp: redis_simps split: option.splits)

lemma run_check_orphan_queues_fail:
  "\<exists>t\<in>set (orphan_targets cj items). \<not> listy d (pre @ fst t) \<Longrightarrow>
   \<exists>e. run_lua exec (check_orphan_queues cj pre items cont) d = (Inl e, d)"
  by (induction items arbitrary: cont) (auto simp: redis_simps split: option.splits)

lemma push_orphan_kinds:
  "setty d qs \<Longrightarrow> pre @ fst t \<noteq> qs \<Longrightarrow> \<forall>j. fpre @ j \<noteq> qs \<Longrightarrow> setty (push_orphan qs pre fpre t d) qs"
  "listy d k \<Longrightarrow> k \<noteq> qs \<Longrightarrow> \<forall>j. fpre @ j \<noteq> k \<Longrightarrow> listy (push_orphan qs pre fpre t d) k"
  by (auto simp: push_orphan_def Let_def redis_simps push_target_kinds split: prod.splits)

lemma run_push_orphans:
  "setty d qs \<Longrightarrow> \<forall>t\<in>set ts. listy d (pre @ fst t) \<and> pre @ fst t \<noteq> qs \<Longrightarrow>
   \<forall>j. fpre @ j \<noteq> qs \<and> (\<forall>q. fpre @ j \<noteq> pre @ q) \<Longrightarrow>
   run_lua exec (push_orphans qs pre fpre ts cont) d = run_lua exec cont (fold (push_orphan qs pre fpre) ts d)"
proof (induction ts arbitrary: d)
  case (Cons t ts)
  obtain q p jid fin where t: "t = (q, p, jid, fin)" by (cases t)
  have "run_lua exec (push_orphans qs pre fpre (t # ts) cont) d
      = run_lua exec (push_orphans qs pre fpre ts cont) (push_orphan qs pre fpre t d)"
    using Cons.prems t by (simp add: push_orphan_def push_target_def Let_def redis_simps)
  also have "\<dots> = run_lua exec cont (fold (push_orphan qs pre fpre) ts (push_orphan qs pre fpre t d))"
    using Cons.prems by (intro Cons.IH) (auto simp: push_orphan_kinds)
  finally show ?case by simp
qed simp

lemma list_type_cases: "listy d k \<Longrightarrow> rtype d k = ''none'' \<and> lst d k = [] \<or> rtype d k = ''list''"
  by (auto simp: listy_def key_views split: option.splits rval.splits)

lemma run_requeue_orphaned:
  assumes "rtype d fl = ''list''" "lst d fl \<noteq> []" "setty d qs"
    "\<forall>j. fpre @ j \<noteq> qs \<and> (\<forall>q. fpre @ j \<noteq> pre @ q)"
    "\<forall>t\<in>set (orphan_targets cj (lst d fl)). listy d (pre @ fst t) \<and> pre @ fst t \<noteq> qs"
  shows "run_lua exec (requeue_orphaned cj [fl, qs] [pre, fpre]) d =
     (let ts = orphan_targets cj (lst d fl)
      in (Inr (RInt (int (length ts))), drop_key fl (fold (push_orphan qs pre fpre) ts d)))"
proof -
  have "listy d fl"
    using assms(1) by (simp add: listy_def)
  then show ?thesis
    using assms
    by (simp add: requeue_orphaned_def status_def redis_simps run_check_orphan_queues run_push_orphans Let_def)
qed

lemma run_requeue_orphaned_none:
  assumes "rtype d fl = ''none''"
  shows "run_lua exec (requeue_orphaned cj [fl, qs] [pre, fpre]) d = (Inr (RInt 0), d)"
  using assms by (simp add: requeue_orphaned_def status_def)

lemma requeue_orphaned_state:
  assumes "\<forall>j. fpre @ j \<noteq> qs \<and> (\<forall>q. fpre @ j \<noteq> pre @ q)" "\<forall>q. pre @ q \<noteq> qs"
  shows "snd (run_lua exec (requeue_orphaned cj [fl, qs] [pre, fpre]) d) \<in>
     {d, drop_key fl (fold (push_orphan qs pre fpre) (orphan_targets cj (lst d fl)) d)}"
proof (cases "rtype d fl = ''list'' \<and> setty d qs")
  case True
  then have fl: "listy d fl"
    by (simp add: listy_def)
  have run: "run_lua exec (requeue_orphaned cj [fl, qs] [pre, fpre]) d =
      (if lst d fl = [] then (Inr (RInt 0), drop_key fl d)
       else run_lua exec (check_orphan_queues cj pre (lst d fl) (\<lambda>targets.
                 push_orphans qs pre fpre targets
                   (LCall (cDEL [fl]) (\<lambda>_. LRet (RInt (int (length targets))))))) d)"
    using True fl by (simp add: requeue_orphaned_def status_def redis_simps)
  show ?thesis
  proof (cases "\<forall>t\<in>set (orphan_targets cj (lst d fl)). listy d (pre @ fst t)")
    case ok: True
    then show ?thesis
      using True assms by (simp add: run run_check_orphan_queues run_push_orphans)
  next
    case False
    then obtain e where "run_lua exec (check_orphan_queues cj pre (lst d fl) (\<lambda>targets.
                 push_orphans qs pre fpre targets
                   (LCall (cDEL [fl]) (\<lambda>_. LRet (RInt (int (length targets))))))) d = (Inl e, d)"
      using run_check_orphan_queues_fail by blast
    then show ?thesis
      using False by (simp add: run del: run_lua.simps)
  qed
next
  case False
  then show ?thesis
    by (auto simp: requeue_orphaned_def status_def setty_def)
qed

lemma lst_fold_push_orphan:
  "qs \<noteq> k \<Longrightarrow> listy d k \<Longrightarrow> \<forall>j. fpre @ j \<noteq> k \<Longrightarrow> lst (fold (push_orphan qs pre fpre) ts d) k =
     rev (map (fst \<circ> snd) (filter (\<lambda>t. pre @ fst t = k) ts)) @ lst d k"
proof (induction ts arbitrary: d)
  case (Cons t ts)
  then show ?case
    by (auto simp: push_orphan_kinds)
       (auto simp: push_orphan_def Let_def redis_simps lst_push_target split: prod.splits)
qed simp

section \<open>Scripts are all-or-nothing\<close>

text \<open>
  Redis does not roll a failed script back.  A script whose guards cover every later command fails
  only before its first write, so that an error means an unchanged key space.
\<close>

definition all_or_nothing :: "lua \<Rightarrow> bool" where
  "all_or_nothing p \<longleftrightarrow> (\<forall>d e d'. run_lua exec p d = (Inl e, d') \<longrightarrow> d' = d)"

lemma all_or_nothingI:
  "(\<And>d. ok d \<Longrightarrow> \<exists>r d'. run_lua exec p d = (Inr r, d')) \<Longrightarrow>
   (\<And>d. \<not> ok d \<Longrightarrow> \<exists>e. run_lua exec p d = (Inl e, d)) \<Longrightarrow> all_or_nothing p"
  unfolding all_or_nothing_def by (metis Inl_Inr_False prod.inject)

lemma ack_job_all_or_nothing:
  "all_or_nothing (ack_job [fl, fin] [p, jid])" "all_or_nothing (ack_job [fl, fin, u] [p, jid])"
  by (rule all_or_nothingI [of "\<lambda>d. listy d fl"], simp add: run_ack_job,
      simp add: ack_job_def listy_def)+

lemma retry_job_all_or_nothing:
  assumes "fl \<noteq> ret" "fin \<noteq> ret"
  shows "all_or_nothing (retry_job [fl, ret, fin] [p, string_of_int score, p'])"
proof (rule all_or_nothingI [of "\<lambda>d. listy d fl \<and> zsetty d ret"])
  show "listy d fl \<and> zsetty d ret \<Longrightarrow>
      \<exists>r d'. run_lua exec (retry_job [fl, ret, fin] [p, string_of_int score, p']) d = (Inr r, d')" for d
    using assms by (simp add: run_retry_job)
qed (auto simp: retry_job_def listy_def zsetty_def)

lemma move_to_dead_job_all_or_nothing:
  assumes "fl \<noteq> dead" "fin \<noteq> dead" "u \<noteq> dead" "us = [] \<or> us = [u]"
  shows "all_or_nothing (move_to_dead_job ([fl, dead, fin] @ us) [p, string_of_int score, p', jid])"
proof (rule all_or_nothingI [of "\<lambda>d. listy d fl \<and> zsetty d dead"])
  show "listy d fl \<and> zsetty d dead \<Longrightarrow>
      \<exists>r d'. run_lua exec (move_to_dead_job ([fl, dead, fin] @ us) [p, string_of_int score, p', jid]) d
        = (Inr r, d')" for d
    using assms by (auto simp: run_move_to_dead_job)
qed (auto simp: move_to_dead_job_def listy_def zsetty_def)

lemma requeue_job_all_or_nothing:
  assumes "fl \<noteq> q"
  shows "all_or_nothing (requeue_job [fl, q] [p, p'])"
proof (rule all_or_nothingI [of "\<lambda>d. listy d fl \<and> listy d q"])
  show "listy d fl \<and> listy d q \<Longrightarrow> \<exists>r d'. run_lua exec (requeue_job [fl, q] [p, p']) d = (Inr r, d')" for d
    using assms by (simp add: run_requeue_job)
qed (auto simp: requeue_job_def listy_def)

lemma enqueue_now_all_or_nothing:
  assumes "pre @ q \<noteq> qs"
  shows "all_or_nothing (enqueue_now [qs, pre @ q] [q, p])"
proof (rule all_or_nothingI [of "\<lambda>d. setty d qs \<and> listy d (pre @ q)"])
  show "setty d qs \<and> listy d (pre @ q) \<Longrightarrow>
      \<exists>r d'. run_lua exec (enqueue_now [qs, pre @ q] [q, p]) d = (Inr r, d')" for d
    using assms by (simp add: run_enqueue_now)
qed (auto simp: enqueue_now_def listy_def setty_def)

lemma claiming_all_or_nothing:
  assumes "pre @ q \<noteq> qs" "u \<noteq> qs" "pre @ q \<noteq> u" "0 < ttl"
  shows "all_or_nothing (enqueue_unique_now [u, qs, pre @ q] [jid, string_of_int ttl, q, p])"
    and "all_or_nothing (periodic_enqueue [u, qs, pre @ q] [jid, string_of_int ttl, q, p])"
  by (rule all_or_nothingI [of "\<lambda>d. stringy d u \<and> (str d u = None \<longrightarrow> setty d qs \<and> listy d (pre @ q))"];
      use assms in \<open>auto simp: enqueue_unique_now_def periodic_enqueue_def run_unless_claimed claim_def
        redis_simps has_key_stringy; simp add: listy_def setty_def\<close>)+

lemma unique_at_all_or_nothing:
  assumes "z \<noteq> u" "0 < ttl"
  shows "all_or_nothing (enqueue_unique_at [u, z] [jid, string_of_int ttl, string_of_int score, p])"
  by (rule all_or_nothingI [of "\<lambda>d. stringy d u \<and> (str d u = None \<longrightarrow> zsetty d z)"];
      use assms in \<open>auto simp: enqueue_unique_at_def run_unless_claimed claim_def
        redis_simps has_key_stringy; simp add: zsetty_def\<close>)

section \<open>Scripts do not enumerate\<close>

lemma enum_free_want' [intro]: "enum_free p \<Longrightarrow> enum_free (want what ty k p)"
  by simp

lemma enum_free_strip [simp]: "(\<And>t. enum_free (f t)) \<Longrightarrow> enum_free (strip_untrusted cj pre p f)"
  by (auto simp: strip_untrusted_def trusted_finalization_def split: option.splits bool.splits)

lemma enum_free_unless [simp]: "enum_free (unless_claimed what k p) = enum_free p"
proof
  assume "enum_free (unless_claimed what k p)"
  then show "enum_free p"
    unfolding unless_claimed_def enum_free.simps
    by (auto simp: status_def split: if_splits dest: spec [of _ "RStatus ''none''"])
qed (simp add: unless_claimed_def)

lemma enum_free_claim [simp]: "enum_free (claim c p) = (\<not> enum_cmd c \<and> enum_free p)"
  by (auto simp: claim_def)

lemma enum_free_check:
  "(\<And>ts. enum_free (f ts)) \<Longrightarrow> enum_free (check_sched_queues cj pre items f)"
  "(\<And>ts. enum_free (g ts)) \<Longrightarrow> enum_free (check_orphan_queues cj pre items g)"
  by (induction items arbitrary: f g) (auto split: option.splits)

lemma enum_free_loops:
  "enum_free p \<Longrightarrow> enum_free (zrem_all k items p)"
  "enum_free p \<Longrightarrow> enum_free (push_targets qs pre ts p)"
  "enum_free p \<Longrightarrow> enum_free (push_orphans qs pre fpre os p)"
  subgoal by (induction items) auto
  subgoal by (induction ts) auto
  subgoal by (induction os) auto
  done

lemma enum_free_promote [simp]: "enum_free (promote z qs pre items ts)"
  by (auto simp: promote_def intro!: enum_free_loops)

lemma enum_free_mark [simp]: "enum_free p \<Longrightarrow> enum_free (mark_in KEYS ARGV k c p)"
  by (simp add: mark_in_def Let_def split: rreply.splits)

lemma enum_free_scripts [simp]:
  "enum_free (ack_job KEYS ARGV)" "enum_free (retry_job KEYS ARGV)"
  "enum_free (move_to_dead_job KEYS ARGV)" "enum_free (requeue_job KEYS ARGV)"
  "enum_free (fetch_job cj KEYS ARGV)" "enum_free (sequential_fetch cj KEYS ARGV)"
  "enum_free (release_sequential_lock KEYS ARGV)" "enum_free (discard_sequential_fetch KEYS ARGV)"
  "enum_free (sanitize_job_finalization KEYS ARGV)" "enum_free (mark_job_finalization KEYS ARGV)"
  "enum_free (enqueue_scheduled cj KEYS ARGV)" "enum_free (requeue_orphaned cj KEYS ARGV)"
  "enum_free (enqueue_now KEYS ARGV)" "enum_free (enqueue_unique_now KEYS ARGV)"
  "enum_free (enqueue_unique_at KEYS ARGV)" "enum_free (periodic_enqueue KEYS ARGV)"
  by (auto simp: ack_job_def retry_job_def move_to_dead_job_def requeue_job_def fetch_job_def
      sequential_fetch_def release_sequential_lock_def discard_sequential_fetch_def
      sanitize_job_finalization_def mark_job_finalization_def enqueue_scheduled_def requeue_orphaned_def
      enqueue_now_def enqueue_unique_now_def enqueue_unique_at_def periodic_enqueue_def
      intro!: enum_free_check enum_free_loops split: rreply.splits)

section \<open>Scripts date only lock and claim keys\<close>

lemma lua_all_vocabulary:
  assumes "\<And>c. deadline_key c = None \<Longrightarrow> P c"
  shows "P c \<Longrightarrow> lua_all P cont \<Longrightarrow> lua_all P (lwhen b c cont)"
    and "(\<And>i. lua_all P (f i)) \<Longrightarrow> lua_all P (tonumber s f)"
    and "(\<And>b. lua_all P (g b)) \<Longrightarrow> lua_all P (holds_string k v g)"
    and "(\<And>b. lua_all P (g b)) \<Longrightarrow> lua_all P (replace_at k x y g)"
    and "(\<And>t. lua_all P (h t)) \<Longrightarrow> lua_all P (strip_untrusted cj pre p h)"
    and "lua_all P cont \<Longrightarrow> lua_all P (unless_claimed what k cont)"
    and "P c \<Longrightarrow> lua_all P cont \<Longrightarrow> lua_all P (claim c cont)"
    and "lua_all P cont \<Longrightarrow> lua_all P (want what ty k cont)"
  using assms
  by (auto simp: lwhen_def tonumber_def holds_string_def replace_at_def strip_untrusted_def
      trusted_finalization_def unless_claimed_def claim_def want_def
      split: option.splits rreply.splits bool.splits)

lemma lua_all_loops:
  assumes "\<And>c. deadline_key c = None \<Longrightarrow> P c"
  shows "lua_all P p \<Longrightarrow> lua_all P (zrem_all k items p)"
    and "lua_all P p \<Longrightarrow> lua_all P (push_targets qs pre ts p)"
    and "lua_all P p \<Longrightarrow> lua_all P (push_orphans qs pre fpre os p)"
    and "(\<And>ts. lua_all P (f ts)) \<Longrightarrow> lua_all P (check_sched_queues cj pre items f)"
    and "(\<And>ts. lua_all P (g ts)) \<Longrightarrow> lua_all P (check_orphan_queues cj pre items g)"
    and "lua_all P p \<Longrightarrow> lua_all P (mark_in KEYS ARGV k c p)"
  subgoal using assms by (induction items) auto
  subgoal using assms by (induction ts) auto
  subgoal using assms by (induction os) (auto intro!: lua_all_vocabulary)
  subgoal using assms by (induction items arbitrary: f) (auto intro!: lua_all_vocabulary split: option.splits)
  subgoal using assms by (induction items arbitrary: g) (auto intro!: lua_all_vocabulary split: option.splits)
  subgoal using assms by (auto simp: mark_in_def Let_def intro!: lua_all_vocabulary split: rreply.splits)
  done

lemma lua_all_scripts:
  assumes P: "\<And>c. deadline_key c = None \<Longrightarrow> P c"
  shows "lua_all P (ack_job KEYS ARGV)" "lua_all P (retry_job KEYS ARGV)"
    "lua_all P (move_to_dead_job KEYS ARGV)" "lua_all P (requeue_job KEYS ARGV)"
    "lua_all P (fetch_job cj KEYS ARGV)" "lua_all P (release_sequential_lock KEYS ARGV)"
    "lua_all P (discard_sequential_fetch KEYS ARGV)" "lua_all P (sanitize_job_finalization KEYS ARGV)"
    "lua_all P (mark_job_finalization KEYS ARGV)" "lua_all P (enqueue_scheduled cj KEYS ARGV)"
    "lua_all P (requeue_orphaned cj KEYS ARGV)" "lua_all P (enqueue_now KEYS ARGV)"
    "(\<And>v t. P (cSET_PX (KEYS ! 2) v t)) \<Longrightarrow> lua_all P (sequential_fetch cj KEYS ARGV)"
    "(\<And>v t. P (cSET_NX_PX (KEYS ! 0) v t)) \<Longrightarrow> lua_all P (enqueue_unique_now KEYS ARGV)"
    "(\<And>v t. P (cSET_NX_PX (KEYS ! 0) v t)) \<Longrightarrow> lua_all P (enqueue_unique_at KEYS ARGV)"
    "(\<And>v t. P (cSET_NX_EX (KEYS ! 0) v t)) \<Longrightarrow> lua_all P (periodic_enqueue KEYS ARGV)"
  unfolding ack_job_def retry_job_def move_to_dead_job_def requeue_job_def fetch_job_def
    sequential_fetch_def release_sequential_lock_def discard_sequential_fetch_def
    sanitize_job_finalization_def mark_job_finalization_def enqueue_scheduled_def promote_def requeue_orphaned_def
    enqueue_now_def enqueue_unique_now_def enqueue_unique_at_def periodic_enqueue_def
  by (auto simp: P intro!: lua_all_vocabulary [OF P] lua_all_loops [OF P] split: rreply.splits)

end
