(* ===== verification/Fetcher.thy ===== *)
theory Fetcher
  imports GoProg Job Keys QueueScripts
begin

text \<open>
  The fetcher, \<^verbatim>\<open>src/worker/fetcher.go\<close>: queue selection, fetching from ordinary and sequential
  queues, and the operations that end an attempt (\<^verbatim>\<open>Ack\<close>, \<^verbatim>\<open>Nack\<close>, \<^verbatim>\<open>NackAt\<close>, \<^verbatim>\<open>MoveToDead\<close>,
  \<^verbatim>\<open>MarkFinalization\<close>, \<^verbatim>\<open>requeue\<close>), each with every error return.

  The maps shared by a process's goroutines (the semaphores of sequential queues and the set of
  held locks) are the record \<open>locals\<close>; an action on them is one atomic step.  \<open>cj\<close> is the server's
  JSON library and \<open>fl\<close> the number conversion of decoding, as in the theories below.  The text of
  a JSON error is not modelled.
\<close>

record queueInfo =
  q_name :: string
  q_priority :: int
  q_paused :: bool
  q_sequential :: bool
  q_queueKey :: string
  q_sequentialLockKey :: string

datatype queueFetchStatus = queueFetchEmpty | queueFetchLocked | queueFetchJob

record fetcher =
  f_keys :: keys
  f_queues :: "queueInfo list"
  f_activeQueues :: "queueInfo list"
  f_blockableQueues :: "queueInfo list"
  f_queueByName :: "string \<Rightarrow> queueInfo option"
  f_totalActiveWeight :: int
  f_pollInterval :: int
  f_strictPriority :: bool
  f_sequentialLockTTL :: int

record locals =
  sequentialSema :: "string list"
  sequentialHeld :: "string list"

section \<open>Construction\<close>

definition make_queueInfo :: "keys \<Rightarrow> QueueConfig \<Rightarrow> queueInfo" where
  "make_queueInfo k q =
     \<lparr>q_name = c_Name q, q_priority = (if c_Priority q < 1 then 1 else c_Priority q),
      q_paused = c_Paused q, q_sequential = c_Sequential q,
      q_queueKey = Queue k (c_Name q), q_sequentialLockKey = SequentialLock k (c_Name q)\<rparr>"

definition newFetcherWithSequentialLockTTL ::
    "keys \<Rightarrow> QueueConfig list \<Rightarrow> int \<Rightarrow> bool \<Rightarrow> int \<Rightarrow> fetcher" where
  "newFetcherWithSequentialLockTTL k queues pollInterval strictPriority ttl =
     (let infos = map (make_queueInfo k) queues;
          infos = (if strictPriority then sort_key (\<lambda>q. - q_priority q) infos else infos);
          active = filter (\<lambda>q. \<not> q_paused q) infos
      in \<lparr>f_keys = k, f_queues = infos, f_activeQueues = active,
          f_blockableQueues = filter (\<lambda>q. \<not> q_sequential q) active,
          f_queueByName = map_of (rev (map (\<lambda>q. (q_name q, q)) infos)),
          f_totalActiveWeight = sum_list (map q_priority active),
          f_pollInterval = pollInterval, f_strictPriority = strictPriority,
          f_sequentialLockTTL = (if ttl \<le> 0 then SequentialLockTTL DefaultWorkerSettings else ttl)\<rparr>)"

definition newFetcher :: "keys \<Rightarrow> QueueConfig list \<Rightarrow> int \<Rightarrow> bool \<Rightarrow> fetcher" where
  "newFetcher k queues pollInterval strictPriority =
     newFetcherWithSequentialLockTTL k queues pollInterval strictPriority (SequentialLockTTL DefaultWorkerSettings)"

section \<open>Choosing a queue\<close>

definition queueNameSkipped :: "string \<Rightarrow> string list \<Rightarrow> bool" where
  "queueNameSkipped name skipped = list_ex (\<lambda>s. name = s) skipped"

definition appendSkippedQueueName :: "string list \<Rightarrow> string \<Rightarrow> string list" where
  "appendSkippedQueueName skipped name =
     (if queueNameSkipped name skipped then skipped else skipped @ [name])"

text \<open>The draw: subtract priorities until the remainder is negative.\<close>

fun draw :: "int \<Rightarrow> queueInfo list \<Rightarrow> queueInfo option" where
  "draw r [] = None"
| "draw r (q # qs) = (if r - q_priority q < 0 then Some q else draw (r - q_priority q) qs)"

definition selectWeightedQueue :: "queueInfo list \<Rightarrow> int \<Rightarrow> ('l, queueInfo option) go" where
  "selectWeightedQueue queues totalWeight =
     (if length queues = 0 then Done None
      else if length queues = 1 then Done (Some (queues ! 0))
      else if totalWeight \<le> 0 then Rand (length queues) (\<lambda>i. Done (Some (queues ! i)))
      else Rand (nat totalWeight) (\<lambda>r. Done (draw (int r) queues)))"

text \<open>The loops over the queues that are not skipped are loops over the filtered list.\<close>

definition selectWeightedQueueSkipping :: "queueInfo list \<Rightarrow> string list \<Rightarrow> ('l, queueInfo option) go" where
  "selectWeightedQueueSkipping queues skipped =
     (let rest = filter (\<lambda>q. \<not> queueNameSkipped (q_name q) skipped) queues;
          count = length rest;
          totalWeight = sum_list (map q_priority rest)
      in if count = 0 then Done None
         else if count = 1 then Done (Some (last rest))
         else if totalWeight \<le> 0 then Rand count (\<lambda>n. Done (Some (rest ! n)))
         else Rand (nat totalWeight) (\<lambda>r. Done (draw (int r) rest)))"

definition fetcher_selectWeightedQueueSkipping :: "fetcher \<Rightarrow> string list \<Rightarrow> ('l, queueInfo option) go" where
  "fetcher_selectWeightedQueueSkipping f skipped =
     (if skipped = [] then selectWeightedQueue (f_activeQueues f) (f_totalActiveWeight f)
      else selectWeightedQueueSkipping (f_activeQueues f) skipped)"

section \<open>Payloads\<close>

definition marshal_error :: goerr where
  "marshal_error = Plain ''json: unsupported value''"

definition unmarshal_error :: goerr where
  "unmarshal_error = Plain ''json: cannot unmarshal''"

definition jobPayload :: "job \<Rightarrow> goerr + string" where
  "jobPayload j = (if j_raw j \<noteq> [] then Inr (j_raw j)
     else case Marshal j of None \<Rightarrow> Inl marshal_error | Some p \<Rightarrow> Inr p)"

definition durableJobPayload :: "(string \<Rightarrow> string option) \<Rightarrow> job \<Rightarrow> goerr + job" where
  "durableJobPayload fl j =
     (let durable = ClearFinalization j
      in if j_raw j = [] then Inr durable
         else case UnmarshalJob fl (j_raw j) of
                None \<Rightarrow> Inl (Wrap ''unmarshal raw job payload for durable write'' unmarshal_error)
              | Some rawJob \<Rightarrow>
                  Inr (if j_Encrypted rawJob then durable\<lparr>j_Args := j_Args rawJob, j_Encrypted := True\<rparr>
                       else durable))"

definition payloadWithFinalization :: "(string \<Rightarrow> string option) \<Rightarrow> string \<Rightarrow> jobfinalization \<Rightarrow> goerr + string" where
  "payloadWithFinalization fl payload fin =
     (case UnmarshalJob fl payload of
        None \<Rightarrow> Inl unmarshal_error
      | Some j \<Rightarrow> (case Marshal (SetFinalization fin j) of None \<Rightarrow> Inl marshal_error | Some p \<Rightarrow> Inr p))"

definition durationMilliseconds :: "int \<Rightarrow> int" where
  "durationMilliseconds d = (let ms = d sdiv 1000000 in if ms \<le> 0 then 1 else ms)"

definition go_string :: "rreply \<Rightarrow> string option" where
  "go_string r = (case r of RBulk s \<Rightarrow> Some s | RStatus s \<Rightarrow> Some s | _ \<Rightarrow> None)"

definition parseSequentialFetchResult :: "rreply \<Rightarrow> queueFetchStatus \<times> string" where
  "parseSequentialFetchResult result =
     (case result of
        RArr (v0 # vs) \<Rightarrow>
          (case go_string v0 of
             None \<Rightarrow> (queueFetchEmpty, [])
           | Some st \<Rightarrow>
               if st = ''locked'' then (queueFetchLocked, [])
               else if st = ''empty'' then (queueFetchEmpty, [])
               else if st = ''job'' then
                 (case vs of
                    [] \<Rightarrow> (queueFetchEmpty, [])
                  | v1 # _ \<Rightarrow> (case go_string v1 of
                                None \<Rightarrow> (queueFetchEmpty, []) | Some p \<Rightarrow> (queueFetchJob, p)))
               else (queueFetchEmpty, []))
      | _ \<Rightarrow> (queueFetchEmpty, []))"

definition redisNow :: "(goerr + int \<Rightarrow> ('l, 'a) go) \<Rightarrow> ('l, 'a) go" where
  "redisNow cont = Cmd cTIME (\<lambda>r. case r of
     Inl e \<Rightarrow> cont (Inl e)
   | Inr (RArr [RBulk s, RBulk us]) \<Rightarrow>
       (case (parse_int s, parse_int us) of
          (Some s, Some us) \<Rightarrow> cont (Inr (s * 1000000000 + us * 1000))
        | _ \<Rightarrow> cont (Inl (Plain ''redis: unexpected TIME reply'')))
   | Inr _ \<Rightarrow> cont (Inl (Plain ''redis: unexpected TIME reply'')))"

definition Unix :: "int \<Rightarrow> int" where
  "Unix t = t div 1000000000"

section \<open>Trust in finalization markers\<close>

definition trustsFinalization :: "keys \<Rightarrow> string \<Rightarrow> string \<Rightarrow> (goerr + bool \<Rightarrow> ('l, 'a) go) \<Rightarrow> ('l, 'a) go" where
  "trustsFinalization k jobID payload cont =
     (if jobID = [] then cont (Inr False)
      else
        Cmd (cTYPE (Finalization k jobID)) (\<lambda>t. case t of
          Inl e \<Rightarrow> cont (Inl (Wrap (''read job '' @ jobID @ '' finalization trust type'') e))
        | Inr t \<Rightarrow>
            if go_string t \<noteq> Some ''string'' then cont (Inr False)
            else
              Cmd (cGET (Finalization k jobID)) (\<lambda>v. case v of
                Inl e \<Rightarrow> if is_nil e then cont (Inr False)
                         else cont (Inl (Wrap (''read job '' @ jobID @ '' finalization trust'') e))
              | Inr v \<Rightarrow> cont (Inr (go_string v = Some payload)))))"

definition prepareFetchedJob :: "keys \<Rightarrow> string \<Rightarrow> job \<Rightarrow> string \<Rightarrow> ('l, job \<times> goerr option) go" where
  "prepareFetchedJob k workerID job payload =
     (if j_finalization job = None then Done (SetRaw payload job, None)
      else
        trustsFinalization k (j_ID job) payload (\<lambda>trusted. case trusted of
          Inl e \<Rightarrow> Done (job, Some e)
        | Inr True \<Rightarrow> Done (SetRaw payload job, None)
        | Inr False \<Rightarrow>
            (let job = ClearFinalization job;
                 what = ''sanitize job '' @ j_ID job @ '' finalization''
             in case Marshal job of
                  None \<Rightarrow> Done (job, Some (Wrap what marshal_error))
                | Some sanitizedPayload \<Rightarrow>
                    if sanitizedPayload \<noteq> payload then
                      Eval (sanitize_job_finalization [InFlight k workerID] [payload, sanitizedPayload]) (\<lambda>r.
                        case r of
                          Inl e \<Rightarrow> Done (job, Some (Wrap what e))
                        | Inr (RInt replaced) \<Rightarrow>
                            if replaced \<noteq> 1
                            then Done (job, Some (Plain (what @ '': in-flight payload not found'')))
                            else Done (SetRaw sanitizedPayload job, None)
                        | Inr _ \<Rightarrow> Done (job, Some (Plain (what @ '': unexpected script result''))))
                    else Done (SetRaw sanitizedPayload job, None))))"

section \<open>Fetching\<close>

type_synonym fetched = "job option \<times> queueFetchStatus \<times> goerr option"

definition holdSequentialLock :: "string \<Rightarrow> 'x locals_scheme \<Rightarrow> 'x locals_scheme" where
  "holdSequentialLock name l = l\<lparr>sequentialHeld := List.insert name (sequentialHeld l)\<rparr>"

definition clearSequentialLock :: "string \<Rightarrow> 'x locals_scheme \<Rightarrow> 'x locals_scheme" where
  "clearSequentialLock name l = l\<lparr>sequentialHeld := removeAll name (sequentialHeld l)\<rparr>"

text \<open>A one-slot channel: a send succeeds when the slot is free, a receive frees it.\<close>

definition sema_take :: "string \<Rightarrow> 'x locals_scheme \<Rightarrow> 'x locals_scheme" where
  "sema_take name l = l\<lparr>sequentialSema := List.insert name (sequentialSema l)\<rparr>"

definition sema_free :: "string \<Rightarrow> 'x locals_scheme \<Rightarrow> 'x locals_scheme" where
  "sema_free name l = l\<lparr>sequentialSema := removeAll name (sequentialSema l)\<rparr>"

definition releasing :: "string \<Rightarrow> fetched \<Rightarrow> ('x locals_scheme, fetched) go" where
  "releasing name res = Local (sema_free name) (\<lambda>_. Done res)"

definition releaseClaimedSequentialLock ::
    "keys \<Rightarrow> string \<Rightarrow> string \<Rightarrow> (goerr option \<Rightarrow> ('l, 'a) go) \<Rightarrow> ('l, 'a) go" where
  "releaseClaimedSequentialLock k workerID queueName cont =
     Eval (release_sequential_lock [SequentialLock k queueName] [workerID]) (\<lambda>r. case r of
       Inl e \<Rightarrow> cont (Some (Wrap (''release sequential lock for queue '' @ queueName) e))
     | Inr _ \<Rightarrow> cont None)"

definition discardClaimedSequentialPayload ::
    "keys \<Rightarrow> string \<Rightarrow> string \<Rightarrow> string \<Rightarrow> (goerr option \<Rightarrow> ('l, 'a) go) \<Rightarrow> ('l, 'a) go" where
  "discardClaimedSequentialPayload k workerID queueName payload cont =
     Eval (discard_sequential_fetch [InFlight k workerID, SequentialLock k queueName] [payload, workerID]) (\<lambda>r.
       case r of
         Inl e \<Rightarrow> cont (Some (Wrap (''discard invalid sequential payload from queue '' @ queueName) e))
       | Inr _ \<Rightarrow> cont None)"

definition join_cleanup :: "goerr \<Rightarrow> goerr option \<Rightarrow> goerr" where
  "join_cleanup e c = (case c of None \<Rightarrow> e | Some c \<Rightarrow> Joined e c)"

definition fetchFromSequentialQueue :: "cjson \<Rightarrow> (string \<Rightarrow> string option) \<Rightarrow> fetcher \<Rightarrow> string \<Rightarrow> queueInfo \<Rightarrow>
    ('x locals_scheme, fetched) go" where
  "fetchFromSequentialQueue cj fl f workerID queue =
     Local (sema_take (q_name queue)) (\<lambda>l.
       if q_name queue \<in> set (sequentialSema l) then Done (None, queueFetchLocked, None)
       else
         Eval (sequential_fetch cj
                [q_queueKey queue, InFlight (f_keys f) workerID, q_sequentialLockKey queue]
                [workerID, string_of_int (durationMilliseconds (f_sequentialLockTTL f)),
                 Finalization (f_keys f) []]) (\<lambda>r. case r of
           Inl e \<Rightarrow>
             if is_nil e then releasing (q_name queue) (None, queueFetchEmpty, None)
             else Local (sema_free (q_name queue)) (\<lambda>_. CtxDone (\<lambda>done.
                    Done (None, queueFetchEmpty, Some (if done then CtxErr else e))))
         | Inr result \<Rightarrow>
             (case parseSequentialFetchResult result of
                (queueFetchJob, jobData) \<Rightarrow>
                  (case UnmarshalJob fl jobData of
                     None \<Rightarrow>
                       discardClaimedSequentialPayload (f_keys f) workerID (q_name queue) jobData (\<lambda>cleanup.
                         releasing (q_name queue) (None, queueFetchEmpty, Some (join_cleanup unmarshal_error cleanup)))
                   | Some job \<Rightarrow>
                       go_bind (prepareFetchedJob (f_keys f) workerID job jobData) (\<lambda>(job, err). case err of
                         Some e \<Rightarrow>
                           releaseClaimedSequentialLock (f_keys f) workerID (q_name queue) (\<lambda>cleanup.
                             releasing (q_name queue) (None, queueFetchEmpty, Some (join_cleanup e cleanup)))
                       | None \<Rightarrow>
                           Local (holdSequentialLock (q_name queue)) (\<lambda>_.
                             Done (Some job, queueFetchJob, None))))
              | (st, _) \<Rightarrow> releasing (q_name queue) (None, st, None))))"

definition fetchFromQueueInfo :: "cjson \<Rightarrow> (string \<Rightarrow> string option) \<Rightarrow> fetcher \<Rightarrow> string \<Rightarrow> queueInfo \<Rightarrow>
    ('x locals_scheme, fetched) go" where
  "fetchFromQueueInfo cj fl f workerID queue =
     (if q_sequential queue then fetchFromSequentialQueue cj fl f workerID queue
      else
        Eval (fetch_job cj [q_queueKey queue, InFlight (f_keys f) workerID] [Finalization (f_keys f) []]) (\<lambda>r.
          case r of
            Inl e \<Rightarrow> Done (None, queueFetchEmpty, Some e)
          | Inr result \<Rightarrow>
              (case parseSequentialFetchResult result of
                 (queueFetchJob, jobData) \<Rightarrow>
                   (case UnmarshalJob fl jobData of
                      None \<Rightarrow> Done (None, queueFetchEmpty, Some unmarshal_error)
                    | Some job \<Rightarrow>
                        go_bind (prepareFetchedJob (f_keys f) workerID job jobData) (\<lambda>(job, err). case err of
                          Some e \<Rightarrow> Done (None, queueFetchEmpty, Some e)
                        | None \<Rightarrow> Done (Some job, queueFetchJob, None)))
               | (st, _) \<Rightarrow> Done (None, st, None))))"

text \<open>
  The weighted loop skips a locked sequential queue and draws again.  A round either ends the loop
  or skips another active queue, so one round more than there are active queues is enough.
\<close>

fun fetchWeighted_from :: "nat \<Rightarrow> cjson \<Rightarrow> (string \<Rightarrow> string option) \<Rightarrow> fetcher \<Rightarrow> string \<Rightarrow> string list \<Rightarrow>
    ('x locals_scheme, job option \<times> goerr option) go" where
  "fetchWeighted_from 0 cj fl f workerID skipped = Done (None, None)"
| "fetchWeighted_from (Suc n) cj fl f workerID skipped =
     go_bind (fetcher_selectWeightedQueueSkipping f skipped) (\<lambda>sel. case sel of
       None \<Rightarrow> Done (None, None)
     | Some queue \<Rightarrow>
         go_bind (fetchFromQueueInfo cj fl f workerID queue) (\<lambda>(job, st, err).
           if err \<noteq> None \<or> job \<noteq> None then Done (job, err)
           else if \<not> q_sequential queue \<or> st \<noteq> queueFetchLocked then Done (None, None)
           else fetchWeighted_from n cj fl f workerID (appendSkippedQueueName skipped (q_name queue))))"

definition fetchWeighted :: "cjson \<Rightarrow> (string \<Rightarrow> string option) \<Rightarrow> fetcher \<Rightarrow> string \<Rightarrow>
    ('x locals_scheme, job option \<times> goerr option) go" where
  "fetchWeighted cj fl f workerID = fetchWeighted_from (Suc (length (f_activeQueues f))) cj fl f workerID []"

fun fetchStrict_from :: "cjson \<Rightarrow> (string \<Rightarrow> string option) \<Rightarrow> fetcher \<Rightarrow> string \<Rightarrow> queueInfo list \<Rightarrow>
    ('x locals_scheme, job option \<times> goerr option) go" where
  "fetchStrict_from cj fl f workerID [] = Done (None, None)"
| "fetchStrict_from cj fl f workerID (q # qs) =
     go_bind (fetchFromQueueInfo cj fl f workerID q) (\<lambda>(job, _, err).
       if err \<noteq> None then Done (None, err)
       else if job \<noteq> None then Done (job, None)
       else fetchStrict_from cj fl f workerID qs)"

definition fetchStrict :: "cjson \<Rightarrow> (string \<Rightarrow> string option) \<Rightarrow> fetcher \<Rightarrow> string \<Rightarrow>
    ('x locals_scheme, job option \<times> goerr option) go" where
  "fetchStrict cj fl f workerID = fetchStrict_from cj fl f workerID (f_activeQueues f)"

definition Fetch :: "cjson \<Rightarrow> (string \<Rightarrow> string option) \<Rightarrow> fetcher \<Rightarrow> string \<Rightarrow>
    ('x locals_scheme, job option \<times> goerr option) go" where
  "Fetch cj fl f workerID =
     (if f_strictPriority f then fetchStrict cj fl f workerID else fetchWeighted cj fl f workerID)"

section \<open>Blocking fetches\<close>

definition poll_wait :: "fetcher \<Rightarrow> int \<Rightarrow> int" where
  "poll_wait f maxWait =
     (let interval = (if f_pollInterval f \<le> 0 then PollInterval DefaultWorkerSettings else f_pollInterval f)
      in if 0 < maxWait \<and> maxWait < interval then maxWait else interval)"

definition waitPollInterval :: "fetcher \<Rightarrow> int \<Rightarrow> (goerr option \<Rightarrow> ('l, 'a) go) \<Rightarrow> ('l, 'a) go" where
  "waitPollInterval f maxWait cont =
     Wait (poll_wait f maxWait) (\<lambda>fired. cont (if fired then None else Some CtxErr))"

definition blockingFetchFromQueueInfo :: "cjson \<Rightarrow> (string \<Rightarrow> string option) \<Rightarrow> fetcher \<Rightarrow> string \<Rightarrow> queueInfo \<Rightarrow>
    int \<Rightarrow> ('x locals_scheme, job option \<times> goerr option) go" where
  "blockingFetchFromQueueInfo cj fl f workerID queue blockTimeout =
     go_bind (fetchFromQueueInfo cj fl f workerID queue) (\<lambda>(job, _, err).
       if err \<noteq> None \<or> job \<noteq> None
       then CtxDone (\<lambda>done. if done then Done (None, Some CtxErr) else Done (job, err))
       else waitPollInterval f blockTimeout (\<lambda>e. Done (None, e)))"

text \<open>
  The first loop of \<^verbatim>\<open>blockingFetchWeighted\<close>: draw until a queue is not a locked sequential one.
  The left result leaves the function; the right one is the chosen queue, whether it was an empty
  sequential queue, and the queues skipped.
\<close>

fun select_primary :: "nat \<Rightarrow> cjson \<Rightarrow> (string \<Rightarrow> string option) \<Rightarrow> fetcher \<Rightarrow> string \<Rightarrow> string list \<Rightarrow>
    ('x locals_scheme, (job option \<times> goerr option) + (queueInfo option \<times> bool \<times> string list)) go" where
  "select_primary 0 cj fl f workerID skipped = Done (Inr (None, False, skipped))"
| "select_primary (Suc n) cj fl f workerID skipped =
     go_bind (fetcher_selectWeightedQueueSkipping f skipped) (\<lambda>sel. case sel of
       None \<Rightarrow> Done (Inr (None, False, skipped))
     | Some queue \<Rightarrow>
         go_bind (fetchFromQueueInfo cj fl f workerID queue) (\<lambda>(job, st, err).
           if err \<noteq> None then Done (Inl (None, err))
           else if job \<noteq> None then Done (Inl (job, None))
           else if q_sequential queue \<and> st = queueFetchLocked
           then select_primary n cj fl f workerID (appendSkippedQueueName skipped (q_name queue))
           else Done (Inr (Some queue, q_sequential queue \<and> st = queueFetchEmpty, skipped))))"

fun fetch_remaining :: "cjson \<Rightarrow> (string \<Rightarrow> string option) \<Rightarrow> fetcher \<Rightarrow> string \<Rightarrow> queueInfo option \<Rightarrow> bool \<Rightarrow>
    string list \<Rightarrow> queueInfo list \<Rightarrow> ('x locals_scheme, (job option \<times> goerr option) + bool) go" where
  "fetch_remaining cj fl f workerID selected sawEmpty skipped [] = Done (Inr sawEmpty)"
| "fetch_remaining cj fl f workerID selected sawEmpty skipped (q # qs) =
     (if map_option q_name selected = Some (q_name q) \<or> queueNameSkipped (q_name q) skipped
      then fetch_remaining cj fl f workerID selected sawEmpty skipped qs
      else
        go_bind (fetchFromQueueInfo cj fl f workerID q) (\<lambda>(job, st, err).
          if err \<noteq> None then Done (Inl (None, err))
          else if job \<noteq> None then Done (Inl (job, None))
          else fetch_remaining cj fl f workerID selected
                 (sawEmpty \<or> q_sequential q \<and> st = queueFetchEmpty)
                 (if q_sequential q \<and> st = queueFetchLocked
                  then appendSkippedQueueName skipped (q_name q) else skipped) qs))"

definition blockingFetchWeighted :: "cjson \<Rightarrow> (string \<Rightarrow> string option) \<Rightarrow> fetcher \<Rightarrow> string \<Rightarrow> int \<Rightarrow>
    ('x locals_scheme, job option \<times> goerr option) go" where
  "blockingFetchWeighted cj fl f workerID blockTimeout =
     (if f_activeQueues f = [] then waitPollInterval f blockTimeout (\<lambda>e. Done (None, e))
      else
        go_bind (select_primary (Suc (length (f_activeQueues f))) cj fl f workerID []) (\<lambda>res. case res of
          Inl r \<Rightarrow> Done r
        | Inr (selected, sawEmpty, skipped) \<Rightarrow>
            go_bind (fetch_remaining cj fl f workerID selected sawEmpty skipped (f_activeQueues f)) (\<lambda>res.
              case res of
                Inl r \<Rightarrow> Done r
              | Inr sawEmpty \<Rightarrow>
                  if length (f_blockableQueues f) \<noteq> 1 \<or> sawEmpty
                  then waitPollInterval f blockTimeout (\<lambda>e. Done (None, e))
                  else blockingFetchFromQueueInfo cj fl f workerID (f_blockableQueues f ! 0) blockTimeout)))"

fun try_all_strict :: "cjson \<Rightarrow> (string \<Rightarrow> string option) \<Rightarrow> fetcher \<Rightarrow> string \<Rightarrow> bool \<Rightarrow> queueInfo list \<Rightarrow>
    ('x locals_scheme, (job option \<times> goerr option) + bool) go" where
  "try_all_strict cj fl f workerID sawEmpty [] = Done (Inr sawEmpty)"
| "try_all_strict cj fl f workerID sawEmpty (q # qs) =
     go_bind (fetchFromQueueInfo cj fl f workerID q) (\<lambda>(job, st, err).
       if err \<noteq> None then Done (Inl (None, err))
       else if job \<noteq> None then Done (Inl (job, None))
       else try_all_strict cj fl f workerID (sawEmpty \<or> q_sequential q \<and> st = queueFetchEmpty) qs)"

definition blockingFetchStrict :: "cjson \<Rightarrow> (string \<Rightarrow> string option) \<Rightarrow> fetcher \<Rightarrow> string \<Rightarrow> int \<Rightarrow>
    ('x locals_scheme, job option \<times> goerr option) go" where
  "blockingFetchStrict cj fl f workerID blockTimeout =
     (if f_activeQueues f = [] then waitPollInterval f blockTimeout (\<lambda>e. Done (None, e))
      else
        go_bind (try_all_strict cj fl f workerID False (f_activeQueues f)) (\<lambda>res. case res of
          Inl r \<Rightarrow> Done r
        | Inr sawEmpty \<Rightarrow>
            if length (f_blockableQueues f) \<noteq> 1 \<or> sawEmpty
            then waitPollInterval f blockTimeout (\<lambda>e. Done (None, e))
            else blockingFetchFromQueueInfo cj fl f workerID (f_blockableQueues f ! 0) blockTimeout))"

definition BlockingFetch :: "cjson \<Rightarrow> (string \<Rightarrow> string option) \<Rightarrow> fetcher \<Rightarrow> string \<Rightarrow> int \<Rightarrow>
    ('x locals_scheme, job option \<times> goerr option) go" where
  "BlockingFetch cj fl f workerID blockTimeout =
     (if blockTimeout < 1000000000
      then go_bind (Fetch cj fl f workerID) (\<lambda>(job, err).
             if err \<noteq> None \<or> job \<noteq> None then Done (job, err)
             else waitPollInterval f blockTimeout (\<lambda>e. Done (None, e)))
      else if f_strictPriority f then blockingFetchStrict cj fl f workerID blockTimeout
      else blockingFetchWeighted cj fl f workerID blockTimeout)"

section \<open>Ending an attempt\<close>

definition Ack :: "fetcher \<Rightarrow> string \<Rightarrow> job \<Rightarrow> ('l, job \<times> goerr option) go" where
  "Ack f workerID job = (case jobPayload job of
     Inl e \<Rightarrow> Done (job, Some e)
   | Inr payload \<Rightarrow>
       Eval (ack_job ([InFlight (f_keys f) workerID, Finalization (f_keys f) (j_ID job)] @
                      (if j_UniqueKey job \<noteq> [] then [Unique (f_keys f) (j_UniqueKey job)] else []))
               [payload, j_ID job]) (\<lambda>r. case r of
         Inl e \<Rightarrow> Done (job, Some (Wrap (''ack job '' @ j_ID job) e))
       | Inr _ \<Rightarrow> Done (ClearFinalization job, None)))"

definition NackAt :: "(string \<Rightarrow> string option) \<Rightarrow> fetcher \<Rightarrow> string \<Rightarrow> job \<Rightarrow> int \<Rightarrow> ('l, job \<times> goerr option) go" where
  "NackAt fl f workerID job retryAt = (case jobPayload job of
     Inl e \<Rightarrow> Done (job, Some e)
   | Inr payload \<Rightarrow>
       (case durableJobPayload fl job of
          Inl e \<Rightarrow> Done (job, Some e)
        | Inr nextJob \<Rightarrow>
            (let nextJob = nextJob\<lparr>j_RetryCount := i64 (j_RetryCount nextJob + 1)\<rparr>
             in case Marshal nextJob of
                  None \<Rightarrow> Done (job, Some marshal_error)
                | Some newData \<Rightarrow>
                    Eval (retry_job [InFlight (f_keys f) workerID, Retry (f_keys f), Finalization (f_keys f) (j_ID job)]
                            [payload, string_of_int (Unix retryAt), newData]) (\<lambda>r. case r of
                      Inl e \<Rightarrow> Done (job, Some (Wrap (''nack job '' @ j_ID job @ '' for retry'') e))
                    | Inr _ \<Rightarrow> Done (ClearFinalization (job\<lparr>j_RetryCount := j_RetryCount nextJob\<rparr>), None)))))"

definition Nack :: "(string \<Rightarrow> string option) \<Rightarrow> fetcher \<Rightarrow> string \<Rightarrow> job \<Rightarrow> int \<Rightarrow> ('l, job \<times> goerr option) go" where
  "Nack fl f workerID job retryIn =
     (if 0 < retryIn then
        redisNow (\<lambda>now. case now of
          Inl e \<Rightarrow> Done (job, Some (Wrap ''get Redis time for retry'' e))
        | Inr now \<Rightarrow> NackAt fl f workerID job (now + retryIn))
      else (case jobPayload job of
        Inl e \<Rightarrow> Done (job, Some e)
      | Inr payload \<Rightarrow>
          Eval (ack_job [InFlight (f_keys f) workerID, Finalization (f_keys f) (j_ID job)] [payload, j_ID job]) (\<lambda>r.
            case r of
              Inl e \<Rightarrow> Done (job, Some (Wrap (''nack job '' @ j_ID job) e))
            | Inr _ \<Rightarrow> Done (ClearFinalization job, None))))"

definition MoveToDead :: "(string \<Rightarrow> string option) \<Rightarrow> fetcher \<Rightarrow> string \<Rightarrow> job \<Rightarrow> ('l, job \<times> goerr option) go" where
  "MoveToDead fl f workerID job = (case jobPayload job of
     Inl e \<Rightarrow> Done (job, Some e)
   | Inr payload \<Rightarrow>
       Now (\<lambda>now. case durableJobPayload fl job of
          Inl e \<Rightarrow> Done (job, Some e)
        | Inr deadJob \<Rightarrow>
            (case Marshal (deadJob\<lparr>j_FailedAt := Some now\<rparr>) of
               None \<Rightarrow> Done (job, Some marshal_error)
             | Some newData \<Rightarrow>
                 Eval (move_to_dead_job
                        ([InFlight (f_keys f) workerID, Dead (f_keys f), Finalization (f_keys f) (j_ID job)] @
                         (if j_UniqueKey job \<noteq> [] then [Unique (f_keys f) (j_UniqueKey job)] else []))
                        [payload, string_of_int (Unix now), newData, j_ID job]) (\<lambda>r. case r of
                   Inl e \<Rightarrow> Done (job, Some (Wrap (''move job '' @ j_ID job @ '' to dead queue'') e))
                 | Inr _ \<Rightarrow> Done (ClearFinalization (job\<lparr>j_FailedAt := Some now\<rparr>), None)))))"

definition MarkFinalization :: "(string \<Rightarrow> string option) \<Rightarrow> fetcher \<Rightarrow> string \<Rightarrow> job \<Rightarrow> jobfinalization \<Rightarrow>
    ('l, job \<times> goerr option) go" where
  "MarkFinalization fl f workerID job fin =
     (if j_finalization job \<noteq> None then Done (job, None)
      else (case jobPayload job of
        Inl e \<Rightarrow> Done (job, Some e)
      | Inr payload \<Rightarrow>
          (case payloadWithFinalization fl payload fin of
             Inl e \<Rightarrow> Done (job, Some e)
           | Inr finalizedData \<Rightarrow>
               (let what = ''mark job '' @ j_ID job @ '' finalization''
                in Eval (mark_job_finalization
                          [InFlight (f_keys f) workerID, Queue (f_keys f) (j_Queue job),
                           Finalization (f_keys f) (j_ID job)] [payload, finalizedData]) (\<lambda>r. case r of
                     Inl e \<Rightarrow> Done (job, Some (Wrap what e))
                   | Inr (RInt marked) \<Rightarrow>
                       if marked = 0 then Done (job, None)
                       else if marked \<noteq> 1 \<and> marked \<noteq> 2
                       then Done (job, Some (Plain (what @ '': unexpected script status'')))
                       else Done (SetRaw finalizedData (SetFinalization fin job), None)
                   | Inr _ \<Rightarrow> Done (job, Some (Plain (what @ '': unexpected script result''))))))))"

definition fetcher_requeue :: "(string \<Rightarrow> string option) \<Rightarrow> fetcher \<Rightarrow> string \<Rightarrow> job \<Rightarrow> ('l, goerr option) go" where
  "fetcher_requeue fl f workerID job = (case jobPayload job of
     Inl e \<Rightarrow> Done (Some e)
   | Inr payload \<Rightarrow>
       (case durableJobPayload fl job of
          Inl e \<Rightarrow> Done (Some e)
        | Inr requeuedJob \<Rightarrow>
            (case Marshal requeuedJob of
               None \<Rightarrow> Done (Some marshal_error)
             | Some newData \<Rightarrow>
                 Eval (requeue_job [InFlight (f_keys f) workerID, Queue (f_keys f) (j_Queue job)] [payload, newData]) (\<lambda>r.
                   case r of
                     Inl e \<Rightarrow> Done (Some (Wrap (''requeue job '' @ j_ID job @ '' to queue '' @ j_Queue job) e))
                   | Inr _ \<Rightarrow> Done None))))"

section \<open>Sequential locks\<close>

fun renew_locks :: "fetcher \<Rightarrow> string \<Rightarrow> queueInfo list \<Rightarrow> ('x locals_scheme, unit) go" where
  "renew_locks f workerID [] = Done ()"
| "renew_locks f workerID (q # qs) =
     (if \<not> q_sequential q then renew_locks f workerID qs
      else
        Local (\<lambda>l. l) (\<lambda>l.
          if q_name q \<notin> set (sequentialHeld l) then renew_locks f workerID qs
          else
            Cmd (cGET (q_sequentialLockKey q)) (\<lambda>holder.
              if holder = Inr (RBulk workerID)
              then Cmd (cPEXPIRE (q_sequentialLockKey q) (durationMilliseconds (f_sequentialLockTTL f)))
                     (\<lambda>_. renew_locks f workerID qs)
              else renew_locks f workerID qs)))"

definition RenewSequentialLocks :: "fetcher \<Rightarrow> string \<Rightarrow> ('x locals_scheme, unit) go" where
  "RenewSequentialLocks f workerID = renew_locks f workerID (f_queues f)"

definition ReleaseSequentialLock :: "fetcher \<Rightarrow> string \<Rightarrow> string \<Rightarrow> ('x locals_scheme, unit) go" where
  "ReleaseSequentialLock f workerID queueName = (case f_queueByName f queueName of
     None \<Rightarrow> Done ()
   | Some queue \<Rightarrow>
       if \<not> q_sequential queue then Done ()
       else
         Local (clearSequentialLock queueName) (\<lambda>_.
           Eval (release_sequential_lock [q_sequentialLockKey queue] [workerID]) (\<lambda>_.
             Local (sema_free queueName) (\<lambda>_. Done ()))))"

end
