(* ===== verification/Conservation.thy ===== *)
theory Conservation
  imports Fetcher
begin

text \<open>
  No job is lost.  A payload carries a job id when the server's JSON library decodes it to an object
  with that id, a class and a usable queue; a job is present when some queue, in-flight list,
  scheduled, retry or dead set of the namespace holds a payload that carries it.

  The locale \<open>cjson_lib\<close> states what the development relies on of the JSON library of the server;
  under it every script of the fetcher, the scheduler and the reaper keeps every job present,
  acknowledgement of that very job excepted.  \<open>GoProg.pool_invariant\<close> lifts this to any number of
  workers with lost, repeated and unanswered requests.
\<close>

section \<open>What the scripts rely on of the server's JSON library\<close>

definition same_fields :: "json \<Rightarrow> json \<Rightarrow> bool" where
  "same_fields j j' \<longleftrightarrow> is_table j' \<and>
     (\<forall>f. (table_field j f = None \<longleftrightarrow> table_field j' f = None) \<and>
          (\<forall>s. table_field j f = Some (JStr s) \<longleftrightarrow> table_field j' f = Some (JStr s)))"

fun json_depth :: "json \<Rightarrow> nat" where
  "json_depth (JArr xs) = Suc (fold max (map json_depth xs) 0)"
| "json_depth (JObj ms) = Suc (fold max (map (\<lambda>m. json_depth (snd m)) ms) 0)"
| "json_depth _ = 0"

text \<open>
  Encoding a table and decoding it again gives the table's fields, and what was encoded once can be
  encoded again; a well-formed document of at most
  the library's depth limit (1000 levels) decodes to its fields, the last binding of a name winning.
\<close>

locale cjson_lib =
  fixes cj :: cjson
  assumes decode_encode:
      "is_table j \<Longrightarrow> cj_encode cj j = Some s \<Longrightarrow> \<exists>j'. cj_decode cj s = Some j' \<and> same_fields j j'"
    and encode_again:
      "is_table j \<Longrightarrow> cj_encode cj j = Some s \<Longrightarrow> cj_decode cj s = Some j' \<Longrightarrow>
         cj_encode cj (table_without ''finalization'' j') \<noteq> None"
    and decode_print:
      "json_ok (JObj ms) \<Longrightarrow> json_depth (JObj ms) \<le> 1000 \<Longrightarrow>
         \<exists>j'. cj_decode cj (json_print (JObj ms)) = Some j' \<and> same_fields (JObj ms) j'"

definition std_cjson :: cjson where
  "std_cjson = \<lparr>cj_decode = json_parse, cj_encode = (\<lambda>j. if json_ok j then Some (json_print j) else None), cj_number = (\<lambda>n. n)\<rparr>"

lemma json_ok_without: "json_ok j \<Longrightarrow> json_ok (table_without f j)"
  by (cases j) (simp_all add: table_without_def)

interpretation std: cjson_lib std_cjson
proof
  show "\<exists>j'. cj_decode std_cjson s = Some j' \<and> same_fields j j'"
    if "is_table j" "cj_encode std_cjson j = Some s" for j s
    using that by (auto simp: std_cjson_def json_parse_print same_fields_def split: if_splits)
  show "cj_encode std_cjson (table_without ''finalization'' j') \<noteq> None"
    if "is_table j" "cj_encode std_cjson j = Some s" "cj_decode std_cjson s = Some j'" for j s j'
    using that by (auto simp: std_cjson_def json_parse_print json_ok_without split: if_splits)
  show "\<exists>j'. cj_decode std_cjson (json_print (JObj ms)) = Some j' \<and> same_fields (JObj ms) j'"
    if "json_ok (JObj ms)" for ms
    using json_parse_print [OF that] by (auto simp: std_cjson_def same_fields_def is_table_def)
qed

section \<open>Presence\<close>

definition carries :: "cjson \<Rightarrow> string \<Rightarrow> string \<Rightarrow> bool" where
  "carries cj jid p = (case cj_decode cj p of
      None \<Rightarrow> False
    | Some job \<Rightarrow> is_table job \<and> nonempty_str_field job ''jid'' = Some jid \<and>
        nonempty_str_field job ''class'' \<noteq> None \<and> target_queue job \<noteq> None \<and>
        cj_encode cj (table_without ''finalization'' job) \<noteq> None)"

datatype place = InQueue string | InFlightOf string | InScheduled | InRetry | InDead

fun payloads :: "keys \<Rightarrow> db \<Rightarrow> place \<Rightarrow> string set" where
  "payloads k d (InQueue q) = set (lst d (Queue k q))"
| "payloads k d (InFlightOf w) = set (lst d (InFlight k w))"
| "payloads k d InScheduled = snd ` set (zst d (Scheduled k))"
| "payloads k d InRetry = snd ` set (zst d (Retry k))"
| "payloads k d InDead = snd ` set (zst d (Dead k))"

definition present :: "(string \<Rightarrow> bool) \<Rightarrow> keys \<Rightarrow> db \<Rightarrow> bool" where
  "present good k d \<longleftrightarrow> (\<exists>p l. good p \<and> p \<in> payloads k d l)"

lemma snd_zadd1 [simp]: "snd ` set (zadd1 z (sc, p)) = insert p (snd ` set z)"
  by (auto simp: zadd1_def set_insort_key image_iff)

lemma remove1_leaves: "y \<in> set xs \<Longrightarrow> y \<notin> set (remove1 x xs) \<Longrightarrow> y = x"
  by (metis in_set_remove1)

lemma payloads_take: "payloads k d l - {p} \<subseteq> payloads k (take_inflight (InFlight k w) p d) l"
  by (cases l) (auto simp: take_inflight_def redis_simps dest: remove1_leaves)

lemma payloads_markers [simp]:
  "payloads k (drop_key (Finalization k i) d) l = payloads k d l"
  "payloads k (drop_key (Unique k i) d) l = payloads k d l"
  "payloads k (drop_key (SequentialLock k i) d) l = payloads k d l"
  "payloads k (set_str (Finalization k i) v e d) l = payloads k d l"
  "payloads k (set_str (Unique k i) v e d) l = payloads k d l"
  "payloads k (set_str (SequentialLock k i) v e d) l = payloads k d l"
  by (cases l; simp add: redis_simps)+

text \<open>A payload leaves one place; the job stays present when a carrying payload appears.\<close>

lemma present_moved:
  assumes "present good k d"
    and "\<And>l. payloads k d l - {p} \<subseteq> payloads k d' l"
    and "good p \<Longrightarrow> \<exists>p' l. good p' \<and> p' \<in> payloads k d' l"
  shows "present good k d'"
  using assms unfolding present_def by blast

lemma preserves_aon:
  assumes "all_or_nothing p" "\<And>d r d'. run_lua exec p d = (Inr r, d') \<Longrightarrow> I d \<Longrightarrow> I d'"
  shows "preserves (run_lua exec p) I"
  unfolding preserves_def
proof (intro allI impI)
  fix d
  assume I: "I d"
  obtain r d' where r: "run_lua exec p d = (r, d')" by fastforce
  show "I (snd (run_lua exec p d))"
  proof (cases r)
    case (Inl e)
    then have "d' = d"
      using assms(1) r by (auto simp: all_or_nothing_def)
    then show ?thesis using I r by simp
  next
    case (Inr x)
    then show ?thesis using assms(2) r I by simp
  qed
qed

lemma run_ok_types:
  "run_lua exec (retry_job [fl, ret, fin] xs) d = (Inr r, d') \<Longrightarrow> listy d fl \<and> zsetty d ret"
  "run_lua exec (move_to_dead_job ([fl, dead, fin] @ us) xs) d = (Inr r, d') \<Longrightarrow> listy d fl \<and> zsetty d dead"
  "run_lua exec (requeue_job [fl, q] xs) d = (Inr r, d') \<Longrightarrow> listy d fl \<and> listy d q"
  "run_lua exec (ack_job (fl # ks) xs) d = (Inr r, d') \<Longrightarrow> listy d fl"
  by (auto simp: retry_job_def move_to_dead_job_def requeue_job_def ack_job_def listy_def zsetty_def split: if_splits)

lemma present_take:
  assumes "present good k d"
    and "\<And>l. payloads k (take_inflight (InFlight k w) p d) l \<subseteq> payloads k d' l"
    and "good p \<Longrightarrow> good p'" "p' \<in> payloads k d' l'"
  shows "present good k d'"
proof (rule present_moved [OF assms(1)])
  show "payloads k d l - {p} \<subseteq> payloads k d' l" for l
    using payloads_take assms(2) by blast
  show "\<exists>p' l. good p' \<and> p' \<in> payloads k d' l" if "good p"
    using assms(3) [OF that] assms(4) by blast
qed

lemma retry_keeps:
  assumes "good p \<Longrightarrow> good p'"
  shows "preserves (run_lua exec (retry_job [InFlight k w, Retry k, Finalization k i] [p, string_of_int sc, p']))
    (present good k)"
proof (rule preserves_aon)
  fix d r d'
  assume run: "run_lua exec (retry_job [InFlight k w, Retry k, Finalization k i] [p, string_of_int sc, p']) d = (Inr r, d')"
    and pres: "present good k d"
  let ?z = "put (Retry k) (VZset (zadd1 (zst d (Retry k)) (sc, p')))
      (drop_key (Finalization k i) (take_inflight (InFlight k w) p d))"
  have d': "d' = (if p \<in> set (lst d (InFlight k w)) then ?z else d)"
    using run run_ok_types(1) [OF run] run_retry_job [of d "InFlight k w" "Retry k" "Finalization k i" p sc p']
    by (simp split: if_splits)
  have "present good k ?z"
  proof (rule present_take [OF pres, where p' = p' and l' = InRetry])
    show "payloads k (take_inflight (InFlight k w) p d) l \<subseteq> payloads k ?z l" for l
      by (cases l) (auto simp: redis_simps take_inflight_def)
  qed (use assms in \<open>simp_all add: redis_simps\<close>)
  then show "present good k d'"
    using pres d' by simp
qed (simp add: retry_job_all_or_nothing)

lemma dead_keeps:
  assumes "good p \<Longrightarrow> good p'" "us = [] \<or> us = [Unique k u]"
  shows "preserves (run_lua exec (move_to_dead_job ([InFlight k w, Dead k, Finalization k i] @ us)
    [p, string_of_int sc, p', i])) (present good k)"
proof (rule preserves_aon)
  fix d r d'
  assume run: "run_lua exec (move_to_dead_job ([InFlight k w, Dead k, Finalization k i] @ us)
      [p, string_of_int sc, p', i]) d = (Inr r, d')"
    and pres: "present good k d"
  let ?d1 = "drop_key (Finalization k i) (take_inflight (InFlight k w) p d)"
  let ?z = "\<lambda>d1. put (Dead k) (VZset (zadd1 (zst d (Dead k)) (sc, p'))) d1"
  have d': "d' = (if p \<in> set (lst d (InFlight k w)) then ?z ?d1 else d) \<or>
      d' = (if p \<in> set (lst d (InFlight k w)) then ?z (drop_key (Unique k u) ?d1) else d)"
    using run run_ok_types(2) [OF run] assms(2)
      run_move_to_dead_job(1) [of d "InFlight k w" "Dead k" "Finalization k i" p sc p' i]
      run_move_to_dead_job(2) [of d "InFlight k w" "Dead k" "Finalization k i" "Unique k u" p sc p' i]
    by (auto simp: Let_def split: if_splits)
  have "present good k (?z d1)" if "d1 = ?d1 \<or> d1 = drop_key (Unique k u) ?d1" for d1
  proof (rule present_take [OF pres, where p' = p' and l' = InDead])
    show "payloads k (take_inflight (InFlight k w) p d) l \<subseteq> payloads k (?z d1) l" for l
      using that by (cases l) (auto simp: redis_simps take_inflight_def)
  qed (use assms in \<open>simp_all add: redis_simps\<close>)
  then show "present good k d'"
    using pres d' by (auto split: if_splits)
qed (rule move_to_dead_job_all_or_nothing [where u = "Unique k u"]; use assms(2) in simp)

lemma requeue_keeps:
  assumes "good p \<Longrightarrow> good p'"
  shows "preserves (run_lua exec (requeue_job [InFlight k w, Queue k q] [p, p'])) (present good k)"
proof (rule preserves_aon)
  fix d r d'
  assume run: "run_lua exec (requeue_job [InFlight k w, Queue k q] [p, p']) d = (Inr r, d')"
    and pres: "present good k d"
  let ?z = "put (Queue k q) (VList (p' # lst d (Queue k q))) (take_inflight (InFlight k w) p d)"
  have d': "d' = (if p \<in> set (lst d (InFlight k w)) then ?z else d)"
    using run run_ok_types(3) [OF run] run_requeue_job [of d "InFlight k w" "Queue k q" p p']
    by (simp split: if_splits)
  have "present good k ?z"
  proof (rule present_take [OF pres, where p' = p' and l' = "InQueue q"])
    show "payloads k (take_inflight (InFlight k w) p d) l \<subseteq> payloads k ?z l" for l
      by (cases l) (auto simp: redis_simps take_inflight_def)
  qed (use assms in \<open>simp_all add: redis_simps\<close>)
  then show "present good k d'"
    using pres d' by simp
qed (simp add: requeue_job_all_or_nothing)

lemma ack_keeps:
  assumes "\<not> good p" "us = [] \<or> us = [Unique k u]"
  shows "preserves (run_lua exec (ack_job ([InFlight k w, Finalization k i] @ us) [p, i])) (present good k)"
proof (rule preserves_aon)
  fix d r d'
  assume run: "run_lua exec (ack_job ([InFlight k w, Finalization k i] @ us) [p, i]) d = (Inr r, d')"
    and pres: "present good k d"
  have "listy d (InFlight k w)"
    using run_ok_types(4) run by simp
  then have "d' = d \<or> (\<exists>d1. d1 = drop_key (Finalization k i) (take_inflight (InFlight k w) p d) \<and>
      (d' = d1 \<or> d' = drop_key (Unique k u) d1))"
    using run assms(2) run_ack_job(1) [of d "InFlight k w" "Finalization k i" p i]
      run_ack_job(2) [of d "InFlight k w" "Finalization k i" "Unique k u" p i]
    by (auto split: if_splits)
  then have "payloads k (take_inflight (InFlight k w) p d) l \<subseteq> payloads k d' l \<or> d' = d" for l
    by auto
  then have "payloads k d l - {p} \<subseteq> payloads k d' l" for l
    using payloads_take by blast
  then show "present good k d'"
    using present_moved [OF pres] assms(1) by blast
qed (use assms(2) ack_job_all_or_nothing in auto)

section \<open>Fetching keeps every job\<close>

lemma table_field_without: "f \<noteq> g \<Longrightarrow> table_field (table_without f j) g = table_field j g"
proof (cases j)
  case (JObj ms)
  assume "f \<noteq> g"
  then have "map_of (rev (filter (\<lambda>p. fst p \<noteq> f) ms)) g = map_of (rev ms) g"
    by (induction ms) (auto simp: map_add_def split: option.splits)
  then show ?thesis
    using JObj by (simp add: table_field_def table_without_def)
qed (simp_all add: table_field_def table_without_def)

lemma same_fields_views:
  assumes "same_fields j j'"
  shows "nonempty_str_field j' f = nonempty_str_field j f" "target_queue j' = target_queue j"
proof -
  have n: "table_field j f = None \<longleftrightarrow> table_field j' f = None"
    and s: "table_field j f = Some (JStr s) \<longleftrightarrow> table_field j' f = Some (JStr s)" for f s
    using assms by (simp_all add: same_fields_def)
  show "nonempty_str_field j' f = nonempty_str_field j f"
    using n [of f] s [of f]
    by (cases "table_field j f"; cases "table_field j' f")
       (auto simp: nonempty_str_field_def split: json.splits)
  show "target_queue j' = target_queue j"
    using n [of "''queue''"] s [of "''queue''"]
    by (cases "table_field j ''queue''"; cases "table_field j' ''queue''")
       (auto simp: target_queue_def split: json.splits)
qed

lemma is_table_without [simp]: "is_table (table_without f j) = is_table j"
  by (cases j) (simp_all add: is_table_def table_without_def)

text \<open>
  A class of payloads that survives fetching: its members carry the job, and what the fetching
  scripts write in place of a member is a member.  The payloads that carry a given id are such a
  class for every library.
\<close>

locale payload_class =
  fixes cj :: cjson and jid :: string and good :: "string \<Rightarrow> bool"
  assumes good_carries: "good p \<Longrightarrow> carries cj jid p"
    and good_strip:
      "good p \<Longrightarrow> cj_decode cj p = Some job \<Longrightarrow> cj_encode cj (table_without ''finalization'' job) = Some t \<Longrightarrow> good t"

context cjson_lib
begin

lemma carries_strip:
  assumes "carries cj jid p" "cj_decode cj p = Some job" "cj_encode cj (table_without ''finalization'' job) = Some t"
  shows "carries cj jid t"
proof -
  have job: "is_table job" "nonempty_str_field job ''jid'' = Some jid"
    "nonempty_str_field job ''class'' \<noteq> None" "target_queue job \<noteq> None"
    using assms(1,2) by (auto simp: carries_def)
  let ?j = "table_without ''finalization'' job"
  obtain j' where j': "cj_decode cj t = Some j'" "same_fields ?j j'"
    using decode_encode [OF _ assms(3)] job(1) by auto
  have "nonempty_str_field ?j f = nonempty_str_field job f" if "f \<noteq> ''finalization''" for f
    using that by (simp add: nonempty_str_field_def table_field_without)
  moreover have "target_queue ?j = target_queue job"
    by (simp add: target_queue_def table_field_without)
  moreover have "cj_encode cj (table_without ''finalization'' j') \<noteq> None"
    using encode_again [OF _ assms(3) j'(1)] job(1) by simp
  ultimately show ?thesis
    using j' job same_fields_views [OF j'(2)] by (simp add: carries_def same_fields_def)
qed

end

sublocale cjson_lib \<subseteq> carrying: payload_class cj jid "carries cj jid" for jid
  by unfold_locales (auto intro: carries_strip)

context payload_class
begin

lemma strip_keeps:
  assumes "good p"
  obtains t where "stripped cj pre p d = Some t" "good t"
proof -
  obtain job where job: "cj_decode cj p = Some job" "is_table job"
    "cj_encode cj (table_without ''finalization'' job) \<noteq> None"
    using good_carries [OF assms] by (auto simp: carries_def split: option.splits)
  then obtain t where t: "cj_encode cj (table_without ''finalization'' job) = Some t"
    by auto
  then have "good t"
    using good_strip [OF assms job(1)] by blast
  moreover have "stripped cj pre p d = Some p \<or> stripped cj pre p d = Some t"
    using job t by (simp add: stripped_def)
  ultimately show thesis
    using assms that by blast
qed

text \<open>The last payload of a queue goes in flight; another payload that cannot be encoded may be dropped.\<close>

lemma present_fetched:
  assumes "present good k d" "lst d (Queue k q) = xs @ [p]"
    and "\<And>l. payloads k (put (Queue k q) (VList xs) d) l \<subseteq> payloads k d' l"
    and "\<And>t. stripped cj pre p d = Some t \<Longrightarrow> t \<in> payloads k d' l'"
  shows "present good k d'"
proof (rule present_moved [OF assms(1)])
  have "payloads k d l - {p} \<subseteq> payloads k (put (Queue k q) (VList xs) d) l" for l
    using assms(2) by (cases l) (auto simp: redis_simps)
  then show "payloads k d l - {p} \<subseteq> payloads k d' l" for l
    using assms(3) by blast
  show "\<exists>p' l. good p' \<and> p' \<in> payloads k d' l" if c: "good p"
    using strip_keeps [OF c, of pre d] assms(4) by blast
qed

lemma fetch_keeps:
  "preserves (run_lua exec (fetch_job cj [Queue k q, InFlight k w] [Finalization k []])) (present good k)"
  unfolding preserves_def
proof (intro allI impI)
  fix d
  assume pres: "present good k d"
  let ?run = "run_lua exec (fetch_job cj [Queue k q, InFlight k w] [Finalization k []]) d"
  show "present good k (snd ?run)"
  proof (cases "listy d (Queue k q) \<and> listy d (InFlight k w)")
    case False
    then have "snd ?run = d"
      by (auto simp: fetch_job_def listy_def)
    then show ?thesis using pres by simp
  next
    case True
    show ?thesis
    proof (cases "lst d (Queue k q)" rule: rev_cases)
      case Nil
      then show ?thesis using True pres by (simp add: run_fetch_job_empty)
    next
      case (snoc xs p)
      have run: "?run = (case stripped cj (Finalization k []) p d of
          Some t \<Rightarrow> (Inr (RArr [RBulk ''job'', RBulk t]), put (InFlight k w) (VList (t # lst d (InFlight k w)))
             (put (Queue k q) (VList xs) d))
        | None \<Rightarrow> (Inl ''Cannot serialise'', put (Queue k q) (VList xs) d))"
        using True snoc by (intro run_fetch_job) simp_all
      show ?thesis
      proof (rule present_fetched [OF pres snoc, where pre = "Finalization k []" and l' = "InFlightOf w"])
        show "payloads k (put (Queue k q) (VList xs) d) l \<subseteq> payloads k (snd ?run) l" for l
          unfolding run by (cases l) (auto simp: redis_simps split: option.splits)
        show "t \<in> payloads k (snd ?run) (InFlightOf w)" if "stripped cj (Finalization k []) p d = Some t" for t
          unfolding run using that by (simp add: redis_simps)
      qed
    qed
  qed
qed

lemma sequential_fetch_keeps:
  "0 < ttl \<Longrightarrow> preserves (run_lua exec (sequential_fetch cj [Queue k q, InFlight k w, SequentialLock k q']
     [w', string_of_int ttl, Finalization k []])) (present good k)"
  unfolding preserves_def
proof (intro allI impI)
  fix d
  assume pres: "present good k d" and ttl: "0 < ttl"
  let ?run = "run_lua exec (sequential_fetch cj [Queue k q, InFlight k w, SequentialLock k q']
     [w', string_of_int ttl, Finalization k []]) d"
  show "present good k (snd ?run)"
  proof (cases "listy d (Queue k q) \<and> listy d (InFlight k w) \<and> stringy d (SequentialLock k q') \<and>
      str d (SequentialLock k q') \<in> {None, Some w'}")
    case False
    have "snd ?run = d"
    proof (cases "listy d (Queue k q) \<and> listy d (InFlight k w)")
      case True
      then show ?thesis
        using False
        by (cases "stringy d (SequentialLock k q')")
           (auto simp: sequential_fetch_def with_str_not wrongtype_def redis_simps bulk_def split: option.splits)
    qed (auto simp: sequential_fetch_def listy_def)
    then show ?thesis using pres by simp
  next
    case True
    show ?thesis
    proof (cases "lst d (Queue k q)" rule: rev_cases)
      case Nil
      then show ?thesis using True pres by (simp add: run_sequential_fetch_empty)
    next
      case (snoc xs p)
      let ?d1 = "\<lambda>t. put (InFlight k w) (VList (t # lst d (InFlight k w))) (put (Queue k q) (VList xs) d)"
      have run: "?run = (case stripped cj (Finalization k []) p d of
          Some t \<Rightarrow> (Inr (RArr [RBulk ''job'', RBulk t]),
             set_str (SequentialLock k q') w' (Some (clock_us d + ttl * 1000)) (?d1 t))
        | None \<Rightarrow> (Inl ''Cannot serialise'', ?d1 p))"
        using True snoc ttl by (intro run_sequential_fetch) simp_all
      show ?thesis
      proof (rule present_fetched [OF pres snoc, where pre = "Finalization k []" and l' = "InFlightOf w"])
        show "payloads k (put (Queue k q) (VList xs) d) l \<subseteq> payloads k (snd ?run) l" for l
          unfolding run by (cases l) (auto simp: redis_simps split: option.splits)
        show "t \<in> payloads k (snd ?run) (InFlightOf w)" if "stripped cj (Finalization k []) p d = Some t" for t
          unfolding run using that by (simp add: redis_simps)
      qed
    qed
  qed
qed

end

section \<open>The remaining scripts of the fetcher\<close>

lemma release_keeps:
  "preserves (run_lua exec (release_sequential_lock [SequentialLock k q] [w])) (present good k)"
  unfolding preserves_def
proof (intro allI impI)
  fix d
  assume "present good k d"
  then show "present good k (snd (run_lua exec (release_sequential_lock [SequentialLock k q] [w]) d))"
    by (cases "stringy d (SequentialLock k q)")
       (simp_all add: run_release_sequential_lock present_def,
        simp add: release_sequential_lock_def with_str_not wrongtype_def)
qed

lemma discard_keeps:
  assumes "\<not> good p"
  shows "preserves (run_lua exec (discard_sequential_fetch [InFlight k w, SequentialLock k q] [p, w'])) (present good k)"
  unfolding preserves_def
proof (intro allI impI)
  fix d
  assume pres: "present good k d"
  let ?run = "run_lua exec (discard_sequential_fetch [InFlight k w, SequentialLock k q] [p, w']) d"
  have "payloads k d l - {p} \<subseteq> payloads k (snd ?run) l" for l
  proof (cases "listy d (InFlight k w)")
    case True
    have "snd ?run \<in> {d, take_inflight (InFlight k w) p d, drop_key (SequentialLock k q) d,
        drop_key (SequentialLock k q) (take_inflight (InFlight k w) p d)}"
      using True
      by (cases "stringy d (SequentialLock k q)")
         (simp_all add: run_discard_sequential_fetch Let_def,
          simp add: discard_sequential_fetch_def redis_simps with_str_not take_inflight_def wrongtype_def)
    then show ?thesis
      using payloads_take [of k d l p w] by auto
  next
    case False
    then show ?thesis by (simp add: discard_sequential_fetch_def listy_def)
  qed
  then show "present good k (snd ?run)"
    using present_moved [OF pres] assms by blast
qed

lemma list_update_others: "set xs - {xs ! i} \<subseteq> set (xs[i := y])"
  using set_update_subset_insert [of "xs[i := y]" i "xs ! i"] by auto

lemma payloads_replace:
  assumes "index_of p (lst d key) = Some i" "key = InFlight k w \<or> key = Queue k w"
  shows "payloads k d l - {p} \<subseteq> payloads k (put key (VList ((lst d key)[i := p'])) d) l"
    and "\<exists>l. p' \<in> payloads k (put key (VList ((lst d key)[i := p'])) d) l"
proof -
  have i: "i < length (lst d key)" "lst d key ! i = p"
    using index_of_Some [OF assms(1)] by auto
  have sub: "set (lst d key) - {p} \<subseteq> set ((lst d key)[i := p'])"
    using list_update_others [of "lst d key" i p'] i by simp
  show "payloads k d l - {p} \<subseteq> payloads k (put key (VList ((lst d key)[i := p'])) d) l"
    using assms(2) sub by (cases l) (auto simp: redis_simps)
  have "p' \<in> set ((lst d key)[i := p'])"
    using i by (simp add: set_update_memI)
  then show "\<exists>l. p' \<in> payloads k (put key (VList ((lst d key)[i := p'])) d) l"
    using assms(2)
    by (elim disjE) (auto simp: redis_simps intro: exI [of _ "InFlightOf w"] exI [of _ "InQueue w"])
qed

lemma present_replaced:
  assumes "present good k d" "index_of p (lst d key) = Some i" "key = InFlight k w \<or> key = Queue k w"
    and "good p \<Longrightarrow> good p'"
  shows "present good k (put key (VList ((lst d key)[i := p'])) d)"
  using present_moved [OF assms(1) payloads_replace(1) [OF assms(2,3)]] payloads_replace(2) [OF assms(2,3)] assms(4)
  by blast

lemma sanitize_keeps:
  assumes "good p \<Longrightarrow> good p'"
  shows "preserves (run_lua exec (sanitize_job_finalization [InFlight k w] [p, p'])) (present good k)"
  unfolding preserves_def
proof (intro allI impI)
  fix d
  assume pres: "present good k d"
  show "present good k (snd (run_lua exec (sanitize_job_finalization [InFlight k w] [p, p']) d))"
  proof (cases "listy d (InFlight k w)")
    case True
    then show ?thesis
      using pres present_replaced [where key = "InFlight k w" and w = w and p = p and p' = p', OF pres _ _ assms]
      by (auto simp: run_sanitize_job_finalization split: option.splits)
  next
    case False
    then show ?thesis using pres by (simp add: sanitize_job_finalization_def listy_def)
  qed
qed

lemma present_marker: "present good k (set_str (Finalization k i) v e d) = present good k d"
  by (simp add: present_def)

lemma mark_keeps:
  assumes "good p \<Longrightarrow> good p'"
  shows "preserves (run_lua exec (mark_job_finalization [InFlight k w, Queue k q, Finalization k i] [p, p']))
    (present good k)"
  unfolding preserves_def
proof (intro allI impI)
  fix d
  assume pres: "present good k d"
  note moved = present_replaced [where key = "InFlight k w" and w = w and p = p and p' = p', OF pres _ _ assms]
    present_replaced [where key = "Queue k q" and w = q and p = p and p' = p', OF pres _ _ assms]
  show "present good k (snd (run_lua exec (mark_job_finalization [InFlight k w, Queue k q, Finalization k i] [p, p']) d))"
  proof (cases "listy d (InFlight k w)")
    case fl: True
    show ?thesis
    proof (cases "listy d (Queue k q)")
      case True
      then show ?thesis
        using fl pres moved by (auto simp: run_mark_job_finalization present_marker split: option.splits)
    next
      case False
      then have ty: "rtype d (Queue k q) \<noteq> ''none''" "rtype d (Queue k q) \<noteq> ''list''"
        by (simp_all add: listy_def)
      have "run_lua exec (mark_job_finalization [InFlight k w, Queue k q, Finalization k i] [p, p']) d =
          run_lua exec (mark_in [InFlight k w, Queue k q, Finalization k i] [p, p'] (InFlight k w) 1
            (want ''queue key'' ''list'' (Queue k q)
              (mark_in [InFlight k w, Queue k q, Finalization k i] [p, p'] (Queue k q) 2 (LRet (RInt 0))))) d"
        using fl by (simp add: mark_job_finalization_def listy_def)
      then show ?thesis
        using pres moved(1) by (simp add: run_mark_in [OF fl] ty present_marker split: option.splits)
    qed
  next
    case False
    then show ?thesis using pres by (simp add: mark_job_finalization_def listy_def)
  qed
qed

section \<open>The scheduler and the reaper keep every job\<close>

lemma carries_sched_target: "carries cj jid p \<Longrightarrow> \<exists>q. sched_target cj p = Some q"
  by (auto simp: carries_def sched_target_def split: option.splits)

lemma carries_orphan_target: "carries cj jid p \<Longrightarrow> \<exists>q fin. orphan_target cj p = Some (q, p, jid, fin)"
  by (auto simp: carries_def orphan_target_def split: option.splits)

lemma in_sched_targets: "p \<in> set items \<Longrightarrow> sched_target cj p = Some q \<Longrightarrow> (q, p) \<in> set (sched_targets cj items)"
  by (induction items) (auto split: option.splits)

lemma in_orphan_targets: "p \<in> set items \<Longrightarrow> orphan_target cj p = Some t \<Longrightarrow> t \<in> set (orphan_targets cj items)"
  by (induction items) (auto split: option.splits)

lemma payloads_push:
  "payloads k d l \<subseteq> payloads k (push_target (Queues k) (Queue k []) t d) l"
  by (cases l) (auto simp: push_target_def Let_def redis_simps)

lemma payloads_push_new:
  "p \<in> payloads k (push_target (Queues k) (Queue k []) (q, p) d) (InQueue q)"
  by (simp add: push_target_def Let_def redis_simps)

lemma payloads_push_fold:
  "payloads k d l \<subseteq> payloads k (fold (push_target (Queues k) (Queue k [])) ts d) l"
  using payloads_push by (induction ts arbitrary: d) (simp, fastforce)

lemma payloads_push_fold_new:
  "(q, p) \<in> set ts \<Longrightarrow> p \<in> payloads k (fold (push_target (Queues k) (Queue k [])) ts d) (InQueue q)"
proof (induction ts arbitrary: d)
  case (Cons t ts)
  then show ?case
    using payloads_push_fold [of k "push_target (Queues k) (Queue k []) t d" "InQueue q" ts]
      payloads_push_new [of p k q d] by auto
qed simp

lemma payloads_zrem:
  assumes "z \<in> {Scheduled k, Retry k, Dead k}"
  shows "payloads k d l - set items \<subseteq> payloads k (fold (zrem1 z) items d) l"
proof -
  have "data (fold (zrem1 z) items d) x = data d x" if "x \<noteq> z" for x
    using data_fold_zrem1 that by metis
  then have "lst (fold (zrem1 z) items d) (Queue k q) = lst d (Queue k q)"
    "lst (fold (zrem1 z) items d) (InFlight k q) = lst d (InFlight k q)"
    "x \<noteq> z \<Longrightarrow> zst (fold (zrem1 z) items d) x = zst d x" for q x
    using assms by (auto intro!: view_cong)
  moreover have "snd ` set (zst (fold (zrem1 z) items d) z) = snd ` set (zst d z) - set items"
    by (auto simp: zst_fold_zrem1 image_iff)
  ultimately show ?thesis
    using assms by (cases l) (auto simp: image_iff)
qed

lemma payloads_orphan:
  "payloads k d l \<subseteq> payloads k (push_orphan (Queues k) (Queue k []) (Finalization k []) t d) l"
  "fst (snd t) \<in> payloads k (push_orphan (Queues k) (Queue k []) (Finalization k []) t d) (InQueue (fst t))"
proof -
  obtain q p jid fin where t: "t = (q, p, jid, fin)" by (cases t)
  have m: "payloads k (set_str (Finalization k [] @ jid) p None x) l = payloads k x l" for x l
    by simp
  show "payloads k d l \<subseteq> payloads k (push_orphan (Queues k) (Queue k []) (Finalization k []) t d) l"
    using payloads_push [of k d l "(q, p)"] unfolding t push_orphan_def prod.case Let_def by (simp add: m del: payloads.simps)
  show "fst (snd t) \<in> payloads k (push_orphan (Queues k) (Queue k []) (Finalization k []) t d) (InQueue (fst t))"
    using payloads_push_new [of p k q d] unfolding t push_orphan_def prod.case Let_def by (simp add: m del: payloads.simps)
qed

lemma payloads_orphan_fold:
  "payloads k d l \<subseteq> payloads k (fold (push_orphan (Queues k) (Queue k []) (Finalization k [])) ts d) l"
  using payloads_orphan(1) by (induction ts arbitrary: d) (simp, fastforce)

lemma payloads_orphan_fold_new:
  "t \<in> set ts \<Longrightarrow>
   fst (snd t) \<in> payloads k (fold (push_orphan (Queues k) (Queue k []) (Finalization k [])) ts d) (InQueue (fst t))"
proof (induction ts arbitrary: d)
  case (Cons u ts)
  show ?case
  proof (cases "t = u")
    case True
    then show ?thesis
      using payloads_orphan(2) [of t k d]
        payloads_orphan_fold [of k "push_orphan (Queues k) (Queue k []) (Finalization k []) t d" "InQueue (fst t)" ts]
      unfolding fold_simps(2) True [symmetric] by blast
  next
    case False
    then show ?thesis
      using Cons by simp
  qed
qed simp

context payload_class
begin

lemma scheduled_keeps:
  assumes "z \<in> {Scheduled k, Retry k}" "0 \<le> limit"
  shows "preserves (run_lua exec (enqueue_scheduled cj [z, Queues k] [string_of_int limit, Queue k []])) (present good k)"
  unfolding preserves_def
proof (intro allI impI)
  fix d
  assume pres: "present good k d"
  let ?items = "due z (nat limit) d"
  let ?ts = "sched_targets cj ?items"
  let ?d1 = "fold (zrem1 z) ?items d"
  let ?d2 = "fold (push_target (Queues k) (Queue k [])) ?ts ?d1"
  have "snd (run_lua exec (enqueue_scheduled cj [z, Queues k] [string_of_int limit, Queue k []]) d) \<in> {d, ?d2}"
    by (rule enqueue_scheduled_state) (use assms in auto)
  moreover have "present good k ?d2"
  proof -
    obtain p l where p: "good p" "p \<in> payloads k d l"
      using pres by (auto simp: present_def)
    obtain q where q: "sched_target cj p = Some q"
      using carries_sched_target [OF good_carries [OF p(1)]] by blast
    show ?thesis
    proof (cases "p \<in> set ?items")
      case True
      then show ?thesis
        using p(1) payloads_push_fold_new in_sched_targets [OF True q] unfolding present_def by blast
    next
      case False
      then have "p \<in> payloads k ?d1 l"
        using p(2) payloads_zrem [of z k d l ?items] assms(1) by auto
      then show ?thesis
        using p(1) payloads_push_fold unfolding present_def by blast
    qed
  qed
  ultimately show "present good k
      (snd (run_lua exec (enqueue_scheduled cj [z, Queues k] [string_of_int limit, Queue k []]) d))"
    using pres by auto
qed

lemma orphans_keep:
  "preserves (run_lua exec (requeue_orphaned cj [InFlight k w, Queues k] [Queue k [], Finalization k []]))
     (present good k)"
  unfolding preserves_def
proof (intro allI impI)
  fix d
  assume pres: "present good k d"
  let ?ts = "orphan_targets cj (lst d (InFlight k w))"
  let ?d1 = "fold (push_orphan (Queues k) (Queue k []) (Finalization k [])) ?ts d"
  let ?d2 = "drop_key (InFlight k w) ?d1"
  have "snd (run_lua exec (requeue_orphaned cj [InFlight k w, Queues k] [Queue k [], Finalization k []]) d) \<in> {d, ?d2}"
    by (rule requeue_orphaned_state) simp_all
  moreover have "present good k ?d2"
  proof -
    obtain p l where p: "good p" "p \<in> payloads k d l"
      using pres by (auto simp: present_def)
    obtain q fin where t: "orphan_target cj p = Some (q, p, jid, fin)"
      using carries_orphan_target [OF good_carries [OF p(1)]] by blast
    have drop: "payloads k ?d2 m = (if m = InFlightOf w then {} else payloads k ?d1 m)" for m
      by (cases m) (auto simp: redis_simps)
    show ?thesis
    proof (cases "l = InFlightOf w")
      case True
      then have "p \<in> payloads k ?d1 (InQueue q)"
        using payloads_orphan_fold_new [OF in_orphan_targets [OF _ t], of "lst d (InFlight k w)" k d] p(2) by simp
      then show ?thesis
        using p(1) drop [of "InQueue q"] unfolding present_def by (metis place.distinct(1))
    next
      case False
      then have "p \<in> payloads k ?d2 l"
        using p(2) payloads_orphan_fold [of k d l ?ts] drop [of l] by auto
      then show ?thesis
        using p(1) unfolding present_def by blast
    qed
  qed
  ultimately show "present good k
      (snd (run_lua exec (requeue_orphaned cj [InFlight k w, Queues k] [Queue k [], Finalization k []]) d))"
    using pres by auto
qed

end

section \<open>Enqueueing makes a job present\<close>

lemma present_pushed: "good p \<Longrightarrow> present good k (push_target (Queues k) (Queue k []) (q, p) d)"
  using payloads_push_new unfolding present_def by blast

lemma present_mono: "present good k d \<Longrightarrow> (\<And>l. payloads k d l \<subseteq> payloads k d' l) \<Longrightarrow> present good k d'"
  unfolding present_def by blast

lemma enqueue_now_keeps:
  "preserves (run_lua exec (enqueue_now [Queues k, Queue k q] [q, p])) (present good k)"
proof (rule preserves_aon)
  show "all_or_nothing (enqueue_now [Queues k, Queue k q] [q, p])"
    using enqueue_now_all_or_nothing [of "Queue k []" q "Queues k" p] by simp
next
  fix d r d'
  assume run: "run_lua exec (enqueue_now [Queues k, Queue k q] [q, p]) d = (Inr r, d')"
    and pres: "present good k d"
  have "setty d (Queues k) \<and> listy d (Queue k q)"
    using run by (auto simp: enqueue_now_def setty_def listy_def split: if_splits)
  then have "d' = push_target (Queues k) (Queue k []) (q, p) d"
    using run run_enqueue_now [of d "Queues k" "Queue k []" q p] by simp
  then show "present good k d'"
    using present_mono [OF pres] payloads_push by simp
qed

end
