(* ===== verification/Delivery.thy ===== *)
theory Delivery
  imports Conservation
begin

text \<open>
  At-least-once delivery.  Programs made of the fetcher's operations in any order and number, run by
  any number of processes against one server, with every request lost, repeated or unanswered at
  will and with time passing in between, keep a job present until an operation acknowledges that job.

  \<open>kept\<close> is the invariant: a payload of the class is stored under one of the job keys, none of
  which has a deadline.  Each \<open>safe_\<close> lemma shows that the requests of one operation keep it.
\<close>

section \<open>The invariant\<close>

definition payload_key :: "keys \<Rightarrow> string \<Rightarrow> bool" where
  "payload_key k x \<longleftrightarrow> (\<exists>q. x = Queue k q) \<or> (\<exists>w. x = InFlight k w) \<or> x \<in> {Scheduled k, Retry k, Dead k}"

definition kept :: "(string \<Rightarrow> bool) \<Rightarrow> keys \<Rightarrow> db \<Rightarrow> bool" where
  "kept good k d \<longleftrightarrow> present good k d \<and> (\<forall>x. payload_key k x \<longrightarrow> expires d x = None) \<and> 0 \<le> clock_us d"

definition undating :: "keys \<Rightarrow> rcmd \<Rightarrow> bool" where
  "undating k c \<longleftrightarrow> (\<forall>x. payload_key k x \<longrightarrow> deadline_key c \<noteq> Some x)"

definition safe_script :: "(string \<Rightarrow> bool) \<Rightarrow> keys \<Rightarrow> lua \<Rightarrow> bool" where
  "safe_script good k p \<longleftrightarrow> enum_free p \<and> preserves (run_lua exec p) (kept good k)"

definition safe_cmd :: "(string \<Rightarrow> bool) \<Rightarrow> keys \<Rightarrow> rcmd \<Rightarrow> bool" where
  "safe_cmd good k c \<longleftrightarrow> sound_cmd exec (kept good k) c"

lemma undating_None: "deadline_key c = None \<Longrightarrow> undating k c"
  by (simp add: undating_def)

lemma lock_not_payload [simp]: "\<not> payload_key k (SequentialLock k q)" "\<not> payload_key k (Unique k u)"
  "\<not> payload_key k (PeriodicLock k n)"
  by (auto simp: payload_key_def)

lemma lua_all_mono: "lua_all P p \<Longrightarrow> (\<And>c. P c \<Longrightarrow> Q c) \<Longrightarrow> lua_all Q p"
  by (induction p) auto

lemma safe_cmdI: "preserves (exec c) (kept good k) \<Longrightarrow> c \<noteq> cTIME \<Longrightarrow> safe_cmd good k c"
  by (simp add: safe_cmd_def sound_cmd_def ans_ok_reply)

lemma safe_scriptI:
  assumes "enum_free p" "preserves (run_lua exec p) (present good k)" "lua_all (undating k) p"
  shows "safe_script good k p"
proof -
  have "expires (snd (run_lua exec p d)) x = None" if "payload_key k x" "expires d x = None" for d x
    using run_lua_undated [of x p d] lua_all_mono [OF assms(3)] that by (auto simp: undating_def)
  then show ?thesis
    using assms(1,2) by (auto simp: safe_script_def kept_def preserves_def run_lua_clock)
qed

lemma safe_readers:
  "safe_cmd good k (cTYPE x)" "safe_cmd good k (cGET x)" "safe_cmd good k cTIME"
  subgoal by (rule safe_cmdI) (auto simp: preserves_def)
  subgoal by (rule safe_cmdI) (auto simp: preserves_def with_str_def split: option.splits rval.splits)
  subgoal by (auto simp: safe_cmd_def sound_cmd_def preserves_def ans_ok_def go_reply_def kept_def)
  done

lemma safe_renew: "safe_cmd good k (cPEXPIRE (SequentialLock k q) ms)"
proof -
  have "payloads k (snd (exec (cPEXPIRE (SequentialLock k q) ms) d)) l = payloads k d l" for d l
  proof -
    have "payloads k (d\<lparr>expires := e\<rparr>) l = payloads k d l" for e
      by (cases l) (simp_all add: lst_def zst_def)
    then show ?thesis
      by (simp add: expire_in_def)
  qed
  moreover have "expires (snd (exec (cPEXPIRE (SequentialLock k q) ms) d)) x = None"
    if "payload_key k x" "expires d x = None" for d x
    using exec_undated [of d x "cPEXPIRE (SequentialLock k q) ms"] that
    by (cases "x = SequentialLock k q") auto
  ultimately show ?thesis
    by (intro safe_cmdI) (auto simp: preserves_def kept_def present_def exec_clock simp del: exec.simps)
qed

lemma kept_tick: "kept good k d \<Longrightarrow> 0 \<le> t \<Longrightarrow> kept good k (tick t d)"
proof -
  assume kept: "kept good k d" and t: "0 \<le> t"
  have und: "payload_key k x \<Longrightarrow> expires d x = None" for x
    using kept by (simp add: kept_def)
  have pres: "present good k d"
    using kept by (simp add: kept_def)
  have same: "payload_key k x \<Longrightarrow> data (tick t d) x = data d x \<and> expires (tick t d) x = None" for x
    using tick_undated und by blast
  have "payloads k (tick t d) l = payloads k d l" for l
    using same [of "Scheduled k"] same [of "Retry k"] same [of "Dead k"] same
    by (cases l) (simp_all add: payload_key_def lst_def zst_def)
  then show ?thesis
    using pres same t by (simp add: kept_def present_def tick_def)
qed

section \<open>Safe scripts\<close>

lemma safe_ending:
  assumes "good p \<Longrightarrow> good p'"
  shows "safe_script good k (retry_job [InFlight k w, Retry k, Finalization k i] [p, string_of_int sc, p'])"
    and "us = [] \<or> us = [Unique k u] \<Longrightarrow>
      safe_script good k (move_to_dead_job ([InFlight k w, Dead k, Finalization k i] @ us) [p, string_of_int sc, p', i])"
    and "safe_script good k (requeue_job [InFlight k w, Queue k q] [p, p'])"
    and "safe_script good k (mark_job_finalization [InFlight k w, Queue k q, Finalization k i] [p, p'])"
    and "safe_script good k (sanitize_job_finalization [InFlight k w] [p, p'])"
proof -
  show "safe_script good k (retry_job [InFlight k w, Retry k, Finalization k i] [p, string_of_int sc, p'])"
    by (rule safe_scriptI [OF enum_free_scripts(2) retry_keeps]) (erule assms, rule lua_all_scripts(2) [OF undating_None])
  show "safe_script good k (move_to_dead_job ([InFlight k w, Dead k, Finalization k i] @ us)
      [p, string_of_int sc, p', i])" if "us = [] \<or> us = [Unique k u]"
    by (rule safe_scriptI [OF enum_free_scripts(3) dead_keeps [OF _ that]]) (erule assms, rule lua_all_scripts(3) [OF undating_None])
  show "safe_script good k (requeue_job [InFlight k w, Queue k q] [p, p'])"
    by (rule safe_scriptI [OF enum_free_scripts(4) requeue_keeps]) (erule assms, rule lua_all_scripts(4) [OF undating_None])
  show "safe_script good k (mark_job_finalization [InFlight k w, Queue k q, Finalization k i] [p, p'])"
    by (rule safe_scriptI [OF enum_free_scripts(10) mark_keeps]) (erule assms, rule lua_all_scripts(9) [OF undating_None])
  show "safe_script good k (sanitize_job_finalization [InFlight k w] [p, p'])"
    by (rule safe_scriptI [OF enum_free_scripts(9) sanitize_keeps]) (erule assms, rule lua_all_scripts(8) [OF undating_None])
qed

lemma safe_ack:
  assumes "\<not> good p" "us = [] \<or> us = [Unique k u]"
  shows "safe_script good k (ack_job ([InFlight k w, Finalization k i] @ us) [p, i])"
  by (rule safe_scriptI [OF enum_free_scripts(1) ack_keeps [where good = good and p = p and us = us, OF assms]])
     (rule lua_all_scripts(1) [OF undating_None])

lemma safe_locking:
  "safe_script good k (release_sequential_lock [SequentialLock k q] [w])"
  "\<not> good p \<Longrightarrow> safe_script good k (discard_sequential_fetch [InFlight k w, SequentialLock k q] [p, w'])"
  subgoal by (rule safe_scriptI [OF enum_free_scripts(7) release_keeps]) (rule lua_all_scripts(6) [OF undating_None])
  subgoal by (rule safe_scriptI [OF enum_free_scripts(8) discard_keeps]) (simp, rule lua_all_scripts(7) [OF undating_None])
  done

lemma safe_enqueue: "safe_script good k (enqueue_now [Queues k, Queue k q] [q, p])"
  by (rule safe_scriptI [OF enum_free_scripts(13) enqueue_now_keeps]) (rule lua_all_scripts(12) [OF undating_None])

context payload_class
begin

lemma safe_moving:
  "safe_script good k (fetch_job cj [Queue k q, InFlight k w] [Finalization k []])"
  "z \<in> {Scheduled k, Retry k} \<Longrightarrow> 0 \<le> limit \<Longrightarrow>
     safe_script good k (enqueue_scheduled cj [z, Queues k] [string_of_int limit, Queue k []])"
  "safe_script good k (requeue_orphaned cj [InFlight k w, Queues k] [Queue k [], Finalization k []])"
  subgoal by (rule safe_scriptI [OF enum_free_scripts(5) fetch_keeps]) (rule lua_all_scripts(5) [OF undating_None])
  subgoal by (rule safe_scriptI [OF enum_free_scripts(11) scheduled_keeps])
      (assumption, assumption, rule lua_all_scripts(10) [OF undating_None])
  subgoal by (rule safe_scriptI [OF enum_free_scripts(12) orphans_keep]) (rule lua_all_scripts(11) [OF undating_None])
  done

lemma safe_sequential:
  assumes "0 < ttl"
  shows "safe_script good k (sequential_fetch cj [Queue k q, InFlight k w, SequentialLock k q']
      [w', string_of_int ttl, Finalization k []])"
proof (rule safe_scriptI)
  show "lua_all (undating k) (sequential_fetch cj [Queue k q, InFlight k w, SequentialLock k q']
      [w', string_of_int ttl, Finalization k []])"
    by (rule lua_all_scripts(13) [OF undating_None]) (auto simp: undating_def)
qed (use sequential_fetch_keeps [OF assms] in auto)

end

section \<open>Safe operations\<close>

definition queue_ok :: "keys \<Rightarrow> queueInfo \<Rightarrow> bool" where
  "queue_ok k q \<longleftrightarrow> q_queueKey q = Queue k (q_name q) \<and> q_sequentialLockKey q = SequentialLock k (q_name q)"

definition fetcher_ok :: "fetcher \<Rightarrow> bool" where
  "fetcher_ok f \<longleftrightarrow> (\<forall>q\<in>set (f_queues f). queue_ok (f_keys f) q) \<and>
     set (f_activeQueues f) \<subseteq> set (f_queues f) \<and> set (f_blockableQueues f) \<subseteq> set (f_activeQueues f) \<and>
     (\<forall>n q. f_queueByName f n = Some q \<longrightarrow> q \<in> set (f_queues f) \<and> q_name q = n) \<and>
     (\<forall>q\<in>set (f_queues f). 1 \<le> q_priority q) \<and>
     f_totalActiveWeight f = sum_list (map q_priority (f_activeQueues f)) \<and> 0 < f_sequentialLockTTL f"

lemma newFetcher_ok: "fetcher_ok (newFetcherWithSequentialLockTTL k qs poll strict ttl)"
  by (auto simp: fetcher_ok_def newFetcherWithSequentialLockTTL_def Let_def queue_ok_def make_queueInfo_def
      DefaultWorkerSettings_def Second_def dest!: map_of_SomeD)

lemma durationMilliseconds_pos: "0 < durationMilliseconds d"
  by (simp add: durationMilliseconds_def Let_def)

text \<open>
  A job record that a worker may end: every payload the fetcher writes in place of the job's current
  one is of the class again, unless it is marked as complete or for a retry without a time.
\<close>

definition fin_ok :: "jobfinalization \<Rightarrow> bool" where
  "fin_ok f \<longleftrightarrow> f_Operation f \<noteq> ''complete'' \<and> (f_Operation f = ''retry'' \<longrightarrow> f_RetryAt f \<noteq> zero_time)"

definition job_fit :: "(string \<Rightarrow> bool) \<Rightarrow> (string \<Rightarrow> string option) \<Rightarrow> job \<Rightarrow> bool" where
  "job_fit good fl job \<longleftrightarrow> (\<forall>p. jobPayload job = Inr p \<longrightarrow> good p \<longrightarrow>
     (\<forall>dj p' n t. durableJobPayload fl job = Inr dj \<longrightarrow>
        (Marshal (dj\<lparr>j_RetryCount := n\<rparr>) = Some p' \<or> Marshal (dj\<lparr>j_FailedAt := Some t\<rparr>) = Some p' \<or>
         Marshal dj = Some p') \<longrightarrow> in_i64 n \<longrightarrow> good p') \<and>
     (\<forall>fin p'. fin_ok fin \<longrightarrow> payloadWithFinalization fl p fin = Inr p' \<longrightarrow> good p'))"

locale decodable_class = payload_class +
  fixes fl :: "string \<Rightarrow> string option"
  assumes good_decodes: "good p \<Longrightarrow> \<exists>j. UnmarshalJob fl p = Some j"
    and good_clear: "good p \<Longrightarrow> UnmarshalJob fl p = Some j \<Longrightarrow> Marshal (ClearFinalization j) = Some p' \<Longrightarrow> good p'"

abbreviation safe_go :: "(string \<Rightarrow> bool) \<Rightarrow> keys \<Rightarrow> ('l, 'a) go \<Rightarrow> bool" where
  "safe_go good k \<equiv> go_all (safe_script good k) (safe_cmd good k)"

lemma safe_NackAt:
  assumes "job_fit good fl job" "f_keys f = k"
  shows "safe_go good k (NackAt fl f w job t)"
proof -
  have "good p'" if "jobPayload job = Inr p" "durableJobPayload fl job = Inr dj" "good p"
      "Marshal (dj\<lparr>j_RetryCount := i64 (j_RetryCount dj + 1)\<rparr>) = Some p'" for p dj p'
    using assms(1) that i64_in_range unfolding job_fit_def by blast
  then show ?thesis
    using assms(2)
    by (auto simp: NackAt_def Let_def intro!: safe_ending(1) split: sum.splits option.splits)
qed

lemma safe_MoveToDead:
  assumes "job_fit good fl job" "f_keys f = k"
  shows "safe_go good k (MoveToDead fl f w job)"
proof -
  have zero: "in_i64 0"
    by (simp add: in_i64_def)
  have "good p'" if "jobPayload job = Inr p" "durableJobPayload fl job = Inr dj" "good p"
      "Marshal (dj\<lparr>j_FailedAt := Some t\<rparr>) = Some p'" for p dj p' t
    using assms(1) that zero unfolding job_fit_def by blast
  then have "safe_script good k (move_to_dead_job ([InFlight k w, Dead k, Finalization k i] @ us)
      [p, string_of_int sc, p', i])"
    if "jobPayload job = Inr p" "durableJobPayload fl job = Inr dj"
      "Marshal (dj\<lparr>j_FailedAt := Some t\<rparr>) = Some p'" "us = [] \<or> us = [Unique k u]" for p dj p' t i us u sc
    using that by (intro safe_ending(2)) auto
  from this [where us = "[]"] this [where us = "[Unique k (j_UniqueKey job)]"] show ?thesis
    using assms(2) by (auto simp: MoveToDead_def split: sum.splits option.splits)
qed

lemma safe_requeue:
  assumes "job_fit good fl job" "f_keys f = k"
  shows "safe_go good k (fetcher_requeue fl f w job)"
proof -
  have zero: "in_i64 0"
    by (simp add: in_i64_def)
  have "good p'" if "jobPayload job = Inr p" "durableJobPayload fl job = Inr dj" "good p" "Marshal dj = Some p'"
    for p dj p'
    using assms(1) that zero unfolding job_fit_def by blast
  then show ?thesis
    using assms(2)
    by (auto simp: fetcher_requeue_def intro!: safe_ending(3) split: sum.splits option.splits)
qed

lemma safe_MarkFinalization:
  assumes "job_fit good fl job" "f_keys f = k" "\<And>p. jobPayload job = Inr p \<Longrightarrow> good p \<Longrightarrow> fin_ok fin"
  shows "safe_go good k (MarkFinalization fl f w job fin)"
proof -
  have "good p'" if "jobPayload job = Inr p" "payloadWithFinalization fl p fin = Inr p'" "good p" for p p'
    using assms(1) that assms(3) unfolding job_fit_def by blast
  then show ?thesis
    using assms(2)
    by (auto simp: MarkFinalization_def Let_def intro!: safe_ending(4) split: sum.splits option.splits rreply.splits)
qed

lemma safe_Ack:
  assumes "\<And>p. jobPayload job = Inr p \<Longrightarrow> \<not> good p" "f_keys f = k"
  shows "safe_go good k (Ack f w job)"
proof -
  have "safe_script good k (ack_job ([InFlight k w, Finalization k i] @ us) [p, i])"
    if "jobPayload job = Inr p" "us = [] \<or> us = [Unique k u]" for p us u i
    by (rule safe_ack [where u = u]) (use assms(1) [OF that(1)] that(2) in auto)
  from this [where us = "[]"] this [where us = "[Unique k (j_UniqueKey job)]"] show ?thesis
    using assms(2) by (auto simp: Ack_def split: sum.splits)
qed

lemma safe_trusts: "(\<And>r. safe_go good k (cont r)) \<Longrightarrow> safe_go good k (trustsFinalization k i p cont)"
  by (auto simp: trustsFinalization_def safe_readers split: sum.splits)

lemma safe_redisNow:
  "(\<And>e. safe_go good k (cont (Inl e))) \<Longrightarrow> (\<And>t. 0 \<le> t \<Longrightarrow> safe_go good k (cont (Inr t))) \<Longrightarrow>
    safe_go good k (redisNow cont)"
  by (auto simp: redisNow_def safe_readers ans_ok_def split: sum.splits rreply.splits list.splits option.splits)

lemma safe_Nack:
  assumes "job_fit good fl job" "f_keys f = k" "0 < retryIn"
  shows "safe_go good k (Nack fl f w job retryIn)"
  using assms(3) by (auto simp: Nack_def intro!: safe_redisNow safe_NackAt [OF assms(1,2)] split: sum.splits)

text \<open>Whatever the draw, a selected queue is one of the candidates.\<close>

lemma draw_in: "draw r qs = Some q \<Longrightarrow> q \<in> set qs"
  by (induction r qs rule: draw.induct) (auto split: if_splits)

lemma safe_select:
  assumes "\<And>q. q \<in> set qs \<Longrightarrow> safe_go good k (cont (Some q))" "safe_go good k (cont None)"
  shows "safe_go good k (go_bind (selectWeightedQueue qs n) cont)"
    and "safe_go good k (go_bind (selectWeightedQueueSkipping qs skipped) cont)"
proof -
  have drawn: "safe_go good k (cont (draw r xs))" if "set xs \<subseteq> set qs" for r xs
  proof (cases "draw r xs")
    case (Some q)
    then show ?thesis
      using assms(1) [of q] draw_in [OF Some] that by auto
  qed (use assms(2) in simp)
  show "safe_go good k (go_bind (selectWeightedQueue qs n) cont)"
    using assms drawn [of qs] by (auto simp: selectWeightedQueue_def)
  let ?rest = "filter (\<lambda>q. \<not> queueNameSkipped (q_name q) skipped) qs"
  have sub: "q \<in> set ?rest \<Longrightarrow> safe_go good k (cont (Some q))" for q
    using assms(1) by simp
  have "?rest \<noteq> [] \<Longrightarrow> safe_go good k (cont (Some (last ?rest)))" "i < length ?rest \<Longrightarrow> safe_go good k (cont (Some (?rest ! i)))" for i
    using sub last_in_set nth_mem by blast+
  moreover have "safe_go good k (cont (draw r ?rest))" for r
    by (rule drawn) auto
  ultimately show "safe_go good k (go_bind (selectWeightedQueueSkipping qs skipped) cont)"
    using assms(2) unfolding selectWeightedQueueSkipping_def Let_def
    by auto
qed

context decodable_class
begin

lemma safe_prepare:
  assumes "UnmarshalJob fl payload = Some job"
  shows "safe_go good k (prepareFetchedJob k w job payload)"
proof -
  have "safe_script good k (sanitize_job_finalization [InFlight k w] [payload, p'])"
    if "Marshal (ClearFinalization job) = Some p'" for p'
    using good_clear [OF _ assms that] by (rule safe_ending(5))
  then show ?thesis
    by (auto simp: prepareFetchedJob_def Let_def intro!: safe_trusts split: sum.splits bool.splits option.splits rreply.splits)
qed

lemma safe_fetch_sequential:
  assumes "fetcher_ok f" "f_keys f = k" "queue_ok k queue"
  shows "safe_go good k (fetchFromSequentialQueue cj fl f w queue)"
proof -
  have discard: "safe_script good k (discard_sequential_fetch [InFlight k w, SequentialLock k q] [p, w'])"
    if "UnmarshalJob fl p = None" for p q w'
    by (rule safe_locking(2)) (use good_decodes [of p] that in auto)
  show ?thesis
    using assms discard safe_locking(1) safe_sequential [OF durationMilliseconds_pos]
    by (auto simp: fetchFromSequentialQueue_def queue_ok_def releasing_def discardClaimedSequentialPayload_def
        releaseClaimedSequentialLock_def intro!: go_all_bind safe_prepare split: sum.splits option.splits prod.splits queueFetchStatus.splits)
qed

lemma safe_fetch_queue:
  assumes "fetcher_ok f" "f_keys f = k" "queue_ok k queue"
  shows "safe_go good k (fetchFromQueueInfo cj fl f w queue)"
proof (cases "q_sequential queue")
  case True
  then show ?thesis
    using safe_fetch_sequential [OF assms] by (simp add: fetchFromQueueInfo_def)
next
  case False
  show ?thesis
    using False assms safe_moving(1)
    by (auto simp: fetchFromQueueInfo_def queue_ok_def intro!: go_all_bind safe_prepare
        split: sum.splits option.splits prod.splits queueFetchStatus.splits)
qed

end

lemma safe_wait: "(\<And>e. safe_go good k (cont e)) \<Longrightarrow> safe_go good k (waitPollInterval f n cont)"
  by (simp add: waitPollInterval_def)

lemma fetcher_queues_ok:
  assumes "fetcher_ok f" "f_keys f = k"
  shows "q \<in> set (f_activeQueues f) \<Longrightarrow> queue_ok k q" "q \<in> set (f_blockableQueues f) \<Longrightarrow> queue_ok k q"
  using assms by (auto simp: fetcher_ok_def)

context decodable_class
begin

lemma safe_select_fetcher:
  assumes "\<And>q. q \<in> set (f_activeQueues f) \<Longrightarrow> safe_go good k (cont (Some q))" "safe_go good k (cont None)"
  shows "safe_go good k (go_bind (fetcher_selectWeightedQueueSkipping f skipped) cont)"
  using safe_select [OF assms] by (simp add: fetcher_selectWeightedQueueSkipping_def)

lemma safe_fetchWeighted_from:
  assumes "fetcher_ok f" "f_keys f = k"
  shows "safe_go good k (fetchWeighted_from n cj fl f w skipped)"
proof (induction n arbitrary: skipped)
  case (Suc n)
  show ?case
    unfolding fetchWeighted_from.simps
    by (rule safe_select_fetcher)
       (auto intro!: go_all_bind safe_fetch_queue [OF assms] fetcher_queues_ok(1) [OF assms] Suc)
qed simp

lemma safe_fetchStrict_from:
  assumes "fetcher_ok f" "f_keys f = k"
  shows "\<forall>q\<in>set qs. queue_ok k q \<Longrightarrow> safe_go good k (fetchStrict_from cj fl f w qs)"
  by (induction qs) (auto intro!: go_all_bind safe_fetch_queue [OF assms])

lemma safe_Fetch:
  assumes "fetcher_ok f" "f_keys f = k"
  shows "safe_go good k (Fetch cj fl f w)"
  using fetcher_queues_ok(1) [OF assms]
  by (simp add: Fetch_def fetchStrict_def fetchWeighted_def safe_fetchWeighted_from [OF assms]
      safe_fetchStrict_from [OF assms] del: fetchWeighted_from.simps)

lemma safe_blocking_one:
  assumes "fetcher_ok f" "f_keys f = k" "queue_ok k q"
  shows "safe_go good k (blockingFetchFromQueueInfo cj fl f w q n)"
  unfolding blockingFetchFromQueueInfo_def
  by (auto intro!: go_all_bind safe_fetch_queue [OF assms] safe_wait)

lemma safe_select_primary:
  assumes "fetcher_ok f" "f_keys f = k"
  shows "safe_go good k (select_primary n cj fl f w skipped)"
proof (induction n arbitrary: skipped)
  case (Suc n)
  show ?case
    unfolding select_primary.simps
    by (rule safe_select_fetcher)
       (auto intro!: go_all_bind safe_fetch_queue [OF assms] fetcher_queues_ok(1) [OF assms] Suc)
qed simp

lemma safe_fetch_remaining:
  assumes "fetcher_ok f" "f_keys f = k"
  shows "\<forall>q\<in>set qs. queue_ok k q \<Longrightarrow> safe_go good k (fetch_remaining cj fl f w sel saw skipped qs)"
  by (induction qs arbitrary: saw skipped) (auto intro!: go_all_bind safe_fetch_queue [OF assms])

lemma safe_try_all:
  assumes "fetcher_ok f" "f_keys f = k"
  shows "\<forall>q\<in>set qs. queue_ok k q \<Longrightarrow> safe_go good k (try_all_strict cj fl f w saw qs)"
  by (induction qs arbitrary: saw) (auto intro!: go_all_bind safe_fetch_queue [OF assms])

lemma safe_BlockingFetch:
  assumes "fetcher_ok f" "f_keys f = k"
  shows "safe_go good k (BlockingFetch cj fl f w n)"
proof -
  have one: "length (f_blockableQueues f) = Suc 0 \<Longrightarrow>
      safe_go good k (blockingFetchFromQueueInfo cj fl f w (f_blockableQueues f ! 0) n)"
    by (intro safe_blocking_one [OF assms] fetcher_queues_ok(2) [OF assms]) simp
  have active: "\<forall>q\<in>set (f_activeQueues f). queue_ok k q"
    using fetcher_queues_ok(1) [OF assms] by blast
  have weighted: "safe_go good k (blockingFetchWeighted cj fl f w n)"
    unfolding blockingFetchWeighted_def
    by (auto intro!: go_all_bind safe_select_primary [OF assms] safe_fetch_remaining [OF assms active] safe_wait one
        simp del: select_primary.simps split: sum.splits)
  have strict: "safe_go good k (blockingFetchStrict cj fl f w n)"
    unfolding blockingFetchStrict_def
    by (auto intro!: go_all_bind safe_try_all [OF assms active] safe_wait one split: sum.splits)
  show ?thesis
    unfolding BlockingFetch_def
    by (auto intro!: go_all_bind safe_Fetch [OF assms] safe_wait weighted strict)
qed

end

lemma safe_release:
  assumes "fetcher_ok f" "f_keys f = k"
  shows "safe_go good k (ReleaseSequentialLock f w q)"
proof -
  have "q_sequentialLockKey qi = SequentialLock k (q_name qi)" if "f_queueByName f q = Some qi" for qi
    using assms that by (auto simp: fetcher_ok_def queue_ok_def)
  then show ?thesis
    using safe_locking(1) by (auto simp: ReleaseSequentialLock_def split: option.splits)
qed

lemma safe_renewing:
  assumes "\<forall>q\<in>set qs. queue_ok k q"
  shows "safe_go good k (renew_locks f w qs)"
  using assms by (induction qs) (auto simp: safe_readers safe_renew queue_ok_def)

lemma safe_Renew:
  assumes "fetcher_ok f" "f_keys f = k"
  shows "safe_go good k (RenewSequentialLocks f w)"
  unfolding RenewSequentialLocks_def
  by (rule safe_renewing) (use assms in \<open>auto simp: fetcher_ok_def\<close>)

section \<open>Payloads that Senna writes\<close>

definition job_wf :: "(string \<Rightarrow> string option) \<Rightarrow> job \<Rightarrow> bool" where
  "job_wf fl j \<longleftrightarrow> job_ok fl j \<and> j_ID j \<noteq> [] \<and> j_Type j \<noteq> []"

text \<open>A job that no worker has decided to complete or to retry without a time.\<close>

definition job_open :: "(string \<Rightarrow> string option) \<Rightarrow> job \<Rightarrow> bool" where
  "job_open fl j \<longleftrightarrow> job_wf fl j \<and> pred_option fin_ok (j_finalization j)"

definition written :: "(string \<Rightarrow> string option) \<Rightarrow> string \<Rightarrow> string \<Rightarrow> bool" where
  "written fl jid p \<longleftrightarrow> (\<exists>j. Marshal j = Some p \<and> job_open fl j \<and> j_ID j = jid)"

lemma part_names:
  "time_member k t = Some ms \<Longrightarrow> fst ` set ms = {k}"
  "time_opt k t' = Some ms \<Longrightarrow> fst ` set ms \<subseteq> {k}"
  "fst ` set (str_opt k s) \<subseteq> {k}"
  "(case f of None \<Rightarrow> Some [] | Some f \<Rightarrow> map_option (\<lambda>o'. [(k, o')]) (finalization_json f)) = Some ms \<Longrightarrow>
     fst ` set ms \<subseteq> {k}"
  by (auto simp: time_member_def time_opt_def str_opt_def split: option.splits)

lemma filter_names: "fst ` set ms \<subseteq> {k} \<Longrightarrow> k \<noteq> f \<Longrightarrow> filter (\<lambda>p. fst p \<noteq> f) ms = ms"
  by (induction ms) auto

lemma filter_named: "fst ` set ms \<subseteq> {f} \<Longrightarrow> filter (\<lambda>p. fst p \<noteq> f) ms = []"
  by (induction ms) auto

lemma map_of_rev_append: "k \<notin> fst ` set ys \<Longrightarrow> map_of (rev (xs @ ys)) k = map_of (rev xs) k"
proof -
  assume "k \<notin> fst ` set ys"
  then have "map_of (rev ys) k = None"
    by (simp add: map_of_eq_None_iff)
  then show ?thesis
    by (simp add: map_add_def)
qed

lemma MarshalJSON_clear:
  assumes "MarshalJSON j = Some v"
  shows "MarshalJSON (ClearFinalization j) = Some (table_without ''finalization'' v)"
  using MarshalJSON_parts [OF assms]
proof cases
  case (1 created enqueued processed failed final)
  have head: "filter (\<lambda>p. fst p \<noteq> ''finalization'') (job_head j) = job_head j"
    by (simp add: job_head_def)
  have parts: "filter (\<lambda>p. fst p \<noteq> ''finalization'') created = created"
    "filter (\<lambda>p. fst p \<noteq> ''finalization'') enqueued = enqueued"
    "filter (\<lambda>p. fst p \<noteq> ''finalization'') processed = processed"
    "filter (\<lambda>p. fst p \<noteq> ''finalization'') failed = failed"
    "filter (\<lambda>p. fst p \<noteq> ''finalization'') final = []"
    subgoal by (rule filter_names [where k = "''created_at''"]) (simp_all add: part_names(1) [OF 1(1)])
    subgoal by (rule filter_names [where k = "''enqueued_at''"]) (simp_all add: part_names(1) [OF 1(2)])
    subgoal by (rule filter_names [OF part_names(2) [OF 1(3)]]) simp
    subgoal by (rule filter_names [OF part_names(2) [OF 1(4)]]) simp
    subgoal by (rule filter_named [OF part_names(4) [OF 1(5)]])
    done
  have strs: "k \<noteq> ''finalization'' \<Longrightarrow> filter (\<lambda>p. fst p \<noteq> ''finalization'') (str_opt k s) = str_opt k s" for k s
    by (simp add: str_opt_def)
  have "table_without ''finalization'' v = JObj (job_head j @ created @ enqueued @ processed @ failed @
        str_opt ''error'' (j_Error j) @ str_opt ''bid'' (j_BatchID j) @
        str_opt ''callback_bid'' (j_CallbackBatchID j) @ str_opt ''unique_key'' (j_UniqueKey j) @
        (if j_UniqueTTL j = 0 then [] else [(''unique_ttl'', JInt (j_UniqueTTL j))]) @
        (if j_Encrypted j then [(''encrypted'', JBool True)] else []))"
    unfolding 1(6) table_without_def by (simp add: head parts strs)
  then show ?thesis
    using 1(1-4) by (simp add: MarshalJSON_def ClearFinalization_def job_head_def)
qed

lemma MarshalJSON_fields:
  assumes "MarshalJSON j = Some v"
  shows "table_field v ''jid'' = Some (JStr (j_ID j))" "table_field v ''class'' = Some (JStr (j_Type j))"
    "table_field v ''queue'' = Some (JStr (j_Queue j))" "is_table v"
proof -
  obtain rest where v: "v = JObj (job_head j @ rest)"
    and names: "fst ` set rest \<subseteq> {''created_at'', ''enqueued_at'', ''processed_at'', ''failed_at'', ''error'', ''bid'',
      ''callback_bid'', ''unique_key'', ''unique_ttl'', ''encrypted'', ''finalization''}"
    using MarshalJSON_parts [OF assms]
  proof cases
    case (1 created enqueued processed failed final)
    have one: "fst ` set ms \<subseteq> {x} \<Longrightarrow> x \<in> A \<Longrightarrow> fst ` set ms \<subseteq> A" for ms :: "(string \<times> json) list" and x A
      by blast
    have eq: "fst ` set ms = {x} \<Longrightarrow> fst ` set ms \<subseteq> {x}" for ms :: "(string \<times> json) list" and x
      by simp
    have opt: "fst ` set (if c then [] else [(x, y)]) \<subseteq> {x}" "fst ` set (if c then [(x, y)] else []) \<subseteq> {x}"
      for c and x :: string and y :: json
      by auto
    show thesis
      by (rule that [OF 1(6)], unfold set_append image_Un Un_subset_iff, intro conjI)
         ((rule one [OF eq [OF part_names(1) [OF 1(1)]]] one [OF eq [OF part_names(1) [OF 1(2)]]]
            one [OF part_names(2) [OF 1(3)]] one [OF part_names(2) [OF 1(4)]] one [OF part_names(3)]
            one [OF part_names(4) [OF 1(5)]] one [OF opt(1)] one [OF opt(2)], simp)+)
  qed
  have "map_of (rev (job_head j @ rest)) k = map_of (rev (job_head j)) k"
    if "k \<in> {''jid'', ''class'', ''queue''}" for k
    using that names by (intro map_of_rev_append) auto
  then show "table_field v ''jid'' = Some (JStr (j_ID j))" "table_field v ''class'' = Some (JStr (j_Type j))"
    "table_field v ''queue'' = Some (JStr (j_Queue j))" "is_table v"
    unfolding v by (simp_all add: table_field_def is_table_def job_head_def)
qed

lemma Marshal_raw [simp]: "Marshal (j\<lparr>j_raw := r\<rparr>) = Marshal j"
  by (simp add: Marshal_def MarshalJSON_def cong: option.case_cong)

lemma job_wf_updates [simp]:
  "job_wf fl (j\<lparr>j_raw := r\<rparr>) = job_wf fl j" "job_wf fl (j\<lparr>j_finalization := f\<rparr>) = job_wf fl j"
  "job_wf fl (j\<lparr>j_FailedAt := t\<rparr>) = job_wf fl j"
  by (simp_all add: job_wf_def job_ok_def)

section \<open>The class of the written payloads of one job\<close>

lemma Marshal_json: "Marshal j = Some p \<Longrightarrow> \<exists>v. MarshalJSON j = Some v \<and> p = json_print v"
  by (auto simp: Marshal_def)

lemma written_decode:
  assumes "Marshal j = Some p" "job_wf fl j"
  shows "UnmarshalJob fl p = Some (j\<lparr>j_raw := []\<rparr>)"
  using unmarshal_marshal assms by (auto simp: job_wf_def)

lemma job_open_updates [simp]:
  "job_open fl (j\<lparr>j_raw := r\<rparr>) = job_open fl j" "job_open fl (j\<lparr>j_FailedAt := t\<rparr>) = job_open fl j"
  "job_open fl (ClearFinalization j) = job_wf fl j"
  by (simp_all add: job_open_def ClearFinalization_def)

lemma job_open_wf [simp]: "job_open fl j \<Longrightarrow> job_wf fl j"
  by (simp add: job_open_def)

lemma job_wf_clear [simp]: "job_wf fl (ClearFinalization j) = job_wf fl j" "j_ID (ClearFinalization j) = j_ID j"
  by (simp_all add: ClearFinalization_def)

lemma written_carries:
  assumes "written fl jid p"
  shows "carries std_cjson jid p"
proof -
  obtain j v where j: "MarshalJSON j = Some v" "p = json_print v" "job_open fl j" "j_ID j = jid"
    using assms Marshal_json unfolding written_def by blast
  have ok: "json_ok v"
    using json_ok_Marshal [OF j(1)] j(3) by (auto simp: job_open_def job_wf_def job_ok_def)
  have "cj_decode std_cjson p = Some v"
    using ok j(2) by (simp add: std_cjson_def json_parse_print)
  moreover have "target_queue v \<noteq> None"
    using MarshalJSON_fields [OF j(1)] by (simp add: target_queue_def)
  moreover have "cj_encode std_cjson (table_without ''finalization'' v) \<noteq> None"
    using json_ok_without ok by (simp add: std_cjson_def)
  ultimately show ?thesis
    using MarshalJSON_fields [OF j(1)] j(3,4) by (auto simp: carries_def nonempty_str_field_def job_open_def job_wf_def)
qed

lemma written_strip:
  assumes "written fl jid p" "cj_decode std_cjson p = Some v'" "cj_encode std_cjson (table_without ''finalization'' v') = Some t"
  shows "written fl jid t"
proof -
  obtain j v where j: "MarshalJSON j = Some v" "p = json_print v" "job_open fl j" "j_ID j = jid"
    using assms(1) Marshal_json unfolding written_def by blast
  have "json_ok v"
    using json_ok_Marshal [OF j(1)] j(3) by (auto simp: job_open_def job_wf_def job_ok_def)
  then have "v' = v"
    using assms(2) j(2) by (simp add: std_cjson_def json_parse_print)
  then have "Marshal (ClearFinalization j) = Some t"
    using assms(3) MarshalJSON_clear [OF j(1)] by (simp add: Marshal_def std_cjson_def split: if_splits)
  then show ?thesis
    using j(3,4) unfolding written_def by (metis job_wf_clear job_open_updates(3) job_open_wf)
qed

interpretation written: decodable_class std_cjson jid "written fl jid" fl for jid fl
proof
  show "carries std_cjson jid p" if "written fl jid p" for p
    using written_carries that .
  show "written fl jid t" if "written fl jid p" "cj_decode std_cjson p = Some job"
      "cj_encode std_cjson (table_without ''finalization'' job) = Some t" for p job t
    using written_strip that by blast
  show "\<exists>j. UnmarshalJob fl p = Some j" if "written fl jid p" for p
    using that written_decode job_open_wf unfolding written_def by blast
  show "written fl jid p'" if w: "written fl jid p" and u: "UnmarshalJob fl p = Some j"
      and m: "Marshal (ClearFinalization j) = Some p'" for p j p'
  proof -
    obtain i where "Marshal i = Some p" "job_open fl i" "j_ID i = jid"
      using w unfolding written_def by blast
    then have "j = i\<lparr>j_raw := []\<rparr>"
      using written_decode u job_open_wf by fastforce
    then show ?thesis
      using \<open>job_open fl i\<close> \<open>j_ID i = jid\<close> m unfolding written_def
      by (intro exI [of _ "ClearFinalization j"]) simp
  qed
qed

lemma written_fit:
  assumes "job_wf fl job" "j_ID job = jid"
  shows "job_fit (written fl jid) fl job"
proof -
  have fin: "written fl jid p'" if "written fl jid p" and f: "fin_ok f" and "payloadWithFinalization fl p f = Inr p'" for p p' f
  proof -
    obtain i where i: "Marshal i = Some p" "job_open fl i" "j_ID i = jid"
      using \<open>written fl jid p\<close> unfolding written_def by blast
    then have "Marshal (SetFinalization f (i\<lparr>j_raw := []\<rparr>)) = Some p'"
      using that(3) written_decode [OF i(1) job_open_wf [OF i(2)]] by (simp add: payloadWithFinalization_def split: option.splits)
    then show ?thesis
      using i f unfolding written_def
      by (intro exI [of _ "SetFinalization f (i\<lparr>j_raw := []\<rparr>)"]) (simp add: SetFinalization_def job_open_def)
  qed
  have durable: "job_open fl dj \<and> j_ID dj = jid"
    if w: "written fl jid p" and p: "jobPayload job = Inr p" and d: "durableJobPayload fl job = Inr dj" for p dj
  proof (cases "j_raw job = []")
    case True
    then show ?thesis
      using d assms by (auto simp: durableJobPayload_def Let_def ClearFinalization_def job_open_def)
  next
    case False
    obtain i where i: "Marshal i = Some p" "job_open fl i" "j_ID i = jid"
      using w unfolding written_def by blast
    have "UnmarshalJob fl (j_raw job) = Some (i\<lparr>j_raw := []\<rparr>)"
      using False p written_decode [OF i(1) job_open_wf [OF i(2)]] by (simp add: jobPayload_def)
    then show ?thesis
      using d False assms i(2)
      by (auto simp: durableJobPayload_def Let_def ClearFinalization_def job_open_def job_wf_def job_ok_def split: if_splits)
  qed
  have count: "job_open fl j \<Longrightarrow> in_i64 n \<Longrightarrow> job_open fl (j\<lparr>j_RetryCount := n\<rparr>)" for j n
    by (simp add: job_open_def job_wf_def job_ok_def)
  have wr: "Marshal j = Some p' \<Longrightarrow> job_open fl j \<Longrightarrow> j_ID j = jid \<Longrightarrow> written fl jid p'" for j p'
    unfolding written_def by blast
  show ?thesis
    unfolding job_fit_def
  proof (intro allI impI conjI)
    fix p dj p' n t
    assume a: "jobPayload job = Inr p" "written fl jid p" "durableJobPayload fl job = Inr dj" "in_i64 n"
      and m: "Marshal (dj\<lparr>j_RetryCount := n\<rparr>) = Some p' \<or> Marshal (dj\<lparr>j_FailedAt := Some t\<rparr>) = Some p' \<or>
        Marshal dj = Some p'"
    have d: "job_open fl dj" "j_ID dj = jid"
      using durable [OF a(2,1,3)] by auto
    from m show "written fl jid p'"
      using wr [OF _ count [OF d(1) a(4)]] wr [of "dj\<lparr>j_FailedAt := Some t\<rparr>" p'] wr [of dj p'] d by auto
  next
    fix p f p'
    assume "written fl jid p" "fin_ok f" "payloadWithFinalization fl p f = Inr p'"
    then show "written fl jid p'"
      by (rule fin)
  qed
qed

end
