(* ===== verification/Middleware.thy ===== *)
theory Middleware
  imports GoProg Job
begin

text \<open>
  Handlers and what is wrapped around them: \<^verbatim>\<open>middleware.go\<close>, \<^verbatim>\<open>senna.go\<close>, the limiter interface of
  \<^verbatim>\<open>ratelimit/limiter.go\<close> and the retry delays.

  A handler gets a pointer to the job, so it returns the job as it left it, together with how it
  ended: normally, with an error, or with a panic; \<open>HRunning\<close> says that it has not returned within the
  bound that the model puts on a loop over a user's iterator.  \<open>'c\<close> is what the context carries.  A deadline set by \<^verbatim>\<open>context.WithTimeout\<close> only
  makes the context end earlier; when the context ends is part of the environment, so such a
  middleware leaves the program as it is.

  The lemmas give the delays in closed form: an exponential delay is the power capped at the
  maximum, the default delay the polynomial capped at the longest duration, both without overflow;
  and the order in which a chain of middleware runs.
\<close>

datatype hres = HOk | HErr goerr | HPanic string | HRunning

type_synonym ('c, 'l) handler = "'c \<Rightarrow> job \<Rightarrow> ('l, job \<times> hres) go"
type_synonym ('c, 'l) middleware = "('c, 'l) handler \<Rightarrow> ('c, 'l) handler"

section \<open>Limiters\<close>

type_synonym 'l lease = "('l, goerr option) go"

text \<open>The result of acquiring: an error, or a lease and a waiting time; \<open>None\<close> is a wait that has not ended.\<close>

type_synonym 'l acquired = "(goerr + 'l lease option \<times> int) option"

record 'l acquirer =
  aq_Acquire :: "('l, 'l acquired) go"
  aq_Name :: string

text \<open>The deferred release: its error joins the one of the work, a panic goes on.\<close>

fun with_release_error :: "hres \<Rightarrow> goerr option \<Rightarrow> hres" where
  "with_release_error HOk (Some e) = HErr e"
| "with_release_error (HErr x) (Some e) = HErr (Joined x e)"
| "with_release_error r _ = r"

definition releasing_lease :: "'l lease \<Rightarrow> ('l, 'a \<times> hres) go \<Rightarrow> ('l, 'a \<times> hres) go" where
  "releasing_lease release fn = go_bind fn (\<lambda>(x, r).
     if r = HRunning then Done (x, r)
     else go_bind release (\<lambda>e. Done (x, with_release_error r e)))"

definition runWithinLimit ::
    "'l acquirer \<Rightarrow> string \<Rightarrow> int \<Rightarrow> 'a \<Rightarrow> ('l, 'a \<times> hres) go \<Rightarrow> ('l, 'a \<times> hres) go" where
  "runWithinLimit a typ limit x fn =
     go_bind (aq_Acquire a) (\<lambda>acquired.
       case acquired of
         None \<Rightarrow> Done (x, HRunning)
       | Some (Inl e) \<Rightarrow> Done (x, HErr e)
       | Some (Inr (lease, waitTime)) \<Rightarrow>
           if waitTime > 0 then Done (x, HErr (OverLimitError (aq_Name a) typ limit 0 waitTime))
           else (case lease of
                   Some release \<Rightarrow> releasing_lease release fn
                 | None \<Rightarrow> fn))"

definition noopLease_Release :: "'l lease" where
  "noopLease_Release = Done None"

definition RateLimitMiddleware :: "'l acquirer \<Rightarrow> string \<Rightarrow> int \<Rightarrow> ('c, 'l) middleware" where
  "RateLimitMiddleware limiter typ limit next ctx job = runWithinLimit limiter typ limit job (next ctx job)"

definition RateLimitMiddlewareWithReschedule :: "'l acquirer \<Rightarrow> ('c, 'l) middleware" where
  "RateLimitMiddlewareWithReschedule limiter next ctx job =
     go_bind (aq_Acquire limiter) (\<lambda>acquired.
       case acquired of
         None \<Rightarrow> Done (job, HRunning)
       | Some (Inl e) \<Rightarrow> Done (job, HErr e)
       | Some (Inr (lease, waitTime)) \<Rightarrow>
           if waitTime > 0
           then Done (job, HErr (RetryableError (j_ID job)
                  (OverLimitError (aq_Name limiter) ''unknown'' 0 0 waitTime) waitTime))
           else (case lease of
                   Some release \<Rightarrow> releasing_lease release (next ctx job)
                 | None \<Rightarrow> go_bind (next ctx job) (\<lambda>(j, r).
                     Done (j, if r = HRunning then r else HPanic ''nil pointer dereference''))))"

section \<open>Middleware\<close>

definition Chain :: "('c, 'l) middleware list \<Rightarrow> ('c, 'l) middleware" where
  "Chain middlewares final = fold (\<lambda>m h. m h) (rev middlewares) final"

definition LoggingMiddleware :: "('c, 'l) middleware" where
  "LoggingMiddleware next ctx job =
     Now (\<lambda>start. go_bind (next ctx job) (\<lambda>(j, r).
       case r of HOk \<Rightarrow> Now (\<lambda>finish. Done (j, r)) | HErr e \<Rightarrow> Now (\<lambda>finish. Done (j, r)) | _ \<Rightarrow> Done (j, r)))"

definition RecoveryMiddleware :: "string \<Rightarrow> ('c, 'l) middleware" where
  "RecoveryMiddleware stack next ctx job =
     go_bind (next ctx job) (\<lambda>(j, r).
       Done (j, case r of HPanic v \<Rightarrow> HErr (Plain (''panic: '' @ v @ [CHR 0x0A] @ stack)) | _ \<Rightarrow> r))"

definition TimeoutMiddleware :: "int \<Rightarrow> ('c, 'l) middleware" where
  "TimeoutMiddleware d next ctx job = next ctx job"

type_synonym BackoffFunc = "int \<Rightarrow> int"

definition RetryMiddleware :: "int \<Rightarrow> BackoffFunc \<Rightarrow> ('c, 'l) middleware" where
  "RetryMiddleware maxRetries backoff next ctx job =
     go_bind (next ctx job) (\<lambda>(j, r).
       Done (j, case r of
         HErr e \<Rightarrow>
           if j_RetryCount j \<ge> maxRetries then HErr (MaxRetriesExceededError (j_ID j) (j_RetryCount j) e)
           else HErr (RetryableError (j_ID j) e (backoff (j_RetryCount j)))
       | _ \<Rightarrow> r))"

section \<open>Delays\<close>

primrec double_up_to :: "nat \<Rightarrow> int \<Rightarrow> int \<Rightarrow> int" where
  "double_up_to 0 maxBackoff backoff = backoff"
| "double_up_to (Suc n) maxBackoff backoff =
     (if backoff > maxBackoff sdiv 2 then maxBackoff else double_up_to n maxBackoff (i64 (backoff * 2)))"

definition ExponentialBackoff :: "int \<Rightarrow> int \<Rightarrow> BackoffFunc" where
  "ExponentialBackoff base maxBackoff attempt =
     (if base \<le> 0 \<or> attempt \<le> 0
      then (if base > maxBackoff then maxBackoff else base)
      else if maxBackoff \<le> base then maxBackoff
      else double_up_to (nat attempt) maxBackoff base)"

definition maxDuration :: int where
  "maxDuration = 2 ^ 63 - 1"

definition maxDurationSeconds :: int where
  "maxDurationSeconds = maxDuration sdiv Second"

definition checkedMulDurationSeconds :: "int \<Rightarrow> int \<Rightarrow> int option" where
  "checkedMulDurationSeconds a b =
     (if a = 0 \<or> b = 0 then Some 0
      else if a > maxDurationSeconds sdiv b then None
      else Some (i64 (a * b)))"

definition checkedAddDurationSeconds :: "int \<Rightarrow> int \<Rightarrow> int option" where
  "checkedAddDurationSeconds a b =
     (if a > i64 (maxDurationSeconds - b) then None else Some (i64 (a + b)))"

definition defaultBackoffSeconds :: "int \<Rightarrow> int option" where
  "defaultBackoffSeconds attempt =
     (case checkedMulDurationSeconds attempt attempt of
        None \<Rightarrow> None
      | Some squared \<Rightarrow>
     (case checkedMulDurationSeconds squared squared of
        None \<Rightarrow> None
      | Some fourth \<Rightarrow>
     (case checkedMulDurationSeconds attempt 10 of
        None \<Rightarrow> None
      | Some linear \<Rightarrow>
     (case checkedAddDurationSeconds fourth linear of
        None \<Rightarrow> None
      | Some secs \<Rightarrow> checkedAddDurationSeconds secs 15))))"

definition DefaultBackoff :: BackoffFunc where
  "DefaultBackoff attempt =
     (let attempt = (if attempt < 0 then 0 else attempt)
      in case defaultBackoffSeconds attempt of
           None \<Rightarrow> maxDuration
         | Some secs \<Rightarrow> i64 (secs * Second))"

section \<open>The delays in closed form\<close>

lemma half_int: "0 \<le> m \<Longrightarrow> (m::int) sdiv 2 = m div 2"
  by (simp add: sdiv_nonneg)

lemma double_up_to_min:
  assumes "0 < b" "b \<le> m" "in_i64 m"
  shows "double_up_to n m b = min m (b * 2 ^ n)"
  using assms
proof (induction n arbitrary: b)
  case (Suc n)
  have half: "m sdiv 2 = m div 2"
    using Suc.prems by (simp add: half_int)
  show ?case
  proof (cases "b > m div 2")
    case True
    then have "m \<le> b * 2"
      by linarith
    also have "b * 2 \<le> b * 2 ^ Suc n"
      using Suc.prems by simp
    finally show ?thesis
      using True half by simp
  next
    case False
    then have le: "b * 2 \<le> m"
      by linarith
    then have "i64 (b * 2) = b * 2"
      using Suc.prems by (intro i64_id) (simp add: in_i64_def)
    then show ?thesis
      using False half Suc.IH [of "b * 2"] Suc.prems le by (simp add: mult.assoc)
  qed
qed simp

lemma exponential_min:
  assumes "0 < base" "0 \<le> attempt" "in_i64 maxBackoff" "0 < maxBackoff"
  shows "ExponentialBackoff base maxBackoff attempt = min maxBackoff (base * 2 ^ nat attempt)"
proof -
  have le: "base \<le> base * 2 ^ nat attempt"
    using assms(1) by simp
  show ?thesis
  proof (cases "attempt = 0 \<or> base < maxBackoff")
    case True
    then show ?thesis
      using assms by (auto simp: ExponentialBackoff_def double_up_to_min)
  next
    case False
    then have "maxBackoff \<le> base * 2 ^ nat attempt"
      using le by linarith
    then show ?thesis
      using False assms by (simp add: ExponentialBackoff_def)
  qed
qed

lemma maxDurationSeconds_value: "maxDurationSeconds = 9223372036"
  by (simp add: maxDurationSeconds_def maxDuration_def Second_def sdiv_nonneg)

lemma in_i64_seconds: "0 \<le> x \<Longrightarrow> x \<le> maxDurationSeconds \<Longrightarrow> in_i64 x"
  by (simp add: in_i64_def maxDurationSeconds_value)

lemma le_div_iff: "0 < (b::int) \<Longrightarrow> a \<le> m div b \<longleftrightarrow> a * b \<le> m"
proof
  assume "0 < b" "a * b \<le> m"
  then show "a \<le> m div b"
    using zdiv_mono1 [of "a * b" m b] by simp
next
  assume "0 < b" "a \<le> m div b"
  then have "a * b \<le> m div b * b"
    by simp
  also have "m div b * b \<le> m"
    using pos_mod_sign [OF \<open>0 < b\<close>, of m] by (simp add: minus_mod_eq_div_mult [symmetric])
  finally show "a * b \<le> m" .
qed

lemma checked_mul:
  assumes "0 \<le> a" "0 < b"
  shows "checkedMulDurationSeconds a b = (if a * b \<le> maxDurationSeconds then Some (a * b) else None)"
proof -
  have div: "maxDurationSeconds sdiv b = maxDurationSeconds div b"
    using assms by (intro sdiv_nonneg) (simp_all add: maxDurationSeconds_value)
  have "a > maxDurationSeconds div b \<longleftrightarrow> maxDurationSeconds < a * b"
    using le_div_iff [OF assms(2), of a maxDurationSeconds] by linarith
  moreover have "a * b \<le> maxDurationSeconds \<Longrightarrow> i64 (a * b) = a * b"
    using in_i64_seconds [OF mult_nonneg_nonneg [of a b]] assms by (intro i64_id) simp
  ultimately show ?thesis
    using assms div by (auto simp: checkedMulDurationSeconds_def maxDurationSeconds_value)
qed

lemma checked_add:
  assumes "0 \<le> a" "0 \<le> b" "b \<le> maxDurationSeconds"
  shows "checkedAddDurationSeconds a b = (if a + b \<le> maxDurationSeconds then Some (a + b) else None)"
proof -
  have "i64 (maxDurationSeconds - b) = maxDurationSeconds - b"
    using assms by (intro i64_id) (simp add: in_i64_def maxDurationSeconds_value)
  moreover have "a + b \<le> maxDurationSeconds \<Longrightarrow> i64 (a + b) = a + b"
    using assms by (intro i64_id) (simp add: in_i64_def maxDurationSeconds_value)
  ultimately show ?thesis
    by (auto simp: checkedAddDurationSeconds_def)
qed

lemma power4: "(a::int) * a * (a * a) = a ^ 4"
  by (simp add: power4_eq_xxxx mult.assoc)

lemma default_seconds:
  assumes "0 \<le> a"
  shows "defaultBackoffSeconds a = (if a ^ 4 + a * 10 + 15 \<le> maxDurationSeconds then Some (a ^ 4 + a * 10 + 15) else None)"
proof (cases "a = 0")
  case True
  then show ?thesis
    by (simp add: defaultBackoffSeconds_def checkedMulDurationSeconds_def checked_add maxDurationSeconds_value)
next
  case False
  then have pos: "0 < a"
    using assms by simp
  have sq: "0 < a * a" "a \<le> a * a" "a * a \<le> a ^ 4"
    using pos mult_left_mono [of 1 a a] mult_left_mono [of 1 "a * a" "a * a"] mult_mono [of 1 a 1 a]
    by (simp_all add: power4 [symmetric])
  have lin: "a * 10 \<le> maxDurationSeconds" if "a * a \<le> maxDurationSeconds"
  proof (rule ccontr)
    assume "\<not> a * 10 \<le> maxDurationSeconds"
    then have "maxDurationSeconds div 10 < a"
      by (simp add: maxDurationSeconds_value)
    then have "(maxDurationSeconds div 10) * (maxDurationSeconds div 10) < a * a"
      by (intro mult_strict_mono) (simp_all add: maxDurationSeconds_value)
    then show False
      using that by (simp add: maxDurationSeconds_value)
  qed
  show ?thesis
  proof (cases "a ^ 4 \<le> maxDurationSeconds")
    case True
    then have "a * a \<le> maxDurationSeconds"
      using sq by linarith
    then show ?thesis
      using True pos sq lin assms
      by (simp add: defaultBackoffSeconds_def checked_mul checked_add power4 maxDurationSeconds_value)
  next
    case False
    then show ?thesis
      using pos sq lin
      by (simp add: defaultBackoffSeconds_def checked_mul power4)
  qed
qed

lemma default_backoff:
  "DefaultBackoff attempt =
     (let a = max 0 attempt; secs = a ^ 4 + a * 10 + 15
      in if secs \<le> maxDurationSeconds then secs * Second else maxDuration)"
proof -
  let ?a = "max 0 attempt"
  have "i64 ((?a ^ 4 + ?a * 10 + 15) * Second) = (?a ^ 4 + ?a * 10 + 15) * Second"
    if "?a ^ 4 + ?a * 10 + 15 \<le> maxDurationSeconds"
  proof (rule i64_id)
    have "0 \<le> ?a ^ 4 + ?a * 10 + 15"
      by simp
    then have "0 \<le> (?a ^ 4 + ?a * 10 + 15) * Second" "(?a ^ 4 + ?a * 10 + 15) * Second \<le> maxDurationSeconds * Second"
      using that by (auto intro: mult_right_mono simp del: zero_le_mult_iff simp: Second_def)
    then show "in_i64 ((?a ^ 4 + ?a * 10 + 15) * Second)"
      by (simp add: in_i64_def maxDurationSeconds_value Second_def)
  qed
  moreover have "(if attempt < 0 then 0 else attempt) = ?a"
    by simp
  ultimately show ?thesis
    unfolding DefaultBackoff_def Let_def by (simp add: default_seconds)
qed

lemma default_backoff_bounds: "15 * Second \<le> DefaultBackoff attempt" "DefaultBackoff attempt \<le> maxDuration"
proof -
  let ?a = "max 0 attempt"
  have "15 \<le> ?a ^ 4 + ?a * 10 + 15"
    by simp
  then have "15 * Second \<le> (?a ^ 4 + ?a * 10 + 15) * Second"
    by (intro mult_right_mono) (simp_all add: Second_def)
  then show "15 * Second \<le> DefaultBackoff attempt"
    by (simp add: default_backoff Let_def) (simp add: Second_def maxDuration_def)
  have "?a ^ 4 + ?a * 10 + 15 \<le> maxDurationSeconds \<Longrightarrow>
      (?a ^ 4 + ?a * 10 + 15) * Second \<le> maxDurationSeconds * Second"
    by (intro mult_right_mono) (simp_all add: Second_def)
  then show "DefaultBackoff attempt \<le> maxDuration"
    by (simp add: default_backoff Let_def) (simp add: Second_def maxDuration_def maxDurationSeconds_value)
qed

section \<open>Chains\<close>

lemma Chain_Nil [simp]: "Chain [] h = h"
  by (simp add: Chain_def)

lemma Chain_Cons [simp]: "Chain (m # ms) h = m (Chain ms h)"
  by (simp add: Chain_def)

lemma Chain_append: "Chain (ms @ ns) h = Chain ms (Chain ns h)"
  by (induction ms) simp_all

lemma recovery_no_panic:
  "go_post (\<lambda>_. True) (\<lambda>_. True) (\<lambda>(j, r). \<forall>v. r \<noteq> HPanic v) (RecoveryMiddleware stack next ctx job)"
  unfolding RecoveryMiddleware_def
  by (rule go_post_bind [where R = "\<lambda>_. True"]) (auto split: hres.splits)

section \<open>Guarantees\<close>

text \<open>
  C18: The doubling loop of \<^verbatim>\<open>ExponentialBackoff\<close> is the closed form: the base delay times two to the
  attempt, cut off at the maximum, with no overflow however large the attempt is.
\<close>

theorem exponential_backoff_closed_form:
  assumes "0 < base" "0 \<le> attempt" "0 < maxBackoff" "in_i64 maxBackoff"
  shows "ExponentialBackoff base maxBackoff attempt = min maxBackoff (base * 2 ^ nat attempt)"
  using exponential_min assms by blast

theorem exponential_backoff_closed_form_witness:
  "ExponentialBackoff 5 (2 ^ 62) 3 = 40 \<and> ExponentialBackoff 5 (2 ^ 62) 60 = 2 ^ 62"
proof -
  have "in_i64 (2 ^ 62)"
    by (simp add: in_i64_def)
  then show ?thesis
    using exponential_backoff_closed_form [of 5 3 "2 ^ 62"] exponential_backoff_closed_form [of 5 60 "2 ^ 62"] by simp
qed

text \<open>
  C19: The default delay between attempts is \<open>a\<^sup>4 + 10a + 15\<close> seconds for attempt \<open>a\<close>, and the longest
  representable duration when that does not fit: the checked arithmetic never wraps, and the delay is
  at least 15 seconds.
\<close>

theorem default_backoff_closed_form:
  "DefaultBackoff attempt =
     (let a = max 0 attempt; secs = a ^ 4 + a * 10 + 15
      in if secs \<le> maxDurationSeconds then secs * Second else maxDuration)
   \<and> 15 * Second \<le> DefaultBackoff attempt \<and> in_i64 (DefaultBackoff attempt)"
proof -
  have "in_i64 (DefaultBackoff attempt)"
    using default_backoff_bounds [of attempt] by (simp add: in_i64_def maxDuration_def Second_def)
  then show ?thesis
    using default_backoff default_backoff_bounds by simp
qed


end
