(* ===== verification/Iterable.thy ===== *)
theory Iterable
  imports Middleware Keys QueueScripts
begin

text \<open>
  Iterable jobs: \<^verbatim>\<open>iterable.go\<close>, \<^verbatim>\<open>internal/iteration/state.go\<close> and the iteration loop of
  \<^verbatim>\<open>worker/iterable.go\<close>.

  An iterator is a value \<open>'i\<close> with the operations of the record \<open>Iterator\<close>; \<open>slice_ops\<close> and
  \<open>range_ops\<close> are the two that the repository provides.  A handler's iterator may never end, so the
  loop is given fuel and ends with \<open>HRunning\<close> when that is spent.  The lifecycle callbacks get
  pointers to the job and to the iteration state and return both.  A cursor is the text of its JSON
  value, empty when there is none.

  Whether the checkpoint ticker has ticked is an answer of the environment, like the context.  The
  functions of an iterator are assumed not to panic; those of a handler may.
\<close>

section \<open>Iterators\<close>

record ('i, 'item, 'l) Iterator =
  it_Next :: "'i \<Rightarrow> ('l, 'i \<times> bool) go"
  it_Item :: "'i \<Rightarrow> 'item"
  it_Cursor :: "'i \<Rightarrow> string"
  it_Err :: "'i \<Rightarrow> goerr option"
  it_Close :: "'i \<Rightarrow> ('l, goerr option) go"

text \<open>\<^verbatim>\<open>CursorFrom\<close> of an integer and \<^verbatim>\<open>CursorTo[int64]\<close>.\<close>

definition CursorFrom :: "int \<Rightarrow> string" where
  "CursorFrom v = json_print (JInt v)"

definition CursorTo :: "string \<Rightarrow> goerr + int" where
  "CursorTo c = (if c = [] then Inr 0
     else case Option.bind (json_parse c) (\<lambda>v. dec_int v 0) of
            Some i \<Rightarrow> Inr i | None \<Rightarrow> Inl (Plain ''json: cannot unmarshal''))"

record 'item sliceIterator =
  si_items :: "'item list"
  si_index :: int

definition SliceIterator :: "'item list \<Rightarrow> int \<Rightarrow> 'item sliceIterator" where
  "SliceIterator items offset =
     (let offset = (if offset < 0 then 0 else offset) in \<lparr>si_items = items, si_index = offset - 1\<rparr>)"

definition slice_ops :: "('item sliceIterator, 'item, 'l) Iterator" where
  "slice_ops =
     \<lparr>it_Next = (\<lambda>it. let it = it\<lparr>si_index := si_index it + 1\<rparr> in Done (it, si_index it < int (length (si_items it)))),
      it_Item = (\<lambda>it. si_items it ! nat (si_index it)),
      it_Cursor = (\<lambda>it. CursorFrom (si_index it + 1)),
      it_Err = (\<lambda>it. None),
      it_Close = (\<lambda>it. Done None)\<rparr>"

record rangeIterator =
  ri_current :: int
  ri_end :: int
  ri_step :: int

definition RangeIterator :: "int \<Rightarrow> int \<Rightarrow> int \<Rightarrow> rangeIterator" where
  "RangeIterator start end' step =
     (let step = (if step = 0 then 1 else step) in \<lparr>ri_current = i64 (start - step), ri_end = end', ri_step = step\<rparr>)"

definition range_ops :: "(rangeIterator, int, 'l) Iterator" where
  "range_ops =
     \<lparr>it_Next = (\<lambda>it. let it = it\<lparr>ri_current := i64 (ri_current it + ri_step it)\<rparr>
         in Done (it, if ri_step it > 0 then ri_current it < ri_end it else ri_current it > ri_end it)),
      it_Item = ri_current,
      it_Cursor = (\<lambda>it. CursorFrom (i64 (ri_current it + ri_step it))),
      it_Err = (\<lambda>it. None),
      it_Close = (\<lambda>it. Done None)\<rparr>"

section \<open>The iteration state\<close>

record IterationState =
  is_JobID :: string
  is_Cursor :: string
  is_Executions :: int
  is_TotalItems :: int
  is_TotalTime :: int
  is_StartedAt :: int
  is_LastRunAt :: int
  is_Cancelled :: bool

definition zero_IterationState :: IterationState where
  "zero_IterationState = \<lparr>is_JobID = [], is_Cursor = [], is_Executions = 0, is_TotalItems = 0, is_TotalTime = 0,
     is_StartedAt = zero_time, is_LastRunAt = zero_time, is_Cancelled = False\<rparr>"

definition IterationState_json :: "IterationState \<Rightarrow> json option" where
  "IterationState_json st =
     (case (if is_Cursor st = [] then Some [] else map_option (\<lambda>v. [(''cursor'', v)]) (json_parse (is_Cursor st)),
            fmt_time (is_StartedAt st), fmt_time (is_LastRunAt st)) of
        (Some cursor, Some started, Some last_run) \<Rightarrow>
          Some (JObj ([(''jid'', JStr (is_JobID st))] @ cursor @
            [(''executions'', JInt (is_Executions st)), (''total_items'', JInt (is_TotalItems st)),
             (''total_time_ns'', JInt (is_TotalTime st)), (''started_at'', JStr started), (''last_run_at'', JStr last_run)] @
            (if is_Cancelled st then [(''cancelled'', JBool True)] else [])))
      | _ \<Rightarrow> None)"

definition dec_IterationState_field :: "string \<times> json \<Rightarrow> IterationState \<Rightarrow> IterationState option" where
  "dec_IterationState_field m st =
     (let k = fold_name (fst m); v = snd m
      in if k = ''jid'' then map_option (\<lambda>x. st\<lparr>is_JobID := x\<rparr>) (dec_str v (is_JobID st))
         else if k = ''cursor'' then Some (st\<lparr>is_Cursor := json_print v\<rparr>)
         else if k = ''executions'' then map_option (\<lambda>x. st\<lparr>is_Executions := x\<rparr>) (dec_int v (is_Executions st))
         else if k = ''total_items'' then map_option (\<lambda>x. st\<lparr>is_TotalItems := x\<rparr>) (dec_int v (is_TotalItems st))
         else if k = ''total_time_ns'' then map_option (\<lambda>x. st\<lparr>is_TotalTime := x\<rparr>) (dec_int v (is_TotalTime st))
         else if k = ''started_at'' then map_option (\<lambda>x. st\<lparr>is_StartedAt := x\<rparr>) (dec_time v (is_StartedAt st))
         else if k = ''last_run_at'' then map_option (\<lambda>x. st\<lparr>is_LastRunAt := x\<rparr>) (dec_time v (is_LastRunAt st))
         else if k = ''cancelled'' then map_option (\<lambda>x. st\<lparr>is_Cancelled := x\<rparr>) (dec_bool v (is_Cancelled st))
         else Some st)"

definition decode_IterationState :: "string \<Rightarrow> IterationState option" where
  "decode_IterationState s = (case json_parse s of
      Some JNull \<Rightarrow> Some zero_IterationState
    | Some (JObj ms) \<Rightarrow> foldl (\<lambda>acc m. Option.bind acc (dec_IterationState_field m)) (Some zero_IterationState) ms
    | _ \<Rightarrow> None)"

text \<open>\<^verbatim>\<open>client.Set\<close> with a time to live: seconds when it is a whole number of them, else milliseconds.\<close>

definition set_ttl :: "string \<Rightarrow> string \<Rightarrow> int \<Rightarrow> rcmd" where
  "set_ttl key value ttl =
     (if ttl \<le> 0 then cSET key value
      else if ttl < Second \<or> ttl mod Second \<noteq> 0 then cSET_PX key value (max 1 (ttl div Millisecond))
      else cSET_EX key value (ttl div Second))"

definition StateTTL :: int where
  "StateTTL = 30 * 24 * 3600 * 1000000000"

definition iteration_Load :: "string \<Rightarrow> (goerr + IterationState option \<Rightarrow> ('l, 'a) go) \<Rightarrow> ('l, 'a) go" where
  "iteration_Load key cont = Cmd (cGET key) (\<lambda>r. case r of
      Inl e \<Rightarrow> cont (if is_nil e then Inr None else Inl e)
    | Inr d \<Rightarrow> (case decode_IterationState (reply_str d) of
          None \<Rightarrow> cont (Inl (Plain ''json: cannot unmarshal'')) | Some st \<Rightarrow> cont (Inr (Some st))))"

definition iteration_Save :: "string \<Rightarrow> IterationState \<Rightarrow> int \<Rightarrow> (goerr option \<Rightarrow> ('l, 'a) go) \<Rightarrow> ('l, 'a) go" where
  "iteration_Save key st ttl cont = (case IterationState_json st of
      None \<Rightarrow> cont (Some (Plain ''json: unsupported value''))
    | Some v \<Rightarrow> Cmd (set_ttl key (json_print v) ttl) (\<lambda>r. cont (case r of Inl e \<Rightarrow> Some e | Inr _ \<Rightarrow> None)))"

definition IsCancelled :: "string \<Rightarrow> (goerr + bool \<Rightarrow> ('l, 'a) go) \<Rightarrow> ('l, 'a) go" where
  "IsCancelled key cont = iteration_Load key (\<lambda>r. case r of
      Inl e \<Rightarrow> cont (Inl e) | Inr None \<Rightarrow> cont (Inr False) | Inr (Some st) \<Rightarrow> cont (Inr (is_Cancelled st)))"

definition Cancel :: "string \<Rightarrow> string \<Rightarrow> int \<Rightarrow> ('l, goerr option) go" where
  "Cancel key jobID ttl = iteration_Load key (\<lambda>r. case r of
      Inl e \<Rightarrow> Done (Some e)
    | Inr None \<Rightarrow> iteration_Save key (zero_IterationState\<lparr>is_JobID := jobID, is_Cancelled := True\<rparr>) ttl Done
    | Inr (Some st) \<Rightarrow>
        Cmd (cTTL key) (\<lambda>t.
          let existing = (case t of Inr (RInt n) \<Rightarrow> if n > 0 then n * Second else n | _ \<Rightarrow> 0)
          in iteration_Save key (st\<lparr>is_Cancelled := True\<rparr>) (if existing > 0 then existing else ttl) Done))"

section \<open>Handlers and options\<close>

record ('c, 'i, 'item, 'l) IterableHandler =
  ih_ops :: "('i, 'item, 'l) Iterator"
  ih_BuildIterator :: "'c \<Rightarrow> job \<Rightarrow> string \<Rightarrow> ('l, job \<times> (hres + 'i)) go"
  ih_ProcessItem :: "'c \<Rightarrow> job \<Rightarrow> 'item \<Rightarrow> ('l, job \<times> hres) go"

type_synonym ('c, 'l) state_callback = "'c \<Rightarrow> job \<Rightarrow> IterationState \<Rightarrow> ('l, job \<times> IterationState \<times> hres) go"

record ('c, 'l) IterableCallbacks =
  OnStart :: "('c, 'l) handler option"
  OnResume :: "('c, 'l) state_callback option"
  OnStop :: "('c, 'l) state_callback option"
  OnComplete :: "('c, 'l) state_callback option"
  OnCancel :: "('c, 'l) state_callback option"

record ('c, 'l) IterableJobOptions =
  io_CursorSaveInterval :: int
  io_MaxItemsPerRun :: int
  io_MaxRuntime :: int
  io_Callbacks :: "('c, 'l) IterableCallbacks option"
  io_MaxRetries :: int
  io_RetryBackoff :: "BackoffFunc option"
  io_Timeout :: int
  io_RateLimiter :: "'l acquirer option"

definition defaultCursorSaveInterval :: int where
  "defaultCursorSaveInterval = 5 * Second"

definition iterable_defaults :: "int \<Rightarrow> ('c, 'l) IterableJobOptions" where
  "iterable_defaults maxRuntime =
     \<lparr>io_CursorSaveInterval = defaultCursorSaveInterval, io_MaxItemsPerRun = 0, io_MaxRuntime = maxRuntime,
      io_Callbacks = None, io_MaxRetries = DefaultRetryCount, io_RetryBackoff = Some DefaultBackoff,
      io_Timeout = 0, io_RateLimiter = None\<rparr>"

definition WithCursorSaveInterval :: "int \<Rightarrow> ('c, 'l) IterableJobOptions \<Rightarrow> ('c, 'l) IterableJobOptions" where
  "WithCursorSaveInterval d o' = o'\<lparr>io_CursorSaveInterval := d\<rparr>"

definition WithMaxItemsPerRun :: "int \<Rightarrow> ('c, 'l) IterableJobOptions \<Rightarrow> ('c, 'l) IterableJobOptions" where
  "WithMaxItemsPerRun n o' = o'\<lparr>io_MaxItemsPerRun := n\<rparr>"

definition WithJobMaxRuntime :: "int \<Rightarrow> ('c, 'l) IterableJobOptions \<Rightarrow> ('c, 'l) IterableJobOptions" where
  "WithJobMaxRuntime d o' = o'\<lparr>io_MaxRuntime := d\<rparr>"

definition WithIterableCallbacks ::
    "('c, 'l) IterableCallbacks option \<Rightarrow> ('c, 'l) IterableJobOptions \<Rightarrow> ('c, 'l) IterableJobOptions" where
  "WithIterableCallbacks cb o' = o'\<lparr>io_Callbacks := cb\<rparr>"

definition WithIterableMaxRetries :: "int \<Rightarrow> ('c, 'l) IterableJobOptions \<Rightarrow> ('c, 'l) IterableJobOptions" where
  "WithIterableMaxRetries n o' = o'\<lparr>io_MaxRetries := n\<rparr>"

definition WithIterableTimeout :: "int \<Rightarrow> ('c, 'l) IterableJobOptions \<Rightarrow> ('c, 'l) IterableJobOptions" where
  "WithIterableTimeout d o' = o'\<lparr>io_Timeout := d\<rparr>"

definition WithIterableRateLimiter ::
    "'l acquirer option \<Rightarrow> ('c, 'l) IterableJobOptions \<Rightarrow> ('c, 'l) IterableJobOptions" where
  "WithIterableRateLimiter limiter o' = o'\<lparr>io_RateLimiter := limiter\<rparr>"

section \<open>The iteration loop\<close>

definition callback :: "(('c, 'l) IterableCallbacks \<Rightarrow> 'x option) \<Rightarrow> ('c, 'l) IterableJobOptions \<Rightarrow> 'x option" where
  "callback f opts = Option.bind (io_Callbacks opts) f"

definition run_callback :: "('c, 'l) state_callback option \<Rightarrow> 'c \<Rightarrow> job \<Rightarrow> IterationState \<Rightarrow>
    (job \<Rightarrow> IterationState \<Rightarrow> hres \<Rightarrow> ('l, 'a) go) \<Rightarrow> ('l, 'a) go" where
  "run_callback cb ctx job st cont = (case cb of
      None \<Rightarrow> cont job st HOk
    | Some f \<Rightarrow> go_bind (f ctx job st) (\<lambda>(job, st, r). cont job st r))"

definition saveIterationStateFor :: "string \<Rightarrow> IterationState \<Rightarrow> string \<Rightarrow> (goerr option \<Rightarrow> ('l, 'a) go) \<Rightarrow> ('l, 'a) go" where
  "saveIterationStateFor key st reason cont =
     iteration_Save key st StateTTL (\<lambda>e. cont (map_option (Wrap (''save iteration state '' @ reason)) e))"

definition iterationCancelled :: "string \<Rightarrow> (bool \<Rightarrow> ('l, 'a) go) \<Rightarrow> ('l, 'a) go" where
  "iterationCancelled key cont = IsCancelled key (\<lambda>r. cont (case r of Inl e \<Rightarrow> False | Inr b \<Rightarrow> b))"

definition updateIterationTiming :: "IterationState \<Rightarrow> int \<Rightarrow> (IterationState \<Rightarrow> int \<Rightarrow> ('l, 'a) go) \<Rightarrow> ('l, 'a) go" where
  "updateIterationTiming st runStart cont =
     Now (\<lambda>t. Now (\<lambda>t'. cont (st\<lparr>is_TotalTime := i64 (is_TotalTime st + (t - runStart))\<rparr>) t'))"

definition preserveCancellation :: "IterationState \<Rightarrow> string \<Rightarrow> (IterationState \<Rightarrow> ('l, 'a) go) \<Rightarrow> ('l, 'a) go" where
  "preserveCancellation st key cont =
     iterationCancelled key (\<lambda>b. cont (if b then st\<lparr>is_Cancelled := True\<rparr> else st))"

text \<open>A panic of a callback goes on; its error is only logged.\<close>

definition unless_panic :: "hres \<Rightarrow> ('l, hres) go \<Rightarrow> ('l, hres) go" where
  "unless_panic r cont = (case r of HPanic v \<Rightarrow> Done r | HRunning \<Rightarrow> Done r | _ \<Rightarrow> cont)"

definition handleIterationCancelled :: "IterationState \<Rightarrow> string \<Rightarrow> int \<Rightarrow> ('c, 'l) IterableJobOptions \<Rightarrow> 'c \<Rightarrow> job \<Rightarrow>
    ('l, job \<times> hres) go" where
  "handleIterationCancelled st key runStart opts ctx job =
     updateIterationTiming (st\<lparr>is_Cancelled := True\<rparr>) runStart (\<lambda>st _.
       saveIterationStateFor key st ''on cancel'' (\<lambda>e. case e of
         Some e \<Rightarrow> Done (job, HErr e)
       | None \<Rightarrow>
           run_callback (callback OnCancel opts) ctx job st (\<lambda>job st r.
             go_bind (unless_panic r (Done HOk)) (\<lambda>r.
               if r \<noteq> HOk then Done (job, r)
               else run_callback (callback OnStop opts) ctx job st (\<lambda>job st r.
                      go_bind (unless_panic r (Done HOk)) (\<lambda>r. Done (job, r)))))))"

definition handleIterationInterrupt :: "IterationState \<Rightarrow> string \<Rightarrow> int \<Rightarrow> ('c, 'l) IterableJobOptions \<Rightarrow> 'c \<Rightarrow> job \<Rightarrow>
    ('l, job \<times> hres) go" where
  "handleIterationInterrupt st key runStart opts ctx job =
     preserveCancellation st key (\<lambda>st.
       updateIterationTiming st runStart (\<lambda>st _.
         saveIterationStateFor key st ''on interrupt'' (\<lambda>e. case e of
           Some e \<Rightarrow> Done (job, HErr e)
         | None \<Rightarrow>
             run_callback (callback OnStop opts) ctx job st (\<lambda>job st r.
               go_bind (unless_panic r (Done (HErr InterruptedError))) (\<lambda>r. Done (job, r))))))"

text \<open>How the loop ends: with a return of the function, or by falling out of the loop.\<close>

datatype 'i loop_end = Return job 'i hres | Fallthrough job IterationState 'i int

text \<open>
  Saving on an item error: preserve a cancellation, add the run time, save; the errors are joined.
\<close>

definition save_and_fail :: "string \<Rightarrow> IterationState \<Rightarrow> int \<Rightarrow> string \<Rightarrow> goerr \<Rightarrow> (hres \<Rightarrow> ('l, 'a) go) \<Rightarrow> ('l, 'a) go" where
  "save_and_fail key st runStart reason err cont =
     updateIterationTiming st runStart (\<lambda>st _.
       saveIterationStateFor key st reason (\<lambda>e. case e of
         Some saveErr \<Rightarrow> cont (HErr (Joined err saveErr)) | None \<Rightarrow> cont (HErr err)))"

definition interrupted :: "IterationState \<Rightarrow> string \<Rightarrow> int \<Rightarrow> ('c, 'l) IterableJobOptions \<Rightarrow> 'c \<Rightarrow> job \<Rightarrow> 'i \<Rightarrow> ('l, 'i loop_end) go" where
  "interrupted st key runStart opts ctx job it =
     go_bind (handleIterationInterrupt st key runStart opts ctx job) (\<lambda>(job, r). Done (Return job it r))"

definition yielding :: "IterationState \<Rightarrow> string \<Rightarrow> int \<Rightarrow> ('c, 'l) IterableJobOptions \<Rightarrow> 'c \<Rightarrow> job \<Rightarrow> 'i \<Rightarrow> ('l, 'i loop_end) go" where
  "yielding st key runStart opts ctx job it =
     CtxDone (\<lambda>_. preserveCancellation st key (\<lambda>st. interrupted st key runStart opts ctx job it))"

text \<open>The checkpoint after an item: nothing unless the ticker has ticked.\<close>

definition checkpoint :: "int \<Rightarrow> string \<Rightarrow> IterationState \<Rightarrow> int \<Rightarrow> ('c, 'l) IterableJobOptions \<Rightarrow> 'c \<Rightarrow> job \<Rightarrow> 'i \<Rightarrow>
    (IterationState \<Rightarrow> int \<Rightarrow> ('l, 'i loop_end) go) \<Rightarrow> ('l, 'i loop_end) go" where
  "checkpoint saveInterval key st runStart opts ctx job it cont =
     Wait saveInterval (\<lambda>ticked.
       if \<not> ticked then cont st runStart
       else CtxDone (\<lambda>cancelled.
         if cancelled then interrupted st key runStart opts ctx job it
         else preserveCancellation st key (\<lambda>st.
           updateIterationTiming st runStart (\<lambda>st runStart.
             saveIterationStateFor key st ''during cursor checkpoint'' (\<lambda>e. case e of
               None \<Rightarrow> cont st runStart
             | Some saveErr \<Rightarrow>
                 CtxDone (\<lambda>cancelled.
                   if cancelled then interrupted st key runStart opts ctx job it
                   else Done (Return job it (HErr saveErr))))))))"

definition after_item :: "('i, 'item, 'l) Iterator \<Rightarrow> int option \<Rightarrow> int \<Rightarrow> string \<Rightarrow> ('c, 'l) IterableJobOptions \<Rightarrow> 'c \<Rightarrow>
    job \<Rightarrow> IterationState \<Rightarrow> 'i \<Rightarrow> int \<Rightarrow> int \<Rightarrow> (IterationState \<Rightarrow> int \<Rightarrow> int \<Rightarrow> ('l, 'i loop_end) go) \<Rightarrow> ('l, 'i loop_end) go" where
  "after_item ops deadline saveInterval key opts ctx job st it items runStart cont =
     (let st = st\<lparr>is_TotalItems := i64 (is_TotalItems st + 1), is_Cursor := it_Cursor ops it\<rparr>;
          items = items + 1
      in if io_MaxItemsPerRun opts > 0 \<and> items \<ge> io_MaxItemsPerRun opts
         then yielding st key runStart opts ctx job it
         else (\<lambda>continue. case deadline of
                 None \<Rightarrow> continue
               | Some t \<Rightarrow> Now (\<lambda>now. if now \<ge> t then yielding st key runStart opts ctx job it else continue))
              (checkpoint saveInterval key st runStart opts ctx job it (\<lambda>st runStart. cont st items runStart)))"

primrec iterate :: "nat \<Rightarrow> ('c, 'i, 'item, 'l) IterableHandler \<Rightarrow> int option \<Rightarrow> int \<Rightarrow> string \<Rightarrow> ('c, 'l) IterableJobOptions \<Rightarrow>
    'c \<Rightarrow> job \<Rightarrow> IterationState \<Rightarrow> 'i \<Rightarrow> int \<Rightarrow> int \<Rightarrow> ('l, 'i loop_end) go" where
  "iterate 0 h deadline saveInterval key opts ctx job st it items runStart = Done (Return job it HRunning)"
| "iterate (Suc n) h deadline saveInterval key opts ctx job st it items runStart =
     go_bind (it_Next (ih_ops h) it) (\<lambda>(it, more).
       if \<not> more then Done (Fallthrough job st it runStart)
       else (\<lambda>check. if is_Cancelled st then check True else iterationCancelled key check)
         (\<lambda>cancelled.
            if cancelled
            then go_bind (handleIterationCancelled st key runStart opts ctx job) (\<lambda>(job, r). Done (Return job it r))
            else CtxDone (\<lambda>stopping.
              if stopping then interrupted st key runStart opts ctx job it
              else go_bind (ih_ProcessItem h ctx job (it_Item (ih_ops h) it)) (\<lambda>(job, r).
                let continue = after_item (ih_ops h) deadline saveInterval key opts ctx job st it items runStart
                      (\<lambda>st items runStart. iterate n h deadline saveInterval key opts ctx job st it items runStart)
                in case r of
                     HOk \<Rightarrow> continue
                   | HErr err \<Rightarrow>
                       if is_skip err then continue
                       else if is_stop err then Done (Fallthrough job st it runStart)
                       else preserveCancellation st key (\<lambda>st.
                              save_and_fail key st runStart ''on item error'' err (\<lambda>r. Done (Return job it r)))
                   | _ \<Rightarrow> Done (Return job it r)))))"

definition is_canceled :: "goerr \<Rightarrow> bool" where
  "is_canceled e \<longleftrightarrow> find_error (\<lambda>e. if e = CtxErr then Some () else None) e \<noteq> None"

text \<open>The deferred \<^verbatim>\<open>iter.Close\<close> of a return before the iterator was closed.\<close>

definition closing :: "('i, 'item, 'l) Iterator \<Rightarrow> 'i \<Rightarrow> ('l, job \<times> hres) go \<Rightarrow> ('l, job \<times> hres) go" where
  "closing ops it p = go_bind p (\<lambda>(job, r).
     if r = HRunning then Done (job, r) else go_bind (it_Close ops it) (\<lambda>_. Done (job, r)))"

definition complete_iteration :: "string \<Rightarrow> ('c, 'l) IterableJobOptions \<Rightarrow> 'c \<Rightarrow> job \<Rightarrow> IterationState \<Rightarrow> int \<Rightarrow>
    ('l, job \<times> hres) go" where
  "complete_iteration key opts ctx job st runStart =
     preserveCancellation st key (\<lambda>st.
       updateIterationTiming st runStart (\<lambda>st _.
         saveIterationStateFor key st ''before completion'' (\<lambda>e. case e of
           Some saveErr \<Rightarrow> Done (job, HErr saveErr)
         | None \<Rightarrow>
             run_callback (callback OnComplete opts) ctx job st (\<lambda>job st r.
               if r \<noteq> HOk then Done (job, r) else Cmd (cDEL [key]) (\<lambda>_. Done (job, HOk))))))"

definition finish_iteration :: "('i, 'item, 'l) Iterator \<Rightarrow> string \<Rightarrow> ('c, 'l) IterableJobOptions \<Rightarrow> 'c \<Rightarrow> job \<Rightarrow>
    IterationState \<Rightarrow> 'i \<Rightarrow> int \<Rightarrow> ('l, job \<times> hres) go" where
  "finish_iteration ops key opts ctx job st it runStart = (case it_Err ops it of
      Some err \<Rightarrow>
        CtxDone (\<lambda>cancelled.
          closing ops it
            (if cancelled \<or> is_canceled err then handleIterationInterrupt st key runStart opts ctx job
             else save_and_fail key st runStart ''on iterator error'' err (\<lambda>r. Done (job, r))))
    | None \<Rightarrow>
        CtxDone (\<lambda>_. iterationCancelled key (\<lambda>cancelled.
          if cancelled then closing ops it (handleIterationCancelled st key runStart opts ctx job)
          else go_bind (it_Close ops it) (\<lambda>e. case e of
            Some err \<Rightarrow>
              preserveCancellation st key (\<lambda>st.
                save_and_fail key st runStart ''on iterator close error'' (Wrap ''close iterable iterator'' err)
                  (\<lambda>r. Done (job, r)))
          | None \<Rightarrow> complete_iteration key opts ctx job st runStart))))"

definition iterableMaxRuntime :: "int \<Rightarrow> ('c, 'l) IterableJobOptions \<Rightarrow> int" where
  "iterableMaxRuntime worker_default opts =
     (if io_MaxRuntime opts \<noteq> 0 then io_MaxRuntime opts else worker_default)"

definition start_callbacks :: "('c, 'l) IterableJobOptions \<Rightarrow> bool \<Rightarrow> 'c \<Rightarrow> job \<Rightarrow> IterationState \<Rightarrow>
    (job \<Rightarrow> IterationState \<Rightarrow> hres \<Rightarrow> ('l, 'a) go) \<Rightarrow> ('l, 'a) go" where
  "start_callbacks opts isResume ctx job st cont =
     (if is_Executions st = 1 \<and> callback OnStart opts \<noteq> None
      then (case callback OnStart opts of
              Some f \<Rightarrow> go_bind (f ctx job) (\<lambda>(job, r). cont job st r) | None \<Rightarrow> cont job st HOk)
      else if isResume then run_callback (callback OnResume opts) ctx job st cont
      else cont job st HOk)"

definition run_iterator :: "nat \<Rightarrow> ('c, 'i, 'item, 'l) IterableHandler \<Rightarrow> int \<Rightarrow> string \<Rightarrow> ('c, 'l) IterableJobOptions \<Rightarrow>
    'c \<Rightarrow> job \<Rightarrow> IterationState \<Rightarrow> 'i \<Rightarrow> ('l, job \<times> hres) go" where
  "run_iterator n h maxRuntime key opts ctx job st it =
     (let saveInterval = (if io_CursorSaveInterval opts \<le> 0 then defaultCursorSaveInterval else io_CursorSaveInterval opts)
      in Now (\<lambda>runStart.
        go_bind (iterate n h (if maxRuntime > 0 then Some (runStart + maxRuntime) else None) saveInterval key opts ctx job st it 0 runStart)
          (\<lambda>e. case e of
             Return job it r \<Rightarrow> closing (ih_ops h) it (Done (job, r))
           | Fallthrough job st it runStart \<Rightarrow> finish_iteration (ih_ops h) key opts ctx job st it runStart)))"

definition processIterable :: "nat \<Rightarrow> keys \<Rightarrow> int \<Rightarrow> ('c, 'i, 'item, 'l) IterableHandler \<Rightarrow> ('c, 'l) IterableJobOptions \<Rightarrow>
    ('c, 'l) handler" where
  "processIterable n k worker_default h opts ctx job =
     (let key = IterationState k (j_ID job)
      in iteration_Load key (\<lambda>loaded. case loaded of
           Inl e \<Rightarrow> Done (job, HErr e)
         | Inr found \<Rightarrow>
             (\<lambda>with_state. case found of
                None \<Rightarrow> Now (\<lambda>t. with_state (zero_IterationState\<lparr>is_JobID := j_ID job, is_StartedAt := t\<rparr>))
              | Some st \<Rightarrow> if is_StartedAt st = zero_time then Now (\<lambda>t. with_state (st\<lparr>is_StartedAt := t\<rparr>)) else with_state st)
             (\<lambda>st. Now (\<lambda>t.
                start_callbacks opts (found \<noteq> None) ctx job
                  (st\<lparr>is_Executions := i64 (is_Executions st + 1), is_LastRunAt := t\<rparr>) (\<lambda>job st r.
                  if r \<noteq> HOk then Done (job, r)
                  else go_bind (ih_BuildIterator h ctx job (is_Cursor st)) (\<lambda>(job, built). case built of
                    Inl r \<Rightarrow> Done (job, r)
                  | Inr it \<Rightarrow> run_iterator n h (iterableMaxRuntime worker_default opts) key opts ctx job st it))))))"

end
