(* ===== verification/Registry.thy ===== *)
theory Registry
  imports Iterable Fetcher
begin

text \<open>
  The handler registry, \<^verbatim>\<open>worker/pool.go\<close>, with the job options of \<^verbatim>\<open>worker/options.go\<close> and the
  decryption middleware of \<^verbatim>\<open>worker/worker.go\<close>.

  The semaphore channel of a handler is a counter in the state that the goroutines of a process
  share, \<open>handler_slots\<close>; sending to it waits for a free slot or for the end of the context.
\<close>

record worker_locals = locals +
  handler_slots :: "string \<Rightarrow> int"

section \<open>Options\<close>

record 'l JobOptions =
  jo_MaxRetries :: int
  jo_RetryBackoff :: "BackoffFunc option"
  jo_Timeout :: int
  jo_MaxConcurrency :: int
  jo_Unique :: "(string \<times> int) option"
  jo_RateLimiter :: "'l acquirer option"

definition job_defaults :: "'l JobOptions" where
  "job_defaults = \<lparr>jo_MaxRetries = DefaultRetryCount, jo_RetryBackoff = Some DefaultBackoff, jo_Timeout = 0,
     jo_MaxConcurrency = 0, jo_Unique = None, jo_RateLimiter = None\<rparr>"

definition WithJobMaxRetries :: "int \<Rightarrow> 'l JobOptions \<Rightarrow> 'l JobOptions" where
  "WithJobMaxRetries n o' = o'\<lparr>jo_MaxRetries := n\<rparr>"

definition WithMaxRetries :: "int \<Rightarrow> 'l JobOptions \<Rightarrow> 'l JobOptions" where
  "WithMaxRetries n = WithJobMaxRetries n"

definition WithJobTimeout :: "int \<Rightarrow> 'l JobOptions \<Rightarrow> 'l JobOptions" where
  "WithJobTimeout d o' = o'\<lparr>jo_Timeout := d\<rparr>"

definition WithMaxConcurrency :: "int \<Rightarrow> 'l JobOptions \<Rightarrow> 'l JobOptions" where
  "WithMaxConcurrency n o' = o'\<lparr>jo_MaxConcurrency := n\<rparr>"

definition WithUniqueJob :: "string \<Rightarrow> int \<Rightarrow> 'l JobOptions \<Rightarrow> 'l JobOptions" where
  "WithUniqueJob key ttl o' = o'\<lparr>jo_Unique := Some (key, ttl)\<rparr>"

definition WithJobRateLimiter :: "'l acquirer option \<Rightarrow> 'l JobOptions \<Rightarrow> 'l JobOptions" where
  "WithJobRateLimiter limiter o' = o'\<lparr>jo_RateLimiter := limiter\<rparr>"

definition WithRateLimiter :: "'l acquirer option \<Rightarrow> 'l JobOptions \<Rightarrow> 'l JobOptions" where
  "WithRateLimiter limiter = WithJobRateLimiter limiter"

section \<open>The registry\<close>

record ('c, 'l) handlerEntry =
  he_handler :: "('c, 'l) handler"
  he_options :: "'l JobOptions option"
  he_sema :: "int option"

record ('c, 'i, 'item, 'l) handlerRegistry =
  hr_handlers :: "string \<Rightarrow> ('c, 'l) handlerEntry option"
  hr_iterableHandlers :: "string \<Rightarrow> (('c, 'i, 'item, 'l) IterableHandler \<times> ('c, 'l) IterableJobOptions option) option"
  hr_middleware :: "('c, 'l) middleware list"

definition newHandlerRegistry :: "('c, 'i, 'item, 'l) handlerRegistry" where
  "newHandlerRegistry = \<lparr>hr_handlers = (\<lambda>_. None), hr_iterableHandlers = (\<lambda>_. None), hr_middleware = []\<rparr>"

definition registry_Register :: "string \<Rightarrow> ('c, 'l) handler \<Rightarrow> 'l JobOptions option \<Rightarrow>
    ('c, 'i, 'item, 'l) handlerRegistry \<Rightarrow> ('c, 'i, 'item, 'l) handlerRegistry" where
  "registry_Register jobType h opts r =
     (let sema = (case opts of Some o' \<Rightarrow> if jo_MaxConcurrency o' > 0 then Some (jo_MaxConcurrency o') else None | None \<Rightarrow> None)
      in r\<lparr>hr_handlers := (hr_handlers r)(jobType \<mapsto> \<lparr>he_handler = h, he_options = opts, he_sema = sema\<rparr>)\<rparr>)"

definition registry_RegisterIterable :: "string \<Rightarrow> ('c, 'i, 'item, 'l) IterableHandler \<Rightarrow>
    ('c, 'l) IterableJobOptions option \<Rightarrow> ('c, 'i, 'item, 'l) handlerRegistry \<Rightarrow> ('c, 'i, 'item, 'l) handlerRegistry" where
  "registry_RegisterIterable jobType h opts r =
     r\<lparr>hr_iterableHandlers := (hr_iterableHandlers r)(jobType \<mapsto> (h, opts))\<rparr>"

definition GetIterable :: "('c, 'i, 'item, 'l) handlerRegistry \<Rightarrow> string \<Rightarrow>
    (('c, 'i, 'item, 'l) IterableHandler \<times> ('c, 'l) IterableJobOptions option) option" where
  "GetIterable r jobType = hr_iterableHandlers r jobType"

definition registry_Use :: "('c, 'l) middleware list \<Rightarrow> ('c, 'i, 'item, 'l) handlerRegistry \<Rightarrow>
    ('c, 'i, 'item, 'l) handlerRegistry" where
  "registry_Use mw r = r\<lparr>hr_middleware := hr_middleware r @ mw\<rparr>"

definition middlewareChain :: "('c, 'i, 'item, 'l) handlerRegistry \<Rightarrow> ('c, 'l) middleware list" where
  "middlewareChain r = (if length (hr_middleware r) = 0 then [] else hr_middleware r)"

text \<open>Timeout, rate limiter and the registered middleware, from the inside out.\<close>

definition decorate :: "int \<Rightarrow> 'l acquirer option \<Rightarrow> ('c, 'l) middleware list \<Rightarrow> ('c, 'l) handler \<Rightarrow> ('c, 'l) handler" where
  "decorate timeout limiter mws h =
     (let h = (if timeout > 0 then TimeoutMiddleware timeout h else h);
          h = (case limiter of Some l \<Rightarrow> RateLimitMiddlewareWithReschedule l h | None \<Rightarrow> h)
      in if length mws > 0 then Chain mws h else h)"

definition slot_free :: "string \<Rightarrow> int \<Rightarrow> 'x worker_locals_scheme \<Rightarrow> bool" where
  "slot_free t capacity l \<longleftrightarrow> handler_slots l t < capacity"

definition take_slot :: "string \<Rightarrow> 'x worker_locals_scheme \<Rightarrow> 'x worker_locals_scheme" where
  "take_slot t l = l\<lparr>handler_slots := (handler_slots l)(t := handler_slots l t + 1)\<rparr>"

definition free_slot :: "string \<Rightarrow> 'x worker_locals_scheme \<Rightarrow> 'x worker_locals_scheme" where
  "free_slot t l = l\<lparr>handler_slots := (handler_slots l)(t := handler_slots l t - 1)\<rparr>"

definition process :: "('c, 'i, 'item, 'x worker_locals_scheme) handlerRegistry \<Rightarrow> 'c \<Rightarrow> job \<Rightarrow>
    ('x worker_locals_scheme, 'x worker_locals_scheme JobOptions option \<times> job \<times> hres) go" where
  "process r ctx job = (case hr_handlers r (j_Type job) of
     None \<Rightarrow> Done (None, job, HErr (JobNotFoundError (j_ID job)))
   | Some entry \<Rightarrow>
       (let h = decorate (case he_options entry of Some o' \<Rightarrow> jo_Timeout o' | None \<Rightarrow> 0)
                  (Option.bind (he_options entry) jo_RateLimiter) (hr_middleware r) (he_handler entry);
            run = Now (\<lambda>now. h ctx (job\<lparr>j_ProcessedAt := Some now\<rparr>))
        in case he_sema entry of
             None \<Rightarrow> go_bind run (\<lambda>(job, res). Done (he_options entry, job, res))
           | Some capacity \<Rightarrow>
               Await (slot_free (j_Type job) capacity) (take_slot (j_Type job)) (\<lambda>got.
                 if \<not> got then Done (he_options entry, job, HErr CtxErr)
                 else go_bind run (\<lambda>(job', res).
                        if res = HRunning then Done (he_options entry, job', res)
                        else Local (free_slot (j_Type job)) (\<lambda>_. Done (he_options entry, job', res))))))"

section \<open>Decryption\<close>

definition encryptionMiddleware :: "((string \<times> json) list option \<Rightarrow> goerr + (string \<times> json) list option) \<Rightarrow> ('c, 'l) middleware" where
  "encryptionMiddleware decrypt next ctx job =
     (if j_Encrypted job
      then (case decrypt (j_Args job) of
              Inl e \<Rightarrow> Done (job, HErr (Wrap ''failed to decrypt job args'' e))
            | Inr args \<Rightarrow> next ctx (job\<lparr>j_Args := args, j_Encrypted := False\<rparr>))
      else next ctx job)"

end
