(* ===== verification/BatchScripts.thy ===== *)
theory BatchScripts
  imports QueueScripts Job
begin

text \<open>
  The Lua scripts of \<^verbatim>\<open>src/internal/lua/batch_*.lua\<close>, which keep the counters of a batch in step
  with the set of its open members.  Every script is a function of \<^verbatim>\<open>KEYS\<close> and \<^verbatim>\<open>ARGV\<close>, written
  call by call as in \<open>QueueScripts\<close>; the local variables of \<^verbatim>\<open>batch_complete.lua\<close> are the record
  \<open>progress\<close> (what the progress hash says) and the record \<open>outcome\<close> (what the completion adds).

  A missing table field or \<^verbatim>\<open>nil\<close> is \<open>None\<close>; \<^verbatim>\<open>false\<close> and \<^verbatim>\<open>nil\<close> are the false values of Lua.  The
  counters of a progress hash are decimal integers, the only texts that Senna writes to them.
\<close>

section \<open>Lua vocabulary\<close>

definition truthy :: "json option \<Rightarrow> bool" where
  "truthy v \<longleftrightarrow> v \<noteq> None \<and> v \<noteq> Some (JBool False)"

text \<open>Indexing a table or a string gives a field or \<^verbatim>\<open>nil\<close>; indexing another value raises.\<close>

definition lindex :: "json \<Rightarrow> string \<Rightarrow> (json option \<Rightarrow> lua) \<Rightarrow> lua" where
  "lindex j f cont = (case j of
      JObj _ \<Rightarrow> cont (table_field j f) | JArr _ \<Rightarrow> cont None | JStr _ \<Rightarrow> cont None
    | _ \<Rightarrow> LErr (''attempt to index a value: '' @ f))"

definition bad_argument :: lua where
  "bad_argument = LErr ''Lua redis lib command arguments must be strings or integers''"

definition arg_text :: "cjson \<Rightarrow> json \<Rightarrow> string option" where
  "arg_text cj v = (case v of JStr s \<Rightarrow> Some s | JNum n \<Rightarrow> Some (cj_number cj n) | _ \<Rightarrow> None)"

definition lencode :: "cjson \<Rightarrow> json \<Rightarrow> lua" where
  "lencode cj j = (case cj_encode cj j of Some s \<Rightarrow> LRet (RBulk s) | None \<Rightarrow> LErr ''Cannot serialise'')"

definition bool_value :: "string option \<Rightarrow> bool" where
  "bool_value v \<longleftrightarrow> v = Some ''1'' \<or> v = Some ''true''"

definition reply_opt :: "rreply \<Rightarrow> string option" where
  "reply_opt r = (case r of RBulk s \<Rightarrow> Some s | _ \<Rightarrow> None)"

definition bool_field :: "string \<Rightarrow> string \<Rightarrow> (bool \<Rightarrow> lua) \<Rightarrow> lua" where
  "bool_field progress_key f cont = LCall (cHGET progress_key f) (\<lambda>r. cont (bool_value (reply_opt r)))"

definition number_or :: "string option \<Rightarrow> int \<Rightarrow> int" where
  "number_or v dflt = (case v of None \<Rightarrow> dflt | Some s \<Rightarrow> (case parse_int s of Some i \<Rightarrow> i | None \<Rightarrow> dflt))"

definition number_field :: "string \<Rightarrow> string \<Rightarrow> (int \<Rightarrow> lua) \<Rightarrow> lua" where
  "number_field progress_key f cont = LCall (cHGET progress_key f) (\<lambda>r. cont (number_or (reply_opt r) 0))"

text \<open>\<^verbatim>\<open>load_batch\<close> reads and decodes the metadata once.\<close>

definition load_batch :: "cjson \<Rightarrow> string \<Rightarrow> json option \<Rightarrow> (json \<Rightarrow> lua) \<Rightarrow> lua" where
  "load_batch cj batch_key batch cont = (case batch of
      Some b \<Rightarrow> cont b
    | None \<Rightarrow> LCall (cGET batch_key) (\<lambda>r. case r of
          RBulk s \<Rightarrow> (case cj_decode cj s of Some b \<Rightarrow> cont b | None \<Rightarrow> LErr ''Expected value'')
        | _ \<Rightarrow> LErr ''bad argument to decode''))"

text \<open>The guard on the metadata key: a missing batch has a result of its own.\<close>

definition with_batch :: "string \<Rightarrow> lua \<Rightarrow> lua \<Rightarrow> lua" where
  "with_batch batch_key not_found cont = LCall (cTYPE batch_key) (\<lambda>t.
     if status t = ''none'' then not_found
     else if status t \<noteq> ''string'' then LErr (''batch key has type '' @ status t @ '', want string'')
     else cont)"

section \<open>The progress hash of an old batch\<close>

definition or_text :: "cjson \<Rightarrow> json option \<Rightarrow> string \<Rightarrow> string option" where
  "or_text cj v dflt = (if truthy v then Option.bind v (arg_text cj) else Some dflt)"

definition flag_text :: "json option \<Rightarrow> string" where
  "flag_text v = (if truthy v then ''1'' else ''0'')"

definition legacy_fields :: "cjson \<Rightarrow> (string \<Rightarrow> json option) \<Rightarrow> string \<Rightarrow> (string \<times> string option) list" where
  "legacy_fields cj legacy pending =
     [(''id'', or_text cj (legacy ''id'') []),
      (''parent_id'', or_text cj (legacy ''parent_id'') []),
      (''callback_queue'', or_text cj (legacy ''callback_queue'') []),
      (''total'', or_text cj (legacy ''total'') ''0''),
      (''pending'', or_text cj (legacy ''pending'') pending),
      (''failures'', or_text cj (legacy ''failures'') ''0''),
      (''successes'', or_text cj (legacy ''successes'') ''0''),
      (''callbacks_pending'', or_text cj (legacy ''callbacks_pending'') ''0''),
      (''callback_seq'', or_text cj (legacy ''callback_seq'') ''0''),
      (''dead'', Some (flag_text (legacy ''dead''))),
      (''death_fired'', Some (flag_text (legacy ''death_fired''))),
      (''complete_fired'', Some (flag_text (legacy ''complete_fired''))),
      (''success_fired'', Some (flag_text (legacy ''success_fired''))),
      (''invalidated'', Some (flag_text (legacy ''invalidated'')))]"

fun all_texts :: "(string \<times> string option) list \<Rightarrow> (string \<times> string) list option" where
  "all_texts [] = Some []"
| "all_texts ((f, v) # fs) = (case (v, all_texts fs) of (Some s, Some ts) \<Rightarrow> Some ((f, s) # ts) | _ \<Rightarrow> None)"

text \<open>
  The initialisation of a missing progress hash from the metadata.  Where the script counts the
  members of the jobs set for a missing \<^verbatim>\<open>pending\<close>, \<open>jobs_key\<close> is that set.
\<close>

definition init_progress :: "cjson \<Rightarrow> string \<Rightarrow> string \<Rightarrow> string option \<Rightarrow> (json \<Rightarrow> lua) \<Rightarrow> lua" where
  "init_progress cj batch_key progress_key jobs_key cont =
     load_batch cj batch_key None (\<lambda>legacy.
       lindex legacy ''pending'' (\<lambda>pending.
         (\<lambda>write. case jobs_key of
             Some jobs \<Rightarrow> if truthy pending then write ''0''
                          else LCall (cSCARD jobs) (\<lambda>n. write (string_of_int (reply_int n)))
           | None \<Rightarrow> write ''0'')
         (\<lambda>pending_text.
           case all_texts (legacy_fields cj (table_field legacy) pending_text) of
             None \<Rightarrow> bad_argument
           | Some texts \<Rightarrow> LCall (cHSET progress_key texts) (\<lambda>_. cont legacy))))"

definition copy_ttl :: "string \<Rightarrow> string \<Rightarrow> lua \<Rightarrow> lua" where
  "copy_ttl batch_key key cont = LCall (cPTTL batch_key) (\<lambda>batch_ttl.
     lwhen (0 < reply_int batch_ttl) (cPEXPIRE key (reply_int batch_ttl)) cont)"

definition with_progress_type :: "string \<Rightarrow> (string \<Rightarrow> lua) \<Rightarrow> lua" where
  "with_progress_type progress_key cont = LCall (cTYPE progress_key) (\<lambda>t.
     if status t \<noteq> ''none'' \<and> status t \<noteq> ''hash''
     then LErr (''batch progress key has type '' @ status t @ '', want hash'') else cont (status t))"

section \<open>Completing a member\<close>

record progress =
  pending :: int
  successes :: int
  failures :: int
  callbacks_pending :: int
  dead :: bool
  invalidated :: bool
  death_fired :: bool
  complete_fired :: bool
  success_fired :: bool
  batch_id :: "string option"
  parent_id :: "string option"

record outcome =
  successes_delta :: int
  failures_delta :: int
  add_failed_job :: bool
  add_dead_batch :: bool
  callback_list :: "(string \<times> json option) list"

definition no_outcome :: outcome where
  "no_outcome = \<lparr>successes_delta = 0, failures_delta = 0, add_failed_job = False, add_dead_batch = False, callback_list = []\<rparr>"

definition progress_fields :: "string list" where
  "progress_fields = [''pending'', ''successes'', ''failures'', ''callbacks_pending'', ''dead'', ''invalidated'',
     ''death_fired'', ''complete_fired'', ''success_fired'', ''id'', ''parent_id'']"

definition nonempty :: "string option \<Rightarrow> string option" where
  "nonempty v = (if v = Some [] then None else v)"

definition read_progress :: "(nat \<Rightarrow> string option) \<Rightarrow> int \<Rightarrow> progress" where
  "read_progress v members =
     \<lparr>pending = number_or (v 0) members, successes = number_or (v 1) 0, failures = number_or (v 2) 0,
      callbacks_pending = number_or (v 3) 0, dead = bool_value (v 4), invalidated = bool_value (v 5),
      death_fired = bool_value (v 6), complete_fired = bool_value (v 7), success_fired = bool_value (v 8),
      batch_id = nonempty (v 9), parent_id = nonempty (v 10)\<rparr>"

definition result_error :: "string \<Rightarrow> lua" where
  "result_error code = LRet (RBulk (json_print (JObj [(''error'', JStr code)])))"

definition result_already_processed :: lua where
  "result_already_processed = LRet (RBulk (json_print (JObj [(''already_processed'', JBool True)])))"

text \<open>A callback is its job type (empty unless a string) and its options.\<close>

definition make_callback :: "json \<Rightarrow> outcome \<Rightarrow> (outcome \<Rightarrow> lua) \<Rightarrow> lua" where
  "make_callback callback_config oc cont =
     lindex callback_config ''job_type'' (\<lambda>t.
       let job_type = (case t of Some (JStr s) \<Rightarrow> s | _ \<Rightarrow> [])
       in lindex callback_config ''options'' (\<lambda>options.
            cont (oc\<lparr>callback_list := callback_list oc @ [(job_type, options)]\<rparr>)))"

definition when_truthy :: "json option \<Rightarrow> (json \<Rightarrow> lua) \<Rightarrow> lua \<Rightarrow> lua" where
  "when_truthy v yes no = (case v of Some j \<Rightarrow> if j = JBool False then no else yes j | None \<Rightarrow> no)"

definition check_failed :: "string \<Rightarrow> string \<Rightarrow> (bool \<Rightarrow> lua) \<Rightarrow> lua" where
  "check_failed failed_key job_id cont =
     want ''batch failed key'' ''set'' failed_key
       (LCall (cSISMEMBER failed_key job_id) (\<lambda>r. cont (reply_int r = 0)))"

definition fire_death :: "cjson \<Rightarrow> string \<Rightarrow> json option \<Rightarrow> progress \<Rightarrow> outcome \<Rightarrow>
    (json option \<Rightarrow> progress \<Rightarrow> outcome \<Rightarrow> lua) \<Rightarrow> lua" where
  "fire_death cj batch_key memo p oc cont =
     (if invalidated p then cont memo p oc
      else let p = p\<lparr>dead := True\<rparr>; oc = oc\<lparr>add_dead_batch := True\<rparr>
           in if death_fired p then cont memo p oc
              else load_batch cj batch_key memo (\<lambda>metadata.
                     lindex metadata ''on_death'' (\<lambda>on_death.
                       when_truthy on_death
                         (\<lambda>cfg. make_callback cfg oc (\<lambda>oc. cont (Some metadata) (p\<lparr>death_fired := True\<rparr>) oc))
                         (cont (Some metadata) p oc))))"

definition apply_result :: "cjson \<Rightarrow> string list \<Rightarrow> string list \<Rightarrow> json option \<Rightarrow> progress \<Rightarrow>
    (json option \<Rightarrow> progress \<Rightarrow> outcome \<Rightarrow> lua) \<Rightarrow> lua" where
  "apply_result cj KEYS ARGV memo p cont =
     (if ARGV ! 1 = ''success''
      then cont memo (p\<lparr>pending := pending p - 1\<rparr>) (no_outcome\<lparr>successes_delta := 1\<rparr>)
      else if ARGV ! 1 = ''failure''
      then check_failed (KEYS ! 3) (ARGV ! 0) (\<lambda>new.
             cont memo p (no_outcome\<lparr>failures_delta := if new then 1 else 0, add_failed_job := new\<rparr>))
      else if ARGV ! 1 = ''death''
      then check_failed (KEYS ! 3) (ARGV ! 0) (\<lambda>new.
             fire_death cj (KEYS ! 0) memo (p\<lparr>pending := pending p - 1\<rparr>)
               (no_outcome\<lparr>failures_delta := if new then 1 else 0, add_failed_job := new\<rparr>) cont)
      else if ARGV ! 1 = ''invalidated''
      then cont memo (p\<lparr>pending := pending p - 1, invalidated := True\<rparr>) no_outcome
      else cont memo p no_outcome)"

definition fire_complete :: "cjson \<Rightarrow> string \<Rightarrow> json option \<Rightarrow> progress \<Rightarrow> outcome \<Rightarrow>
    (json option \<Rightarrow> progress \<Rightarrow> outcome \<Rightarrow> lua) \<Rightarrow> lua" where
  "fire_complete cj batch_key memo p oc cont =
     (let p = p\<lparr>pending := if pending p < 0 then 0 else pending p\<rparr>
      in if pending p = 0 \<and> \<not> complete_fired p
         then let p = p\<lparr>complete_fired := True\<rparr>
              in load_batch cj batch_key memo (\<lambda>metadata.
                   lindex metadata ''on_complete'' (\<lambda>on_complete.
                   (\<lambda>then_success. when_truthy on_complete (\<lambda>cfg. make_callback cfg oc then_success) (then_success oc))
                   (\<lambda>oc. if \<not> dead p \<and> \<not> invalidated p \<and> \<not> success_fired p
                         then lindex metadata ''on_success'' (\<lambda>on_success.
                                when_truthy on_success
                                  (\<lambda>cfg. make_callback cfg oc (\<lambda>oc. cont (Some metadata) (p\<lparr>success_fired := True\<rparr>) oc))
                                  (cont (Some metadata) p oc))
                         else cont (Some metadata) p oc)))
         else cont memo p oc)"

text \<open>The queue of the callbacks and the type checks before the first write.\<close>

definition callback_target :: "cjson \<Rightarrow> string list \<Rightarrow> string list \<Rightarrow> json option \<Rightarrow> (string \<Rightarrow> lua) \<Rightarrow> lua" where
  "callback_target cj KEYS ARGV memo cont =
     LCall (cHGET (KEYS ! 1) ''callback_queue'') (\<lambda>r.
       (\<lambda>found. case nonempty (reply_opt r) of
          Some q \<Rightarrow> found q
        | None \<Rightarrow> load_batch cj (KEYS ! 0) memo (\<lambda>metadata.
            lindex metadata ''callback_queue'' (\<lambda>q.
              found (case q of Some (JStr s) \<Rightarrow> if s \<noteq> [] then s else ''default'' | _ \<Rightarrow> ''default''))))
       (\<lambda>callback_queue.
          want ''batch callbacks key'' ''set'' (KEYS ! 5)
           (want ''queues key'' ''set'' (KEYS ! 6)
             (want ''queue key'' ''list'' (ARGV ! 4 @ callback_queue) (cont callback_queue)))))"

definition progress_updates :: "string \<Rightarrow> progress \<Rightarrow> (string \<times> string) list" where
  "progress_updates result_type p =
     (if result_type = ''success'' \<or> result_type = ''death'' \<or> result_type = ''invalidated''
      then [(''pending'', string_of_int (pending p))] else []) @
     (if dead p then [(''dead'', ''1'')] else []) @
     (if invalidated p then [(''invalidated'', ''1'')] else []) @
     (if death_fired p then [(''death_fired'', ''1'')] else []) @
     (if complete_fired p then [(''complete_fired'', ''1'')] else []) @
     (if success_fired p then [(''success_fired'', ''1'')] else [])"

text \<open>
  The options as a Lua table: the entries of an object, or the elements of an array under their
  positions.
\<close>

definition option_entries :: "json option \<Rightarrow> (string \<times> json) list" where
  "option_entries options = (case options of
      Some (JObj ms) \<Rightarrow> ms
    | Some (JArr xs) \<Rightarrow> zip (map (\<lambda>i. string_of_nat (i + 1)) [0..<length xs]) xs
    | _ \<Rightarrow> [])"

definition callback_args :: "json option \<Rightarrow> json \<Rightarrow> string option \<Rightarrow> json" where
  "callback_args options bid parent =
     JObj (filter (\<lambda>m. fst m \<noteq> ''batch_id'' \<and> fst m \<noteq> ''parent_id'') (option_entries options) @
           [(''batch_id'', bid)] @ (case parent of None \<Rightarrow> [] | Some q \<Rightarrow> [(''parent_id'', JStr q)]))"

definition callback_job :: "string \<Rightarrow> string \<Rightarrow> string \<Rightarrow> json \<Rightarrow> int \<Rightarrow> string \<Rightarrow> json \<Rightarrow> json" where
  "callback_job jid job_type queue args default_retry now bid =
     JObj [(''jid'', JStr jid), (''class'', JStr job_type), (''queue'', JStr queue), (''args'', args),
           (''retry'', JInt default_retry), (''retry_count'', JInt 0), (''created_at'', JStr now),
           (''enqueued_at'', JStr now), (''callback_bid'', bid)]"

fun make_callback_jobs :: "cjson \<Rightarrow> string \<Rightarrow> string \<Rightarrow> int \<Rightarrow> string \<Rightarrow> json \<Rightarrow> string \<Rightarrow> string option \<Rightarrow>
    (string \<times> json option) list \<Rightarrow> ((string \<times> string) list \<Rightarrow> lua) \<Rightarrow> lua" where
  "make_callback_jobs cj progress_key queue default_retry now bid bid_text parent [] cont = cont []"
| "make_callback_jobs cj progress_key queue default_retry now bid bid_text parent ((job_type, options) # cs) cont =
     LCall (cHINCRBY progress_key ''callback_seq'' 1) (\<lambda>seq.
       let jid = bid_text @ '':callback:'' @ string_of_int (reply_int seq)
       in case cj_encode cj (callback_job jid job_type queue (callback_args options bid parent) default_retry now bid) of
            None \<Rightarrow> LErr ''Cannot serialise''
          | Some text \<Rightarrow>
              make_callback_jobs cj progress_key queue default_retry now bid bid_text parent cs
                (\<lambda>jobs. cont ((jid, text) # jobs)))"

fun push_callback_jobs :: "string \<Rightarrow> string \<Rightarrow> (string \<times> string) list \<Rightarrow> lua \<Rightarrow> lua" where
  "push_callback_jobs callbacks_key queue_key [] cont = cont"
| "push_callback_jobs callbacks_key queue_key ((jid, text) # jobs) cont =
     LCall (cSADD callbacks_key [jid]) (\<lambda>_.
       LCall (cLPUSH queue_key [text]) (\<lambda>_. push_callback_jobs callbacks_key queue_key jobs cont))"

definition completed_now :: "progress \<Rightarrow> bool" where
  "completed_now p \<longleftrightarrow> pending p = 0 \<and> callbacks_pending p = 0 \<and> complete_fired p"

definition complete_result :: "progress \<Rightarrow> outcome \<Rightarrow> json" where
  "complete_result p oc =
     JObj ([(''pending'', JInt (pending p)), (''successes'', JInt (successes p + successes_delta oc)),
            (''failures'', JInt (failures p + failures_delta oc)), (''dead'', JBool (dead p)),
            (''invalidated'', JBool (invalidated p))] @
           (case parent_id p of None \<Rightarrow> [] | Some q \<Rightarrow> [(''parent_id'', JStr q)]) @
           [(''completed_now'', JBool (completed_now p)), (''callbacks_pending'', JInt (callbacks_pending p))])"

text \<open>The callback jobs; \<^verbatim>\<open>batch_id .. ":callback:"\<close> raises on a batch without an id.\<close>

definition write_callbacks :: "cjson \<Rightarrow> string list \<Rightarrow> string list \<Rightarrow> int \<Rightarrow> progress \<Rightarrow> outcome \<Rightarrow> json option \<Rightarrow> string \<Rightarrow> lua" where
  "write_callbacks cj KEYS ARGV default_retry p oc bid callback_queue =
     (if callback_list oc = [] then lencode cj (complete_result p oc)
      else case bid of
        None \<Rightarrow> LErr ''attempt to concatenate a nil value''
      | Some b \<Rightarrow>
          (case arg_text cj b of
             None \<Rightarrow> LErr ''attempt to concatenate a table value''
           | Some bid_text \<Rightarrow>
               make_callback_jobs cj (KEYS ! 1) callback_queue default_retry (ARGV ! 3) b bid_text (parent_id p)
                 (callback_list oc) (\<lambda>jobs.
                   LCall (cSADD (KEYS ! 6) [callback_queue]) (\<lambda>_.
                     push_callback_jobs (KEYS ! 5) (ARGV ! 4 @ callback_queue) jobs
                       (LCall (cEXPIRE (KEYS ! 5) 2592000) (\<lambda>_. lencode cj (complete_result p oc)))))))"

definition write_dead_batch :: "cjson \<Rightarrow> string list \<Rightarrow> outcome \<Rightarrow> json option \<Rightarrow> lua \<Rightarrow> lua" where
  "write_dead_batch cj KEYS oc bid cont =
     (if add_dead_batch oc
      then (case Option.bind bid (arg_text cj) of
              None \<Rightarrow> bad_argument
            | Some b \<Rightarrow> LCall (cSADD (KEYS ! 4) [b]) (\<lambda>_. cont))
      else cont)"

definition write_completion :: "cjson \<Rightarrow> string list \<Rightarrow> string list \<Rightarrow> int \<Rightarrow> bool \<Rightarrow> json option \<Rightarrow> progress \<Rightarrow> outcome \<Rightarrow> string \<Rightarrow> lua" where
  "write_completion cj KEYS ARGV default_retry remove_pending_job memo p oc callback_queue =
     lwhen (successes_delta oc \<noteq> 0) (cHINCRBY (KEYS ! 1) ''successes'' (successes_delta oc))
      (lwhen (failures_delta oc \<noteq> 0) (cHINCRBY (KEYS ! 1) ''failures'' (failures_delta oc))
       (lwhen (progress_updates (ARGV ! 1) p \<noteq> []) (cHSET (KEYS ! 1) (progress_updates (ARGV ! 1) p))
        (lwhen (callback_list oc \<noteq> []) (cHINCRBY (KEYS ! 1) ''callbacks_pending'' (int (length (callback_list oc))))
         (lwhen remove_pending_job (cSREM (KEYS ! 2) (ARGV ! 0))
          (lwhen (add_failed_job oc) (cSADD (KEYS ! 3) [ARGV ! 0])
           (lwhen (add_failed_job oc) (cEXPIRE (KEYS ! 3) 2592000)
            ((\<lambda>finish. case batch_id p of
                Some b \<Rightarrow> finish (Some (JStr b))
              | None \<Rightarrow> load_batch cj (KEYS ! 0) memo (\<lambda>metadata. lindex metadata ''id'' finish))
             (\<lambda>bid. write_dead_batch cj KEYS oc bid
                (write_callbacks cj KEYS ARGV default_retry p oc bid callback_queue)))))))))"

definition complete_member :: "cjson \<Rightarrow> string list \<Rightarrow> string list \<Rightarrow> int \<Rightarrow> bool \<Rightarrow> json option \<Rightarrow> progress \<Rightarrow> lua" where
  "complete_member cj KEYS ARGV default_retry remove_pending_job memo p =
     apply_result cj KEYS ARGV memo p (\<lambda>memo p oc.
       fire_complete cj (KEYS ! 0) memo p oc (\<lambda>memo p oc.
         (\<lambda>checked. if callback_list oc = [] then checked p []
                    else callback_target cj KEYS ARGV memo
                           (checked (p\<lparr>callbacks_pending := callbacks_pending p + int (length (callback_list oc))\<rparr>)))
         (\<lambda>p callback_queue.
            (\<lambda>cont. if add_dead_batch oc then want ''dead batches key'' ''set'' (KEYS ! 4) cont else cont)
            (write_completion cj KEYS ARGV default_retry remove_pending_job memo p oc callback_queue))))"

definition classify :: "cjson \<Rightarrow> string list \<Rightarrow> string list \<Rightarrow> int \<Rightarrow> json option \<Rightarrow> progress \<Rightarrow> lua" where
  "classify cj KEYS ARGV default_retry memo p =
     (if ARGV ! 1 = ''empty_success''
      then if pending p \<noteq> 0 then result_error ''batch_not_empty''
           else if complete_fired p then result_already_processed
           else complete_member cj KEYS ARGV default_retry False memo p
      else LCall (cSISMEMBER (KEYS ! 2) (ARGV ! 0)) (\<lambda>member.
             if reply_int member = 0 then result_already_processed
             else complete_member cj KEYS ARGV default_retry (ARGV ! 1 \<noteq> ''failure'') memo p))"

definition batch_complete :: "cjson \<Rightarrow> string list \<Rightarrow> string list \<Rightarrow> lua" where
  "batch_complete cj KEYS ARGV =
     (let default_retry = (case parse_int (ARGV ! 2) of Some i \<Rightarrow> i | None \<Rightarrow> 25)
      in with_batch (KEYS ! 0) (result_error ''batch_not_found'')
          (want ''batch jobs key'' ''set'' (KEYS ! 2)
            (with_progress_type (KEYS ! 1) (\<lambda>progress_type.
              (\<lambda>ready. if progress_type = ''none''
                        then init_progress cj (KEYS ! 0) (KEYS ! 1) (Some (KEYS ! 2))
                               (\<lambda>legacy. copy_ttl (KEYS ! 0) (KEYS ! 1) (ready (Some legacy)))
                        else ready None)
              (\<lambda>memo. LCall (cHMGET (KEYS ! 1) progress_fields) (\<lambda>values.
                 LCall (cSCARD (KEYS ! 2)) (\<lambda>members.
                   classify cj KEYS ARGV default_retry memo
                     (read_progress
                       (\<lambda>i. case values of RArr rs \<Rightarrow> if i < length rs then reply_opt (rs ! i) else None | _ \<Rightarrow> None)
                       (reply_int members)))))))))"

section \<open>Completing a callback\<close>

definition callback_result :: "bool \<Rightarrow> int \<Rightarrow> int \<Rightarrow> bool \<Rightarrow> string option \<Rightarrow> bool \<Rightarrow> bool \<Rightarrow> json" where
  "callback_result already cbs pend propagate parent is_dead is_invalidated =
     JObj ((if already then [(''already_processed'', JBool True)] else []) @
           [(''callbacks_pending'', JInt cbs), (''pending'', JInt pend), (''should_propagate'', JBool propagate)] @
           (case parent of None \<Rightarrow> [] | Some q \<Rightarrow> [(''parent_id'', JStr q)]) @
           [(''dead'', JBool is_dead), (''invalidated'', JBool is_invalidated)])"

definition callback_again :: "cjson \<Rightarrow> string \<Rightarrow> string option \<Rightarrow> lua" where
  "callback_again cj progress_key parent =
     number_field progress_key ''callbacks_pending'' (\<lambda>cbs.
     number_field progress_key ''pending'' (\<lambda>pend.
     bool_field progress_key ''dead'' (\<lambda>d.
     bool_field progress_key ''invalidated'' (\<lambda>i.
       lencode cj (callback_result True cbs pend False parent d i)))))"

definition callback_done :: "cjson \<Rightarrow> string \<Rightarrow> string option \<Rightarrow> lua" where
  "callback_done cj progress_key parent =
     LCall (cHINCRBY progress_key ''callbacks_pending'' (- 1)) (\<lambda>n.
       lwhen (reply_int n < 0) (cHSET progress_key [(''callbacks_pending'', ''0'')])
        (let cbs = (if reply_int n < 0 then 0 else reply_int n)
         in number_field progress_key ''pending'' (\<lambda>pend.
            (\<lambda>answer. if pend = 0 \<and> cbs = 0
                       then bool_field progress_key ''complete_fired'' answer else answer False)
            (\<lambda>propagate.
               bool_field progress_key ''dead'' (\<lambda>d.
               bool_field progress_key ''invalidated'' (\<lambda>i.
                 lencode cj (callback_result False cbs pend propagate parent d i)))))))"

definition batch_callback_complete :: "cjson \<Rightarrow> string list \<Rightarrow> string list \<Rightarrow> lua" where
  "batch_callback_complete cj KEYS ARGV =
     with_batch (KEYS ! 0) (result_error ''batch_not_found'')
      (with_progress_type (KEYS ! 1) (\<lambda>progress_type.
        want ''batch callbacks key'' ''set'' (KEYS ! 2)
         ((\<lambda>ready. if progress_type = ''none''
                    then init_progress cj (KEYS ! 0) (KEYS ! 1) None (\<lambda>_. copy_ttl (KEYS ! 0) (KEYS ! 1) ready)
                    else ready)
          (LCall (cHGET (KEYS ! 1) ''parent_id'') (\<lambda>r.
            LCall (cSREM (KEYS ! 2) (ARGV ! 0)) (\<lambda>removed.
              if reply_int removed = 0 then callback_again cj (KEYS ! 1) (nonempty (reply_opt r))
              else callback_done cj (KEYS ! 1) (nonempty (reply_opt r))))))))"

section \<open>Adding jobs\<close>

text \<open>An argument that was not passed is \<^verbatim>\<open>nil\<close>, which no command accepts.\<close>

definition with_arg :: "string list \<Rightarrow> nat \<Rightarrow> (string \<Rightarrow> lua) \<Rightarrow> lua" where
  "with_arg ARGV i cont = (if i < length ARGV then cont (ARGV ! i) else bad_argument)"

primrec check_job_queues :: "string list \<Rightarrow> nat \<Rightarrow> nat \<Rightarrow> lua \<Rightarrow> lua" where
  "check_job_queues ARGV base 0 cont = cont"
| "check_job_queues ARGV base (Suc n) cont =
     check_job_queues ARGV base n
       (with_arg ARGV (base + n * 3 + 1) (\<lambda>queue_key. want ''queue key'' ''list'' queue_key cont))"

primrec push_jobs :: "string \<Rightarrow> string list \<Rightarrow> nat \<Rightarrow> nat \<Rightarrow> lua \<Rightarrow> lua" where
  "push_jobs jobs_key ARGV base 0 cont = cont"
| "push_jobs jobs_key ARGV base (Suc n) cont =
     push_jobs jobs_key ARGV base n
       (with_arg ARGV (base + n * 3) (\<lambda>job_id.
         LCall (cSADD jobs_key [job_id]) (\<lambda>_.
           with_arg ARGV (base + n * 3 + 1) (\<lambda>queue_key.
             with_arg ARGV (base + n * 3 + 2) (\<lambda>job_data.
               LCall (cLPUSH queue_key [job_data]) (\<lambda>_. cont))))))"

definition batch_enqueue_jobs :: "cjson \<Rightarrow> string list \<Rightarrow> string list \<Rightarrow> lua" where
  "batch_enqueue_jobs cj KEYS ARGV =
     tonumber (ARGV ! 0) (\<lambda>num_jobs.
       want ''batch jobs key'' ''set'' (KEYS ! 0)
        (check_job_queues ARGV 2 (nat num_jobs)
          (push_jobs (KEYS ! 0) ARGV 2 (nat num_jobs)
            ((\<lambda>cont. case parse_int (ARGV ! 1) of
                Some ttl_seconds \<Rightarrow> lwhen (0 < ttl_seconds) (cEXPIRE (KEYS ! 0) ttl_seconds) cont
              | None \<Rightarrow> cont)
             (lencode cj (JObj [(''success'', JBool True)]))))))"

text \<open>The opening shared by the scripts that change the membership of a batch.\<close>

definition open_batch :: "cjson \<Rightarrow> string list \<Rightarrow> lua \<Rightarrow> (int \<Rightarrow> lua) \<Rightarrow> lua" where
  "open_batch cj KEYS not_found cont =
     with_batch (KEYS ! 0) not_found
      (with_progress_type (KEYS ! 1) (\<lambda>progress_type.
        want ''batch jobs key'' ''set'' (KEYS ! 2)
         (LCall (cPTTL (KEYS ! 0)) (\<lambda>batch_ttl.
           (\<lambda>ready. if progress_type = ''none''
                     then init_progress cj (KEYS ! 0) (KEYS ! 1) (Some (KEYS ! 2)) (\<lambda>_.
                            lwhen (0 < reply_int batch_ttl) (cPEXPIRE (KEYS ! 1) (reply_int batch_ttl)) ready)
                     else ready)
           (cont (reply_int batch_ttl))))))"

definition script_error :: "cjson \<Rightarrow> string \<Rightarrow> lua" where
  "script_error cj code = lencode cj (JObj [(''error'', JStr code)])"

definition batch_add_jobs :: "cjson \<Rightarrow> string list \<Rightarrow> string list \<Rightarrow> lua" where
  "batch_add_jobs cj KEYS ARGV =
     open_batch cj KEYS (script_error cj ''batch_not_found'') (\<lambda>batch_ttl.
       bool_field (KEYS ! 1) ''invalidated'' (\<lambda>inv.
         if inv then script_error cj ''batch_invalidated''
         else bool_field (KEYS ! 1) ''complete_fired'' (\<lambda>fired.
           if fired then script_error cj ''batch_complete''
           else tonumber (ARGV ! 0) (\<lambda>num_jobs.
             check_job_queues ARGV 1 (nat num_jobs)
              (push_jobs (KEYS ! 2) ARGV 1 (nat num_jobs)
                (lwhen (0 < batch_ttl) (cPEXPIRE (KEYS ! 2) batch_ttl)
                  (LCall (cHINCRBY (KEYS ! 1) ''total'' num_jobs) (\<lambda>total.
                    LCall (cHINCRBY (KEYS ! 1) ''pending'' num_jobs) (\<lambda>pend.
                      lencode cj (JObj [(''success'', JBool True), (''total'', JInt (reply_int total)),
                        (''pending'', JInt (reply_int pend))]))))))))))"

section \<open>Invalidating\<close>

definition batch_invalidate :: "cjson \<Rightarrow> string list \<Rightarrow> string list \<Rightarrow> lua" where
  "batch_invalidate cj KEYS ARGV =
     with_batch (KEYS ! 0) (script_error cj ''batch_not_found'')
      (with_progress_type (KEYS ! 1) (\<lambda>progress_type.
        (\<lambda>ready. if progress_type = ''none''
                  then init_progress cj (KEYS ! 0) (KEYS ! 1) None (\<lambda>_. copy_ttl (KEYS ! 0) (KEYS ! 1) ready)
                  else ready)
        (LCall (cHSET (KEYS ! 1) [(''invalidated'', ''1'')]) (\<lambda>_.
          number_field (KEYS ! 1) ''pending'' (\<lambda>pend.
            lencode cj (JObj [(''success'', JBool True), (''pending'', JInt pend)]))))))"

section \<open>Child batches\<close>

definition batch_add_child :: "cjson \<Rightarrow> string list \<Rightarrow> string list \<Rightarrow> lua" where
  "batch_add_child cj KEYS ARGV =
     open_batch cj KEYS (script_error cj ''batch_not_found'') (\<lambda>batch_ttl.
       bool_field (KEYS ! 1) ''invalidated'' (\<lambda>inv.
         if inv then script_error cj ''batch_invalidated''
         else LCall (cSADD (KEYS ! 2) [ARGV ! 0]) (\<lambda>added.
           if reply_int added = 0
           then lencode cj (JObj [(''success'', JBool True), (''already_exists'', JBool True)])
           else lwhen (0 < batch_ttl) (cPEXPIRE (KEYS ! 2) batch_ttl)
             (LCall (cHINCRBY (KEYS ! 1) ''total'' 1) (\<lambda>_.
               LCall (cHINCRBY (KEYS ! 1) ''pending'' 1) (\<lambda>_.
                 bool_field (KEYS ! 1) ''complete_fired'' (\<lambda>fired.
                   lwhen fired (cHSET (KEYS ! 1) [(''complete_fired'', ''0''), (''success_fired'', ''0'')])
                     (lencode cj (JObj [(''success'', JBool True)])))))))))"

definition batch_remove_child :: "cjson \<Rightarrow> string list \<Rightarrow> string list \<Rightarrow> lua" where
  "batch_remove_child cj KEYS ARGV =
     open_batch cj KEYS (lencode cj (JObj [(''success'', JBool True), (''parent_gone'', JBool True)])) (\<lambda>batch_ttl.
       LCall (cSREM (KEYS ! 2) (ARGV ! 0)) (\<lambda>removed.
         if reply_int removed = 0
         then lencode cj (JObj [(''success'', JBool True), (''not_found'', JBool True)])
         else LCall (cHINCRBY (KEYS ! 1) ''total'' (- 1)) (\<lambda>total.
           lwhen (reply_int total < 0) (cHSET (KEYS ! 1) [(''total'', ''0'')])
            (LCall (cHINCRBY (KEYS ! 1) ''pending'' (- 1)) (\<lambda>pend.
              lwhen (reply_int pend < 0) (cHSET (KEYS ! 1) [(''pending'', ''0'')])
               ((\<lambda>finish. if reply_int pend \<le> 0
                          then LCall (cHSET (KEYS ! 1) [(''complete_fired'', ''1'')]) (\<lambda>_.
                                 bool_field (KEYS ! 1) ''dead'' (\<lambda>d.
                                   (\<lambda>restore. if d then finish
                                               else bool_field (KEYS ! 1) ''invalidated'' restore)
                                   (\<lambda>i. lwhen (\<not> i) (cHSET (KEYS ! 1) [(''success_fired'', ''1'')]) finish)))
                          else finish)
                (lencode cj (JObj [(''success'', JBool True)]))))))))"

end
