(* ===== verification/Batch.thy ===== *)
theory Batch
  imports BatchScripts GoProg Keys
begin

text \<open>
  Batches on the Go side: \<^verbatim>\<open>batch.go\<close> (the status of a batch and the sets of batches),
  \<^verbatim>\<open>internal/batch\<close> (the protocol of the completion script), \<^verbatim>\<open>worker/batch_handle.go\<close> (adding jobs
  from inside a job) and the way a script's JSON reply is read, \<^verbatim>\<open>Script.RunJSON\<close>.

  A pipeline is its commands one after the other: each has its own reply and may be lost on its own,
  and other clients run between them.  A status object is the record \<open>BatchStatus\<close>; an operation
  that changes it returns it.  A loop that waits for the context is given fuel, and returns \<open>None\<close>
  when that runs out; \<open>join_returns\<close> shows that as much fuel as the environment has timer ticks is enough.
\<close>

section \<open>Reading replies\<close>

text \<open>\<^verbatim>\<open>json.Unmarshal\<close> into a struct whose members are decoded by \<open>field\<close>.\<close>

definition dec_struct :: "(string \<Rightarrow> json \<Rightarrow> 'a \<Rightarrow> 'a option) \<Rightarrow> json \<Rightarrow> 'a \<Rightarrow> 'a option" where
  "dec_struct field v x = (case v of
      JNull \<Rightarrow> Some x
    | JObj ms \<Rightarrow> foldl (\<lambda>acc m. Option.bind acc (field (fold_name (fst m)) (snd m))) (Some x) ms
    | _ \<Rightarrow> None)"

definition RunJSON :: "string \<Rightarrow> lua \<Rightarrow> (json \<Rightarrow> 'a \<Rightarrow> 'a option) \<Rightarrow> 'a \<Rightarrow> (goerr + 'a \<Rightarrow> ('l, 'b) go) \<Rightarrow> ('l, 'b) go" where
  "RunJSON name script decode target cont =
     Eval script (\<lambda>r. case r of
       Inl e \<Rightarrow> cont (Inl (Wrap (''script '' @ name) e))
     | Inr (RBulk s) \<Rightarrow>
         (case Option.bind (json_parse s) (\<lambda>v. decode v target) of
            Some x \<Rightarrow> cont (Inr x)
          | None \<Rightarrow> cont (Inl (Wrap (''script '' @ name @ '': failed to unmarshal result'') (Plain ''json: cannot unmarshal''))))
     | Inr (RStatus s) \<Rightarrow>
         (case Option.bind (json_parse s) (\<lambda>v. decode v target) of
            Some x \<Rightarrow> cont (Inr x)
          | None \<Rightarrow> cont (Inl (Wrap (''script '' @ name @ '': failed to unmarshal result'') (Plain ''json: cannot unmarshal''))))
     | Inr _ \<Rightarrow> cont (Inl (Plain (''script '' @ name @ '': expected string result''))))"

section \<open>The completion protocol\<close>

definition BatchTTL :: int where
  "BatchTTL = 30 * 24 * 3600 * 1000000000"

datatype Result = ResultSuccess | ResultFailure | ResultDeath | ResultInvalidated | ResultEmptySuccess

fun Result_string :: "Result \<Rightarrow> string" where
  "Result_string ResultSuccess = ''success''"
| "Result_string ResultFailure = ''failure''"
| "Result_string ResultDeath = ''death''"
| "Result_string ResultInvalidated = ''invalidated''"
| "Result_string ResultEmptySuccess = ''empty_success''"

definition CompletionKeys :: "keys \<Rightarrow> string \<Rightarrow> string list" where
  "CompletionKeys k batchID =
     [Batch k batchID, BatchProgress k batchID, BatchJobs k batchID, BatchFailed k batchID, DeadBatches k,
      BatchCallbacks k batchID, Queues k]"

text \<open>The clock is before the year 10000, where the format and the JSON form of a time agree.\<close>

definition format_time :: "int \<Rightarrow> string" where
  "format_time t = (case fmt_time t of Some s \<Rightarrow> s | None \<Rightarrow> [])"

definition CompletionArgs :: "keys \<Rightarrow> string \<Rightarrow> Result \<Rightarrow> int \<Rightarrow> string list" where
  "CompletionArgs k jobID result now =
     [jobID, Result_string result, string_of_int DefaultRetryCount, format_time now, Queue k []]"

record CompleteResult =
  cr_Pending :: int
  cr_Successes :: int
  cr_Failures :: int
  cr_Dead :: bool
  cr_Invalidated :: bool
  cr_ParentID :: string
  cr_CompletedNow :: bool
  cr_Error :: string
  cr_AlreadyProcessed :: bool

definition zero_CompleteResult :: CompleteResult where
  "zero_CompleteResult = \<lparr>cr_Pending = 0, cr_Successes = 0, cr_Failures = 0, cr_Dead = False, cr_Invalidated = False,
     cr_ParentID = [], cr_CompletedNow = False, cr_Error = [], cr_AlreadyProcessed = False\<rparr>"

definition dec_CompleteResult_field :: "string \<Rightarrow> json \<Rightarrow> CompleteResult \<Rightarrow> CompleteResult option" where
  "dec_CompleteResult_field k v r =
     (if k = ''pending'' then map_option (\<lambda>x. r\<lparr>cr_Pending := x\<rparr>) (dec_int v (cr_Pending r))
      else if k = ''successes'' then map_option (\<lambda>x. r\<lparr>cr_Successes := x\<rparr>) (dec_int v (cr_Successes r))
      else if k = ''failures'' then map_option (\<lambda>x. r\<lparr>cr_Failures := x\<rparr>) (dec_int v (cr_Failures r))
      else if k = ''dead'' then map_option (\<lambda>x. r\<lparr>cr_Dead := x\<rparr>) (dec_bool v (cr_Dead r))
      else if k = ''invalidated'' then map_option (\<lambda>x. r\<lparr>cr_Invalidated := x\<rparr>) (dec_bool v (cr_Invalidated r))
      else if k = ''parent_id'' then map_option (\<lambda>x. r\<lparr>cr_ParentID := x\<rparr>) (dec_str v (cr_ParentID r))
      else if k = ''completed_now'' then map_option (\<lambda>x. r\<lparr>cr_CompletedNow := x\<rparr>) (dec_bool v (cr_CompletedNow r))
      else if k = ''error'' then map_option (\<lambda>x. r\<lparr>cr_Error := x\<rparr>) (dec_str v (cr_Error r))
      else if k = ''already_processed''
        then map_option (\<lambda>x. r\<lparr>cr_AlreadyProcessed := x\<rparr>) (dec_bool v (cr_AlreadyProcessed r))
      else Some r)"

definition ParentResultType :: "CompleteResult \<Rightarrow> Result option" where
  "ParentResultType result =
     (if \<not> cr_CompletedNow result \<or> cr_ParentID result = [] then None
      else if cr_Dead result then Some ResultDeath
      else if cr_Invalidated result then Some ResultInvalidated
      else Some ResultSuccess)"

section \<open>The state of a batch\<close>

record CallbackInfo =
  JobType :: string
  Options :: "(string \<times> json) list option"

record BatchState =
  bt_ID :: string
  bt_Description :: string
  bt_ParentID :: string
  bt_Total :: int
  bt_Pending :: int
  bt_Failures :: int
  bt_Successes :: int
  bt_CallbacksPending :: int
  bt_CallbackSequence :: int
  bt_Dead :: bool
  bt_DeathFired :: bool
  bt_CompleteFired :: bool
  bt_SuccessFired :: bool
  bt_CreatedAt :: int
  bt_OnComplete :: "CallbackInfo option"
  bt_OnSuccess :: "CallbackInfo option"
  bt_OnDeath :: "CallbackInfo option"
  bt_CallbackQueue :: string
  bt_FailedJIDs :: "string list option"
  bt_Invalidated :: bool

definition zero_BatchState :: BatchState where
  "zero_BatchState = \<lparr>bt_ID = [], bt_Description = [], bt_ParentID = [], bt_Total = 0, bt_Pending = 0, bt_Failures = 0,
     bt_Successes = 0, bt_CallbacksPending = 0, bt_CallbackSequence = 0, bt_Dead = False, bt_DeathFired = False,
     bt_CompleteFired = False, bt_SuccessFired = False, bt_CreatedAt = zero_time, bt_OnComplete = None,
     bt_OnSuccess = None, bt_OnDeath = None, bt_CallbackQueue = [], bt_FailedJIDs = None, bt_Invalidated = False\<rparr>"

definition dec_callback_field :: "(string \<Rightarrow> string option) \<Rightarrow> string \<Rightarrow> json \<Rightarrow> CallbackInfo \<Rightarrow> CallbackInfo option" where
  "dec_callback_field fl k v c =
     (if k = ''job_type'' then map_option (\<lambda>x. c\<lparr>JobType := x\<rparr>) (dec_str v (JobType c))
      else if k = ''options'' then map_option (\<lambda>x. c\<lparr>Options := x\<rparr>) (dec_args fl v (Options c))
      else Some c)"

definition dec_callback :: "(string \<Rightarrow> string option) \<Rightarrow> json \<Rightarrow> CallbackInfo option \<Rightarrow> CallbackInfo option option" where
  "dec_callback fl v old = (if v = JNull then Some None
     else map_option Some (dec_struct (dec_callback_field fl) v
       (case old of None \<Rightarrow> \<lparr>JobType = [], Options = None\<rparr> | Some c \<Rightarrow> c)))"

fun dec_strings :: "json list \<Rightarrow> string list option" where
  "dec_strings [] = Some []"
| "dec_strings (v # vs) = (case (dec_str v [], dec_strings vs) of (Some s, Some ss) \<Rightarrow> Some (s # ss) | _ \<Rightarrow> None)"

definition dec_string_slice :: "json \<Rightarrow> string list option option" where
  "dec_string_slice v = (case v of JNull \<Rightarrow> Some None | JArr xs \<Rightarrow> map_option Some (dec_strings xs) | _ \<Rightarrow> None)"

definition dec_BatchState_field :: "(string \<Rightarrow> string option) \<Rightarrow> string \<Rightarrow> json \<Rightarrow> BatchState \<Rightarrow> BatchState option" where
  "dec_BatchState_field fl k v b =
     (if k = ''id'' then map_option (\<lambda>x. b\<lparr>bt_ID := x\<rparr>) (dec_str v (bt_ID b))
      else if k = ''description'' then map_option (\<lambda>x. b\<lparr>bt_Description := x\<rparr>) (dec_str v (bt_Description b))
      else if k = ''parent_id'' then map_option (\<lambda>x. b\<lparr>bt_ParentID := x\<rparr>) (dec_str v (bt_ParentID b))
      else if k = ''total'' then map_option (\<lambda>x. b\<lparr>bt_Total := x\<rparr>) (dec_int v (bt_Total b))
      else if k = ''pending'' then map_option (\<lambda>x. b\<lparr>bt_Pending := x\<rparr>) (dec_int v (bt_Pending b))
      else if k = ''failures'' then map_option (\<lambda>x. b\<lparr>bt_Failures := x\<rparr>) (dec_int v (bt_Failures b))
      else if k = ''successes'' then map_option (\<lambda>x. b\<lparr>bt_Successes := x\<rparr>) (dec_int v (bt_Successes b))
      else if k = ''callbacks_pending''
        then map_option (\<lambda>x. b\<lparr>bt_CallbacksPending := x\<rparr>) (dec_int v (bt_CallbacksPending b))
      else if k = ''callback_seq''
        then map_option (\<lambda>x. b\<lparr>bt_CallbackSequence := x\<rparr>) (dec_int v (bt_CallbackSequence b))
      else if k = ''dead'' then map_option (\<lambda>x. b\<lparr>bt_Dead := x\<rparr>) (dec_bool v (bt_Dead b))
      else if k = ''death_fired'' then map_option (\<lambda>x. b\<lparr>bt_DeathFired := x\<rparr>) (dec_bool v (bt_DeathFired b))
      else if k = ''complete_fired'' then map_option (\<lambda>x. b\<lparr>bt_CompleteFired := x\<rparr>) (dec_bool v (bt_CompleteFired b))
      else if k = ''success_fired'' then map_option (\<lambda>x. b\<lparr>bt_SuccessFired := x\<rparr>) (dec_bool v (bt_SuccessFired b))
      else if k = ''created_at'' then map_option (\<lambda>x. b\<lparr>bt_CreatedAt := x\<rparr>) (dec_time v (bt_CreatedAt b))
      else if k = ''on_complete'' then map_option (\<lambda>x. b\<lparr>bt_OnComplete := x\<rparr>) (dec_callback fl v (bt_OnComplete b))
      else if k = ''on_success'' then map_option (\<lambda>x. b\<lparr>bt_OnSuccess := x\<rparr>) (dec_callback fl v (bt_OnSuccess b))
      else if k = ''on_death'' then map_option (\<lambda>x. b\<lparr>bt_OnDeath := x\<rparr>) (dec_callback fl v (bt_OnDeath b))
      else if k = ''callback_queue'' then map_option (\<lambda>x. b\<lparr>bt_CallbackQueue := x\<rparr>) (dec_str v (bt_CallbackQueue b))
      else if k = ''failed_jids'' then map_option (\<lambda>x. b\<lparr>bt_FailedJIDs := x\<rparr>) (dec_string_slice v)
      else if k = ''invalidated'' then map_option (\<lambda>x. b\<lparr>bt_Invalidated := x\<rparr>) (dec_bool v (bt_Invalidated b))
      else Some b)"

definition decodeBatchState :: "(string \<Rightarrow> string option) \<Rightarrow> string \<Rightarrow> BatchState option" where
  "decodeBatchState fl s =
     Option.bind (json_parse s) (\<lambda>v. dec_struct (dec_BatchState_field fl) v zero_BatchState)"

text \<open>\<^verbatim>\<open>strconv.Atoi\<close>: an optional sign and digits, within the range of the type.\<close>

definition atoi :: "string \<Rightarrow> int option" where
  "atoi s = (case (case s of c # cs \<Rightarrow> if c = CHR ''+'' then map_option int (parse_nat cs) else parse_int s | [] \<Rightarrow> None) of
      Some i \<Rightarrow> if in_i64 i then Some i else None | None \<Rightarrow> None)"

definition progressInt :: "(string \<Rightarrow> string option) \<Rightarrow> string \<Rightarrow> int \<Rightarrow> int" where
  "progressInt m field fallback = (case m field of
      None \<Rightarrow> fallback
    | Some value \<Rightarrow> if value = [] then fallback else (case atoi value of Some n \<Rightarrow> n | None \<Rightarrow> fallback))"

definition progressBool :: "(string \<Rightarrow> string option) \<Rightarrow> string \<Rightarrow> bool \<Rightarrow> bool" where
  "progressBool m field fallback = (case m field of
      None \<Rightarrow> fallback
    | Some value \<Rightarrow> if value = [] then fallback else value = ''1'' \<or> value = ''true'')"

definition applyBatchProgress :: "BatchState \<Rightarrow> (string \<Rightarrow> string option) \<Rightarrow> BatchState" where
  "applyBatchProgress state m = state\<lparr>
     bt_Total := progressInt m ''total'' (bt_Total state),
     bt_Pending := progressInt m ''pending'' (bt_Pending state),
     bt_Failures := progressInt m ''failures'' (bt_Failures state),
     bt_Successes := progressInt m ''successes'' (bt_Successes state),
     bt_CallbacksPending := progressInt m ''callbacks_pending'' (bt_CallbacksPending state),
     bt_CallbackSequence := progressInt m ''callback_seq'' (bt_CallbackSequence state),
     bt_Dead := progressBool m ''dead'' (bt_Dead state),
     bt_DeathFired := progressBool m ''death_fired'' (bt_DeathFired state),
     bt_CompleteFired := progressBool m ''complete_fired'' (bt_CompleteFired state),
     bt_SuccessFired := progressBool m ''success_fired'' (bt_SuccessFired state),
     bt_Invalidated := progressBool m ''invalidated'' (bt_Invalidated state)\<rparr>"

section \<open>Status queries\<close>

record BatchStatus =
  bs_keys :: keys
  bs_bid :: string
  bs_state :: "BatchState option"

definition NewBatchStatus :: "string \<Rightarrow> string \<Rightarrow> BatchStatus" where
  "NewBatchStatus ns bid = \<lparr>bs_keys = keys_New ns, bs_bid = bid, bs_state = None\<rparr>"

text \<open>The map that \<^verbatim>\<open>HGETALL\<close> and the slice that \<^verbatim>\<open>SMEMBERS\<close> are returned as.\<close>

fun hash_pairs :: "rreply list \<Rightarrow> (string \<times> string) list" where
  "hash_pairs (RBulk f # RBulk v # rs) = (f, v) # hash_pairs rs"
| "hash_pairs _ = []"

definition hash_reply :: "rreply \<Rightarrow> (string \<times> string) list" where
  "hash_reply r = (case r of RArr rs \<Rightarrow> hash_pairs rs | _ \<Rightarrow> [])"

definition with_progress :: "(string \<times> string) list \<Rightarrow> BatchState \<Rightarrow> BatchState" where
  "with_progress pairs state = (if pairs = [] then state else applyBatchProgress state (map_of (rev pairs)))"

definition json_error :: goerr where
  "json_error = Plain ''json: cannot unmarshal''"

definition Refresh :: "(string \<Rightarrow> string option) \<Rightarrow> BatchStatus \<Rightarrow> ('l, BatchStatus \<times> goerr option) go" where
  "Refresh fl bs =
     Cmd (cGET (Batch (bs_keys bs) (bs_bid bs))) (\<lambda>stateCmd.
     Cmd (cHGETALL (BatchProgress (bs_keys bs) (bs_bid bs))) (\<lambda>progressCmd.
       case stateCmd of
         Inl e \<Rightarrow> Done (bs, Some (if is_nil e then BatchNotFoundError (bs_bid bs) else e))
       | Inr r \<Rightarrow>
           (case decodeBatchState fl (reply_str r) of
              None \<Rightarrow> Done (bs, Some json_error)
            | Some state \<Rightarrow>
                (case progressCmd of
                   Inl e \<Rightarrow> Done (bs, Some e)
                 | Inr p \<Rightarrow> Done (bs\<lparr>bs_state := Some (with_progress (hash_reply p) state)\<rparr>, None)))))"

definition RefreshFull :: "(string \<Rightarrow> string option) \<Rightarrow> BatchStatus \<Rightarrow> ('l, BatchStatus \<times> goerr option) go" where
  "RefreshFull fl bs =
     Cmd (cGET (Batch (bs_keys bs) (bs_bid bs))) (\<lambda>stateCmd.
     Cmd (cHGETALL (BatchProgress (bs_keys bs) (bs_bid bs))) (\<lambda>progressCmd.
     Cmd (cSMEMBERS (BatchFailed (bs_keys bs) (bs_bid bs))) (\<lambda>failedCmd.
       case stateCmd of
         Inl e \<Rightarrow> Done (bs, Some (if is_nil e then BatchNotFoundError (bs_bid bs) else e))
       | Inr r \<Rightarrow>
           (case failedCmd of
              Inl e \<Rightarrow> Done (bs, Some e)
            | Inr failed \<Rightarrow>
                (case progressCmd of
                   Inl e \<Rightarrow> Done (bs, Some e)
                 | Inr p \<Rightarrow>
                     (case decodeBatchState fl (reply_str r) of
                        None \<Rightarrow> Done (bs, Some json_error)
                      | Some state \<Rightarrow>
                          Done (bs\<lparr>bs_state := Some ((with_progress (hash_reply p) state)
                                     \<lparr>bt_FailedJIDs := Some (bulks failed)\<rparr>)\<rparr>, None)))))))"

definition state_or :: "'a \<Rightarrow> (BatchState \<Rightarrow> 'a) \<Rightarrow> BatchStatus \<Rightarrow> 'a" where
  "state_or dflt f bs = (case bs_state bs of None \<Rightarrow> dflt | Some s \<Rightarrow> f s)"

definition Total :: "BatchStatus \<Rightarrow> int" where
  "Total = state_or 0 bt_Total"

definition Pending :: "BatchStatus \<Rightarrow> int" where
  "Pending = state_or 0 bt_Pending"

definition Failures :: "BatchStatus \<Rightarrow> int" where
  "Failures = state_or 0 bt_Failures"

definition Successes :: "BatchStatus \<Rightarrow> int" where
  "Successes = state_or 0 bt_Successes"

definition Complete :: "BatchStatus \<Rightarrow> bool" where
  "Complete = state_or False (\<lambda>s. bt_Pending s = 0)"

definition DeadStatus :: "BatchStatus \<Rightarrow> bool" where
  "DeadStatus = state_or False bt_Dead"

definition FailedJIDs :: "BatchStatus \<Rightarrow> ('l, goerr + string list) go" where
  "FailedJIDs bs = (case Option.bind (bs_state bs) bt_FailedJIDs of
      Some jids \<Rightarrow> Done (Inr jids)
    | None \<Rightarrow> Cmd (cSMEMBERS (BatchFailed (bs_keys bs) (bs_bid bs))) (\<lambda>r.
        case r of Inl e \<Rightarrow> Done (Inl e) | Inr x \<Rightarrow> Done (Inr (bulks x))))"

definition defaultBatchJoinInterval :: int where
  "defaultBatchJoinInterval = 500 * 1000000"

primrec join_loop :: "nat \<Rightarrow> (string \<Rightarrow> string option) \<Rightarrow> BatchStatus \<Rightarrow> int \<Rightarrow> ('l, (BatchStatus \<times> goerr option) option) go" where
  "join_loop 0 fl bs interval = Done None"
| "join_loop (Suc n) fl bs interval =
     Wait interval (\<lambda>ticked.
       if \<not> ticked then Done (Some (bs, Some CtxErr))
       else go_bind (Refresh fl bs) (\<lambda>(bs, err).
         if err \<noteq> None then Done (Some (bs, err))
         else if Complete bs then Done (Some (bs, None))
         else join_loop n fl bs interval))"

definition join :: "nat \<Rightarrow> (string \<Rightarrow> string option) \<Rightarrow> BatchStatus \<Rightarrow> int \<Rightarrow> ('l, (BatchStatus \<times> goerr option) option) go" where
  "join n fl bs interval = join_loop n fl bs (if interval \<le> 0 then defaultBatchJoinInterval else interval)"

definition join_errors :: "goerr list \<Rightarrow> goerr option" where
  "join_errors es = (case es of [] \<Rightarrow> None | e # es \<Rightarrow> Some (foldl Joined e es))"

definition named_error :: "string \<Rightarrow> answer \<Rightarrow> goerr list" where
  "named_error what r = (case r of Inl e \<Rightarrow> [Wrap what e] | Inr _ \<Rightarrow> [])"

definition Delete :: "BatchStatus \<Rightarrow> ('l, goerr option) go" where
  "Delete bs =
     (let k = bs_keys bs; bid = bs_bid bs
      in Cmd (cSREM (Batches k) bid) (\<lambda>r1.
         Cmd (cSREM (DeadBatches k) bid) (\<lambda>r2.
         Cmd (cDEL [Batch k bid, BatchProgress k bid, BatchJobs k bid, BatchFailed k bid, BatchCallbacks k bid]) (\<lambda>r3.
           Done (join_errors
             (named_error (''remove batch '' @ bid @ '' from batches set'') r1 @
              named_error (''remove batch '' @ bid @ '' from dead batches set'') r2 @
              named_error (''delete batch '' @ bid @ '' data'') r3))))))"

section \<open>Sets of batches\<close>

definition loadBatchStatus :: "(string \<Rightarrow> string option) \<Rightarrow> keys \<Rightarrow> string \<Rightarrow> string \<Rightarrow>
    (goerr + BatchStatus option \<Rightarrow> ('l, 'a) go) \<Rightarrow> ('l, 'a) go" where
  "loadBatchStatus fl k setKey bid cont =
     go_bind (Refresh fl (NewBatchStatus (namespace k) bid)) (\<lambda>(st, err).
       case err of
         None \<Rightarrow> cont (Inr (Some st))
       | Some e \<Rightarrow>
           if find_error (\<lambda>e. case e of BatchNotFoundError b \<Rightarrow> Some b | _ \<Rightarrow> None) e \<noteq> None
           then Cmd (cSREM setKey bid) (\<lambda>_. cont (Inr None))
           else cont (Inl e))"

primrec each_batch :: "(string \<Rightarrow> string option) \<Rightarrow> keys \<Rightarrow> string \<Rightarrow> (BatchStatus \<Rightarrow> bool) \<Rightarrow>
    (BatchStatus \<Rightarrow> ('l, goerr option) go) \<Rightarrow> string list \<Rightarrow> ('l, goerr option) go" where
  "each_batch fl k setKey skip fn [] = Done None"
| "each_batch fl k setKey skip fn (bid # bids) =
     loadBatchStatus fl k setKey bid (\<lambda>r. case r of
       Inl e \<Rightarrow> Done (Some e)
     | Inr None \<Rightarrow> each_batch fl k setKey skip fn bids
     | Inr (Some st) \<Rightarrow>
         if skip st then each_batch fl k setKey skip fn bids
         else go_bind (fn st) (\<lambda>err.
                if err \<noteq> None then Done err else each_batch fl k setKey skip fn bids))"

definition BatchSet_Each :: "(string \<Rightarrow> string option) \<Rightarrow> keys \<Rightarrow> (BatchStatus \<Rightarrow> ('l, goerr option) go) \<Rightarrow> ('l, goerr option) go" where
  "BatchSet_Each fl k fn = Cmd (cSMEMBERS (Batches k)) (\<lambda>r. case r of
     Inl e \<Rightarrow> Done (Some e) | Inr bids \<Rightarrow> each_batch fl k (Batches k) Complete fn (bulks bids))"

definition DeadBatchSet_Each :: "(string \<Rightarrow> string option) \<Rightarrow> keys \<Rightarrow> (BatchStatus \<Rightarrow> ('l, goerr option) go) \<Rightarrow> ('l, goerr option) go" where
  "DeadBatchSet_Each fl k fn = Cmd (cSMEMBERS (DeadBatches k)) (\<lambda>r. case r of
     Inl e \<Rightarrow> Done (Some e) | Inr bids \<Rightarrow> each_batch fl k (DeadBatches k) (\<lambda>_. False) fn (bulks bids))"

definition set_size :: "string \<Rightarrow> ('l, goerr + int) go" where
  "set_size key = Cmd (cSCARD key) (\<lambda>r. case r of Inl e \<Rightarrow> Done (Inl e) | Inr x \<Rightarrow> Done (Inr (reply_int x)))"

definition BatchSet_Size :: "keys \<Rightarrow> ('l, goerr + int) go" where
  "BatchSet_Size k = set_size (Batches k)"

definition DeadBatchSet_Size :: "keys \<Rightarrow> ('l, goerr + int) go" where
  "DeadBatchSet_Size k = set_size (DeadBatches k)"

section \<open>Adding jobs from inside a job\<close>

record BatchHandle =
  bh_bid :: string
  bh_keys :: keys

record AddResult =
  ar_Error :: string
  ar_Success :: bool

definition dec_AddResult_field :: "string \<Rightarrow> json \<Rightarrow> AddResult \<Rightarrow> AddResult option" where
  "dec_AddResult_field k v r =
     (if k = ''error'' then map_option (\<lambda>x. r\<lparr>ar_Error := x\<rparr>) (dec_str v (ar_Error r))
      else if k = ''success'' then map_option (\<lambda>x. r\<lparr>ar_Success := x\<rparr>) (dec_bool v (ar_Success r))
      else Some r)"

primrec prepare_jobs :: "string \<Rightarrow> keys \<Rightarrow> job list \<Rightarrow> goerr + (string \<times> string \<times> string) list" where
  "prepare_jobs bid k [] = Inr []"
| "prepare_jobs bid k (job # jobs) =
     (case Marshal (job\<lparr>j_BatchID := bid\<rparr>) of
        None \<Rightarrow> Inl (Wrap (''failed to marshal job '' @ j_ID job) (Plain ''json: unsupported value''))
      | Some d \<Rightarrow> (case prepare_jobs bid k jobs of
          Inl e \<Rightarrow> Inl e | Inr ps \<Rightarrow> Inr ((j_ID job, Queue k (j_Queue job), d) # ps)))"

definition job_triples :: "(string \<times> string \<times> string) list \<Rightarrow> string list" where
  "job_triples ps = concat (map (\<lambda>(jid, q, d). [jid, q, d]) ps)"

definition add_jobs_error :: "string \<Rightarrow> string \<Rightarrow> goerr" where
  "add_jobs_error bid code =
     (if code = ''batch_not_found'' then BatchNotFoundError bid
      else if code = ''batch_invalidated'' then Plain (''batch '' @ bid @ '' has been invalidated'')
      else if code = ''batch_complete'' then Plain (''batch '' @ bid @ '' has already completed'')
      else Plain (''batch error: '' @ code))"

definition AddJobs :: "cjson \<Rightarrow> BatchHandle \<Rightarrow> job list \<Rightarrow> ('l, goerr option) go" where
  "AddJobs cj bh jobs =
     (if length jobs = 0 then Done None
      else (case prepare_jobs (bh_bid bh) (bh_keys bh) jobs of
        Inl e \<Rightarrow> Done (Some e)
      | Inr prepared \<Rightarrow>
          RunJSON ''batch_add_jobs''
            (batch_add_jobs cj [Batch (bh_keys bh) (bh_bid bh), BatchProgress (bh_keys bh) (bh_bid bh), BatchJobs (bh_keys bh) (bh_bid bh)]
               (string_of_int (int (length prepared)) # job_triples prepared))
            (dec_struct dec_AddResult_field) \<lparr>ar_Error = [], ar_Success = False\<rparr> (\<lambda>r. case r of
              Inl e \<Rightarrow> Done (Some (Wrap ''failed to add jobs to batch'' e))
            | Inr res \<Rightarrow> Done (if ar_Error res \<noteq> [] then Some (add_jobs_error (bh_bid bh) (ar_Error res)) else None))))"

definition Add :: "cjson \<Rightarrow> BatchHandle \<Rightarrow> string \<Rightarrow> (string \<times> json) list option \<Rightarrow> string list \<Rightarrow> ('l, goerr option) go" where
  "Add cj bh jobType args queue =
     Now (\<lambda>now. Uuid (\<lambda>jid.
       let job = NewJob now jid jobType args
       in AddJobs cj bh [if length queue > 0 then job\<lparr>j_Queue := queue ! 0\<rparr> else job]))"

definition Invalidate :: "cjson \<Rightarrow> BatchHandle \<Rightarrow> ('l, goerr option) go" where
  "Invalidate cj bh =
     RunJSON ''batch_invalidate''
       (batch_invalidate cj [Batch (bh_keys bh) (bh_bid bh), BatchProgress (bh_keys bh) (bh_bid bh)] [])
       (dec_struct dec_AddResult_field) \<lparr>ar_Error = [], ar_Success = False\<rparr> (\<lambda>r. case r of
         Inl e \<Rightarrow> Done (Some (Wrap ''failed to invalidate batch'' e))
       | Inr res \<Rightarrow>
           Done (if ar_Error res \<noteq> []
                 then Some (if ar_Error res = ''batch_not_found'' then BatchNotFoundError (bh_bid bh)
                            else Plain (''batch error: '' @ ar_Error res))
                 else None))"

definition Valid :: "(string \<Rightarrow> string option) \<Rightarrow> BatchHandle \<Rightarrow> ('l, bool \<times> goerr option) go" where
  "Valid fl bh =
     Cmd (cHGET (BatchProgress (bh_keys bh) (bh_bid bh)) ''invalidated'') (\<lambda>r. case r of
       Inr v \<Rightarrow> Done (reply_str v \<noteq> ''1'' \<and> reply_str v \<noteq> ''true'', None)
     | Inl e \<Rightarrow>
         if \<not> is_nil e then Done (False, Some e)
         else Cmd (cGET (Batch (bh_keys bh) (bh_bid bh))) (\<lambda>r. case r of
                Inl e \<Rightarrow> Done (False, if is_nil e then None else Some e)
              | Inr d \<Rightarrow> (case decodeBatchState fl (reply_str d) of
                    None \<Rightarrow> Done (False, Some json_error)
                  | Some state \<Rightarrow> Done (\<not> bt_Invalidated state, None))))"

definition ValidWithinBatch :: "(string \<Rightarrow> string option) \<Rightarrow> BatchHandle option \<Rightarrow> ('l, bool \<times> goerr option) go" where
  "ValidWithinBatch fl bh = (case bh of None \<Rightarrow> Done (True, None) | Some bh \<Rightarrow> Valid fl bh)"

section \<open>Waiting for a batch\<close>

lemma run_Refresh_waits:
  "run_go call (Refresh fl bs) w l s = (x, w', l', s') \<Longrightarrow> waits w' = waits w"
  by (auto simp: Refresh_def split: prod.splits sum.splits option.splits)

lemma join_returns:
  "length (waits w) < n \<Longrightarrow> fst (run_go call (join_loop n fl bs interval) w l s) \<noteq> None"
proof (induction n arbitrary: bs w l s)
  case (Suc n)
  show ?case
  proof (cases "waits w")
    case (Cons b ws)
    obtain x e w' l' s' where r: "run_go call (Refresh fl bs) (w\<lparr>waits := ws\<rparr>) l s = ((x, e), w', l', s')"
      by (metis surj_pair)
    then have "length (waits w') < n"
      using run_Refresh_waits [OF r] Suc.prems Cons by simp
    then show ?thesis
      using Cons r Suc.IH by (simp add: run_go_bind)
  qed simp
qed simp

end
