(* ===== verification/Encryption.thy ===== *)
theory Encryption
  imports Errors Job
begin

text \<open>
  Argument encryption, \<^verbatim>\<open>internal/encryption/encryption.go\<close>, and the base64 coding it uses.

  The cipher behind \<^verbatim>\<open>cipher.AEAD\<close> is a parameter, the record \<open>aead\<close>; what decryption relies on is
  that opening a sealed text under the same nonce gives the text back.  Texts are byte strings.
\<close>

section \<open>Base64\<close>

definition b64_alphabet :: string where
  "b64_alphabet = ''ABCDEFGHIJKLMNOPQRSTUVWXYZabcdefghijklmnopqrstuvwxyz0123456789+/''"

definition b64_char :: "nat \<Rightarrow> char" where
  "b64_char i = b64_alphabet ! (i mod 64)"

fun find_index :: "'a \<Rightarrow> 'a list \<Rightarrow> nat option" where
  "find_index x [] = None"
| "find_index x (y # ys) = (if x = y then Some 0 else map_option Suc (find_index x ys))"

definition b64_value :: "char \<Rightarrow> nat option" where
  "b64_value c = find_index c b64_alphabet"

fun b64_encode_bytes :: "nat list \<Rightarrow> string" where
  "b64_encode_bytes [] = []"
| "b64_encode_bytes [a] = [b64_char (a div 4), b64_char (a mod 4 * 16), CHR ''='', CHR ''='']"
| "b64_encode_bytes [a, b] =
     [b64_char (a div 4), b64_char (a mod 4 * 16 + b div 16), b64_char (b mod 16 * 4), CHR ''='']"
| "b64_encode_bytes (a # b # c # bs) =
     [b64_char (a div 4), b64_char (a mod 4 * 16 + b div 16), b64_char (b mod 16 * 4 + c div 64), b64_char (c mod 64)] @
     b64_encode_bytes bs"

text \<open>A group of four characters; only the last one may be padded.\<close>

fun b64_decode_bytes :: "string \<Rightarrow> nat list option" where
  "b64_decode_bytes [] = Some []"
| "b64_decode_bytes (w # x # y # z # cs) =
     (case (b64_value w, b64_value x) of
        (Some p, Some q) \<Rightarrow>
          if y = CHR ''='' then (if z = CHR ''='' \<and> cs = [] then Some [p * 4 + q div 16] else None)
          else (case b64_value y of
            None \<Rightarrow> None
          | Some r \<Rightarrow>
              if z = CHR ''='' then (if cs = [] then Some [p * 4 + q div 16, q mod 16 * 16 + r div 4] else None)
              else (case (b64_value z, b64_decode_bytes cs) of
                (Some s, Some bs) \<Rightarrow> Some ([p * 4 + q div 16, q mod 16 * 16 + r div 4, r mod 4 * 64 + s] @ bs)
              | _ \<Rightarrow> None))
      | _ \<Rightarrow> None)"
| "b64_decode_bytes _ = None"

definition EncodeToString :: "string \<Rightarrow> string" where
  "EncodeToString s = b64_encode_bytes (map of_char s)"

text \<open>The decoder skips line breaks.\<close>

definition DecodeString :: "string \<Rightarrow> string option" where
  "DecodeString s = map_option (map char_of) (b64_decode_bytes (filter (\<lambda>c. c \<notin> {CHR 0x0A, CHR 0x0D}) s))"

section \<open>The encryptor\<close>

record aead =
  NonceSize :: nat
  Seal :: "string \<Rightarrow> string \<Rightarrow> string"
  Open :: "string \<Rightarrow> string \<Rightarrow> string option"

type_synonym args = "(string \<times> json) list option"

text \<open>\<^verbatim>\<open>aes.NewCipher\<close> accepts keys of 16, 24 and 32 bytes; \<open>gcm\<close> is the cipher of a key.\<close>

definition encryption_New :: "(string \<Rightarrow> aead) \<Rightarrow> string \<Rightarrow> goerr + aead" where
  "encryption_New gcm key =
     (if length key \<in> {16, 24, 32} then Inr (gcm key)
      else Inl (Wrap ''create cipher'' (Plain (''crypto/aes: invalid key size '' @ string_of_nat (length key)))))"

definition args_json :: "args \<Rightarrow> json" where
  "args_json a = (case a of None \<Rightarrow> JNull | Some m \<Rightarrow> JObj (canon_obj m))"

text \<open>\<open>nonce\<close> is what the random source gave; a short read is an error.\<close>

definition Encrypt :: "aead \<Rightarrow> string \<Rightarrow> args \<Rightarrow> goerr + args" where
  "Encrypt e nonce a =
     (let plaintext = json_print (args_json a)
      in if length nonce \<noteq> NonceSize e then Inl (Wrap ''read nonce'' (Plain ''unexpected EOF''))
         else Inr (Some [(''_encrypted'', JStr (EncodeToString (nonce @ Seal e nonce plaintext)))]))"

definition ErrCiphertextTooShort :: goerr where
  "ErrCiphertextTooShort = Plain ''ciphertext too short''"

definition Decrypt :: "aead \<Rightarrow> (string \<Rightarrow> string option) \<Rightarrow> args \<Rightarrow> goerr + args" where
  "Decrypt e fl a = (case Option.bind a (\<lambda>m. map_of (rev m) ''_encrypted'') of
     Some (JStr encoded) \<Rightarrow>
       (case DecodeString encoded of
          None \<Rightarrow> Inl (Wrap ''decode ciphertext'' (Plain ''illegal base64 data''))
        | Some ciphertext \<Rightarrow>
            if length ciphertext < NonceSize e then Inl ErrCiphertextTooShort
            else (case Open e (take (NonceSize e) ciphertext) (drop (NonceSize e) ciphertext) of
              None \<Rightarrow> Inl (Wrap ''decrypt args'' (Plain ''cipher: message authentication failed''))
            | Some plaintext \<Rightarrow>
                (case Option.bind (json_parse plaintext) (\<lambda>v. dec_args fl v None) of
                   None \<Rightarrow> Inl (Wrap ''unmarshal args'' (Plain ''json: cannot unmarshal''))
                 | Some result \<Rightarrow> Inr result)))
   | _ \<Rightarrow> Inr a)"

section \<open>Round trips\<close>

lemma b64_value_char: "i < 64 \<Longrightarrow> b64_value (b64_char i) = Some i"
proof -
  have "\<forall>i\<in>set [0..<64]. b64_value (b64_char i) = Some i"
    by code_simp
  then show "i < 64 \<Longrightarrow> b64_value (b64_char i) = Some i"
    by simp
qed

lemma b64_char_plain: "b64_char i \<noteq> CHR ''=''" "b64_char i \<notin> {CHR 0x0A, CHR 0x0D}"
proof -
  have "\<forall>i\<in>set [0..<64]. b64_char i \<noteq> CHR ''='' \<and> b64_char i \<notin> {CHR 0x0A, CHR 0x0D}"
    by code_simp
  then have "b64_char (i mod 64) \<noteq> CHR ''='' \<and> b64_char (i mod 64) \<notin> {CHR 0x0A, CHR 0x0D}"
    by simp
  moreover have "b64_char (i mod 64) = b64_char i"
    by (simp add: b64_char_def)
  ultimately show "b64_char i \<noteq> CHR ''=''" "b64_char i \<notin> {CHR 0x0A, CHR 0x0D}"
    by simp_all
qed

lemma pack: "(y::nat) < n \<Longrightarrow> (x * n + y) div n = x" "(y::nat) < n \<Longrightarrow> (x * n + y) mod n = y"
  by simp_all

lemma byte_parts:
  assumes "(a::nat) < 256" "b < 256" "c < 256"
  shows "a div 4 < 64" "a mod 4 * 16 + b div 16 < 64" "b mod 16 * 4 + c div 64 < 64" "c mod 64 < 64"
    and "(a mod 4 * 16 + b div 16) div 16 = a mod 4" "(a mod 4 * 16 + b div 16) mod 16 = b div 16"
    and "(b mod 16 * 4 + c div 64) div 4 = b mod 16" "(b mod 16 * 4 + c div 64) mod 4 = c div 64"
proof -
  have d: "b div 16 < 16" "c div 64 < 4" "a mod 4 < 4" "b mod 16 < 16"
    using assms by simp_all
  show "a div 4 < 64" "a mod 4 * 16 + b div 16 < 64" "b mod 16 * 4 + c div 64 < 64" "c mod 64 < 64"
    using assms d by linarith+
  show "(a mod 4 * 16 + b div 16) div 16 = a mod 4" "(a mod 4 * 16 + b div 16) mod 16 = b div 16"
    "(b mod 16 * 4 + c div 64) div 4 = b mod 16" "(b mod 16 * 4 + c div 64) mod 4 = c div 64"
    using d by (simp_all only: pack)
qed

lemma b64_bytes_roundtrip: "\<forall>b\<in>set bs. b < 256 \<Longrightarrow> b64_decode_bytes (b64_encode_bytes bs) = Some bs"
proof (induction bs rule: b64_encode_bytes.induct)
  case (2 a)
  then show ?case
    using byte_parts [of a 0 0] by (simp add: b64_value_char)
next
  case (3 a b)
  define q r where "q = a mod 4 * 16 + b div 16" and "r = b mod 16 * 4"
  have "q < 64" "r < 64" "q div 16 = a mod 4" "q mod 16 = b div 16" "r div 4 = b mod 16" "a div 4 < 64"
    using byte_parts [of a b 0] 3 unfolding q_def r_def by (simp_all only: div_0 add_0_right list.set ball_simps zero_less_numeral simp_thms insert_iff empty_iff)
  then show ?case
    by (simp add: b64_value_char b64_char_plain flip: q_def r_def)
next
  case (4 a b c bs)
  define q r where "q = a mod 4 * 16 + b div 16" and "r = b mod 16 * 4 + c div 64"
  have "q < 64" "r < 64" "q div 16 = a mod 4" "q mod 16 = b div 16" "r div 4 = b mod 16" "r mod 4 = c div 64" "a div 4 < 64"
    unfolding q_def r_def by (rule byte_parts [of a b c]; use 4 in simp)+
  then show ?case
    using 4 by (simp add: b64_value_char b64_char_plain flip: q_def r_def)
qed simp

lemma b64_no_breaks: "filter (\<lambda>c. c \<notin> {CHR 0x0A, CHR 0x0D}) (b64_encode_bytes bs) = b64_encode_bytes bs"
  using b64_char_plain(2) by (induction bs rule: b64_encode_bytes.induct) simp_all

lemma base64_roundtrip: "DecodeString (EncodeToString s) = Some s"
proof -
  have "b64_decode_bytes (b64_encode_bytes (map of_char s)) = Some (map of_char s)"
    by (rule b64_bytes_roundtrip) auto
  then show ?thesis
    by (simp add: DecodeString_def EncodeToString_def b64_no_breaks comp_def del: insert_iff)
qed

lemma args_json_ok: "args_ok fl a \<Longrightarrow> json_ok (args_json a)"
  by (auto simp: args_json_def args_ok_def list_all_iff split: option.splits)

lemma decrypt_encrypt:
  assumes "\<And>p. Open e nonce (Seal e nonce p) = Some p" "args_ok fl a" "Encrypt e nonce a = Inr b"
  shows "Decrypt e fl b = Inr a"
proof -
  have n: "length nonce = NonceSize e"
    using assms(3) by (auto simp: Encrypt_def Let_def split: if_splits)
  then have b: "b = Some [(''_encrypted'', JStr (EncodeToString (nonce @ Seal e nonce (json_print (args_json a)))))]"
    using assms(3) by (simp add: Encrypt_def)
  have "Option.bind (json_parse (json_print (args_json a))) (\<lambda>v. dec_args fl v None) = Some a"
    using json_parse_print [OF args_json_ok [OF assms(2)]] dec_args_ok [OF assms(2)] by (simp add: args_json_def)
  then show ?thesis
    using n assms(1) unfolding b Decrypt_def by (simp add: base64_roundtrip)
qed

lemma decrypt_ok:
  assumes "floats fl" "args_ok fl a" "Decrypt e fl a = Inr b"
  shows "args_ok fl b"
  using assms dec_args_settles [OF assms(1)]
  by (auto simp: Decrypt_def args_ok_def [of fl None] split: option.splits json.splits if_splits bind_splits)

section \<open>Guarantees\<close>


text \<open>The witness's cipher appends the nonce as its tag.\<close>

definition tag_cipher :: aead where
  "tag_cipher = \<lparr>NonceSize = 2, Seal = (\<lambda>n p. p @ n),
     Open = (\<lambda>n c. if length n \<le> length c \<and> drop (length c - length n) c = n then Some (take (length c - length n) c) else None)\<rparr>"



end
