(* ===== verification/ScriptCache.thy ===== *)
theory ScriptCache
  imports GoProg QueueScripts
begin

text \<open>
  The script cache, \<^verbatim>\<open>internal/script/script.go\<close>: how a script is sent (by digest, or by source
  when the server does not know the digest), and how numeric replies are read.

  The three requests of go-redis' \<^verbatim>\<open>Scripter\<close> are the record \<open>scripter\<close>, a parameter of the model; the
  locale \<open>script_host\<close> states what Redis documents of them: a \<^verbatim>\<open>NOSCRIPT\<close> reply means that nothing ran.
  The result is that one call of \<^verbatim>\<open>Run\<close> runs the script at most once, and exactly once when it answers.
\<close>

section \<open>Running a script\<close>

record 's scripter =
  EvalSha :: "string \<Rightarrow> 's \<Rightarrow> answer \<times> 's"
  EvalSource :: "string \<Rightarrow> 's \<Rightarrow> answer \<times> 's"
  ScriptLoad :: "string \<Rightarrow> 's \<Rightarrow> (goerr + string) \<times> 's"

record script =
  Name :: string
  Source :: string
  sha :: string

definition script_New :: "string \<Rightarrow> string \<Rightarrow> script" where
  "script_New name source = \<lparr>Name = name, Source = source, sha = []\<rparr>"

fun contains :: "string \<Rightarrow> string \<Rightarrow> bool" where
  "contains needle [] = (needle = [])"
| "contains needle (c # cs) = (take (length needle) (c # cs) = needle \<or> contains needle cs)"

definition isNoScriptError :: "goerr \<Rightarrow> bool" where
  "isNoScriptError e = contains ''NOSCRIPT'' (Error e)"

text \<open>
  One attempt by digest: \<open>Some r\<close> is a value that \<^verbatim>\<open>Run\<close> returns, \<open>None\<close> that it goes on.
\<close>

definition by_digest :: "'s scripter \<Rightarrow> string \<Rightarrow> 's \<Rightarrow> answer option \<times> 's" where
  "by_digest c h s = (case EvalSha c h s of
      (Inr r, s) \<Rightarrow> (Some (Inr r), s)
    | (Inl e, s) \<Rightarrow> (if isNoScriptError e then None else Some (Inl e), s))"

definition by_source :: "'s scripter \<Rightarrow> script \<Rightarrow> 's \<Rightarrow> (answer \<times> script) \<times> 's" where
  "by_source c sc s = (case EvalSource c (Source sc) s of
      (Inl e, s) \<Rightarrow> ((Inl e, sc), s)
    | (Inr r, s) \<Rightarrow> (case ScriptLoad c (Source sc) s of
          (Inr h, s) \<Rightarrow> ((Inr r, sc\<lparr>sha := h\<rparr>), s)
        | (Inl _, s) \<Rightarrow> ((Inr r, sc), s)))"

text \<open>
  \<^verbatim>\<open>Run\<close>: \<open>seen\<close> is the digest read under the read lock.  Another goroutine may store a digest before
  this one takes the write lock, so \<open>sha sc\<close>, the digest read under it, may be another one.
\<close>

definition script_Run :: "'s scripter \<Rightarrow> string \<Rightarrow> script \<Rightarrow> 's \<Rightarrow> (answer \<times> script) \<times> 's" where
  "script_Run c seen sc s =
     (case (if seen \<noteq> [] then by_digest c seen s else (None, s)) of
        (Some r, s) \<Rightarrow> ((r, sc), s)
      | (None, s) \<Rightarrow>
          (case (if sha sc \<noteq> [] \<and> sha sc \<noteq> seen then by_digest c (sha sc) s else (None, s)) of
             (Some r, s) \<Rightarrow> ((r, sc), s)
           | (None, s) \<Rightarrow> by_source c sc s))"

definition script_Load :: "'s scripter \<Rightarrow> script \<Rightarrow> 's \<Rightarrow> (goerr option \<times> script) \<times> 's" where
  "script_Load c sc s = (case ScriptLoad c (Source sc) s of
      (Inl e, s) \<Rightarrow> ((Some e, sc), s)
    | (Inr h, s) \<Rightarrow> ((None, sc\<lparr>sha := h\<rparr>), s))"

section \<open>Numeric replies\<close>

text \<open>The replies of this client never are a \<^verbatim>\<open>float64\<close>, the second numeric type \<^verbatim>\<open>Int\<close> accepts.\<close>

definition reply_type :: "rreply \<Rightarrow> string" where
  "reply_type r = (case r of
      RInt _ \<Rightarrow> ''int64'' | RBulk _ \<Rightarrow> ''string'' | RStatus _ \<Rightarrow> ''string'' | RArr _ \<Rightarrow> ''[]interface {}''
    | _ \<Rightarrow> ''<nil>'')"

definition script_Int :: "rreply \<Rightarrow> goerr + int" where
  "script_Int r = (case r of RInt n \<Rightarrow> Inr n | _ \<Rightarrow> Inl (Plain (''expected numeric reply, got '' @ reply_type r)))"

fun Ints_from :: "nat \<Rightarrow> rreply list \<Rightarrow> goerr + int list" where
  "Ints_from i [] = Inr []"
| "Ints_from i (v # vs) = (case script_Int v of
      Inl e \<Rightarrow> Inl (Wrap (''element '' @ string_of_nat i) e)
    | Inr x \<Rightarrow> (case Ints_from (Suc i) vs of Inl e \<Rightarrow> Inl e | Inr xs \<Rightarrow> Inr (x # xs)))"

definition script_Ints :: "rreply \<Rightarrow> nat \<Rightarrow> goerr + int list" where
  "script_Ints r n = (case r of
      RArr vs \<Rightarrow>
        if length vs < n
        then Inl (Plain (''expected at least '' @ string_of_nat n @ '' elements, got '' @ string_of_nat (length vs)))
        else Ints_from 0 vs
    | _ \<Rightarrow> Inl (Plain (''expected array reply, got '' @ reply_type r)))"

section \<open>One call runs the script at most once\<close>

text \<open>
  What a \<^verbatim>\<open>Scripter\<close> promises, where \<open>runs\<close> counts the executions of scripts on the server: an answer is
  the answer of one execution, a \<^verbatim>\<open>NOSCRIPT\<close> error means that there was none, and any other error leaves
  open whether there was one.  Loading a script does not run it.
\<close>

locale script_host =
  fixes c :: "'s scripter" and runs :: "'s \<Rightarrow> nat"
  assumes sha_answer: "EvalSha c h s = (Inr r, s') \<Longrightarrow> runs s' = Suc (runs s)"
    and sha_unknown: "EvalSha c h s = (Inl e, s') \<Longrightarrow> isNoScriptError e \<Longrightarrow> runs s' = runs s"
    and sha_error: "EvalSha c h s = (Inl e, s') \<Longrightarrow> runs s \<le> runs s' \<and> runs s' \<le> Suc (runs s)"
    and source_answer: "EvalSource c src s = (Inr r, s') \<Longrightarrow> runs s' = Suc (runs s)"
    and source_error: "EvalSource c src s = (Inl e, s') \<Longrightarrow> runs s \<le> runs s' \<and> runs s' \<le> Suc (runs s)"
    and load: "ScriptLoad c src s = (x, s') \<Longrightarrow> runs s' = runs s"
begin

lemma by_digest_runs:
  assumes "by_digest c h s = (x, s')"
  shows "case x of None \<Rightarrow> runs s' = runs s | Some (Inr _) \<Rightarrow> runs s' = Suc (runs s)
    | Some (Inl _) \<Rightarrow> runs s \<le> runs s' \<and> runs s' \<le> Suc (runs s)"
  using assms sha_answer sha_unknown sha_error
  by (auto simp: by_digest_def split: prod.splits sum.splits if_splits)

lemma by_source_runs:
  assumes "by_source c sc s = ((x, sc'), s')"
  shows "runs s \<le> runs s' \<and> runs s' \<le> Suc (runs s) \<and> (\<forall>r. x = Inr r \<longrightarrow> runs s' = Suc (runs s))"
  using assms load
  by (fastforce simp: by_source_def split: prod.splits sum.splits dest: source_answer source_error)

lemma Run_runs:
  assumes "script_Run c seen sc s = ((x, sc'), s')"
  shows "runs s \<le> runs s' \<and> runs s' \<le> Suc (runs s) \<and> (\<forall>r. x = Inr r \<longrightarrow> runs s' = Suc (runs s))"
proof -
  obtain a s1 where a: "(if seen \<noteq> [] then by_digest c seen s else (None, s)) = (a, s1)"
    by fastforce
  obtain b s2 where b: "(if sha sc \<noteq> [] \<and> sha sc \<noteq> seen then by_digest c (sha sc) s1 else (None, s1)) = (b, s2)"
    by fastforce
  have a_runs: "case a of None \<Rightarrow> runs s1 = runs s | Some (Inr _) \<Rightarrow> runs s1 = Suc (runs s)
      | Some (Inl _) \<Rightarrow> runs s \<le> runs s1 \<and> runs s1 \<le> Suc (runs s)"
    using a by_digest_runs by (fastforce split: if_splits)
  have b_runs: "case b of None \<Rightarrow> runs s2 = runs s1 | Some (Inr _) \<Rightarrow> runs s2 = Suc (runs s1)
      | Some (Inl _) \<Rightarrow> runs s1 \<le> runs s2 \<and> runs s2 \<le> Suc (runs s1)"
    using b by_digest_runs by (fastforce split: if_splits)
  show ?thesis
    using assms a_runs b_runs a b by_source_runs [of sc s2 x sc' s']
    by (auto simp: script_Run_def split: option.splits sum.splits)
qed

end

text \<open>
  A server over the reference database: it knows the sources it was given, under a digest of its own
  choice, and runs the script a source stands for.
\<close>

definition caching_server :: "(string \<Rightarrow> string) \<Rightarrow> (string \<Rightarrow> lua) \<Rightarrow> (db \<times> string list \<times> nat) scripter" where
  "caching_server digest prog =
     (let run = (\<lambda>src (d, known, n). (case run_lua exec (prog src) d of (r, d') \<Rightarrow> (go_result r, d', src # known, Suc n)))
      in \<lparr>EvalSha = (\<lambda>h s. (case find (\<lambda>src. digest src = h) (fst (snd s)) of
             None \<Rightarrow> (Inl (RedisErr ''NOSCRIPT No matching script. Please use EVAL.''), s) | Some src \<Rightarrow> run src s)),
          EvalSource = run,
          ScriptLoad = (\<lambda>src (d, known, n). (Inr (digest src), d, src # known, n))\<rparr>)"

text \<open>A script none of whose own errors reads like \<^verbatim>\<open>NOSCRIPT\<close>, and Redis's errors, which do not either.\<close>

primrec quiet :: "lua \<Rightarrow> bool" where
  "quiet (LRet r) = (\<forall>e. r = RErr e \<longrightarrow> \<not> contains ''NOSCRIPT'' e)"
| "quiet (LErr e) = (\<not> contains ''NOSCRIPT'' e)"
| "quiet (LCall c f) = (\<forall>r. (\<forall>e. r \<noteq> RErr e) \<longrightarrow> quiet (f r))"

lemma exec_errors: "exec c d = (RErr e, d') \<Longrightarrow> \<not> contains ''NOSCRIPT'' e"
proof -
  have texts: "\<not> contains ''NOSCRIPT'' ''WRONGTYPE Operation against a key holding the wrong kind of value''"
    "\<not> contains ''NOSCRIPT'' ''ERR value is not an integer or out of range''"
    "\<not> contains ''NOSCRIPT'' ''ERR invalid expire time''"
    "\<not> contains ''NOSCRIPT'' ''ERR increment or decrement would overflow''"
    "\<not> contains ''NOSCRIPT'' ''ERR no such key''" "\<not> contains ''NOSCRIPT'' ''ERR index out of range''"
    by code_simp+
  assume "exec c d = (RErr e, d')"
  then show ?thesis
    by (cases c)
       (auto simp: texts wrongtype_def not_integer_def bad_expire_def overflow_error_def with_str_def with_list_def with_set_def
          with_zset_def with_hash_def expire_in_def incr_by_def add_counter_def bulk_def Let_def simp del: contains.simps
          split: option.splits rval.splits list.splits if_splits)
qed

lemma quiet_run: "quiet p \<Longrightarrow> run_lua exec p d = (r, d') \<Longrightarrow> go_result r = Inl e \<Longrightarrow> \<not> isNoScriptError e"
proof (induction p arbitrary: d)
  case (LCall c f)
  obtain x d1 where c: "exec c d = (x, d1)"
    by fastforce
  show ?case
  proof (cases "\<exists>m. x = RErr m")
    case True
    then show ?thesis
      using LCall.prems c exec_errors by (auto simp: go_result_def isNoScriptError_def)
  next
    case False
    then have "run_lua exec (f x) d1 = (r, d')"
      using LCall.prems(2) c by (cases x) auto
    then show ?thesis
      using LCall.IH [OF rangeI] LCall.prems(1,3) False by auto
  qed
next
  case (LRet r)
  have "\<not> contains ''NOSCRIPT'' ''redis: nil''"
    by code_simp
  then show ?case
    using LRet by (cases r) (auto simp: go_result_def go_reply_def isNoScriptError_def)
qed (auto simp: go_result_def isNoScriptError_def)

locale known_scripts =
  fixes digest :: "string \<Rightarrow> string" and prog :: "string \<Rightarrow> lua"
  assumes quiet: "quiet (prog src)"

sublocale known_scripts \<subseteq> script_host "caching_server digest prog" "\<lambda>s. snd (snd s)"
  using quiet quiet_run
  by unfold_locales (fastforce simp: caching_server_def Let_def split: option.splits prod.splits)+

text \<open>The script that releases a sequential queue, on the caching server.\<close>

interpretation releases: known_scripts digest "\<lambda>_. release_sequential_lock [q] [owner]" for digest q owner
  by unfold_locales (auto simp: release_sequential_lock_def holds_string_def)



end
