(* ===== verification/Periodic.thy ===== *)
theory Periodic
  imports Fetcher ScriptCache Batch
begin

text \<open>
  Periodic jobs, \<^verbatim>\<open>src/periodic/periodic.go\<close>: the registered jobs, the loop that claims the slot of a
  job's minute and enqueues the job, and the life cycle of that loop's goroutine.

  The cron library is a parameter: \<open>parse\<close> reads an expression, and a schedule is the function
  \<^verbatim>\<open>Next\<close>, the first activation after a time.  Times are nanoseconds since the epoch, a whole number of
  minutes after the zero time that \<^verbatim>\<open>Truncate\<close> counts from.
\<close>

section \<open>Jobs and schedulers\<close>

definition periodicSlotTTL :: int where
  "periodicSlotTTL = 3600 * Second"

definition Minute :: int where
  "Minute = 60 * Second"

type_synonym schedule = "int \<Rightarrow> int"

record periodic_Job =
  p_Name :: string
  p_Schedule :: string
  p_JobType :: string
  p_Args :: "(string \<times> json) list option"
  p_Queue :: string
  p_Retry :: int
  p_schedule :: schedule

record Scheduler =
  sc_keys :: keys
  sc_jobs :: "periodic_Job list"
  sc_interval :: int

definition periodic_WithQueue :: "string \<Rightarrow> periodic_Job \<Rightarrow> periodic_Job" where
  "periodic_WithQueue queue j = j\<lparr>p_Queue := queue\<rparr>"

definition WithPollInterval :: "int \<Rightarrow> Scheduler \<Rightarrow> Scheduler" where
  "WithPollInterval d s = s\<lparr>sc_interval := d\<rparr>"

definition periodic_WithRetry :: "int \<Rightarrow> periodic_Job \<Rightarrow> periodic_Job" where
  "periodic_WithRetry n j = j\<lparr>p_Retry := n\<rparr>"

definition WithArgs :: "(string \<times> json) list option \<Rightarrow> periodic_Job \<Rightarrow> periodic_Job" where
  "WithArgs args j = j\<lparr>p_Args := args\<rparr>"

definition NewScheduler :: "keys \<Rightarrow> (Scheduler \<Rightarrow> Scheduler) list \<Rightarrow> Scheduler" where
  "NewScheduler k opts =
     (let s = fold (\<lambda>opt s. opt s) opts
            \<lparr>sc_keys = k, sc_jobs = [], sc_interval = PeriodicPollInterval DefaultWorkerSettings\<rparr>
      in if sc_interval s \<le> 0 then s\<lparr>sc_interval := PeriodicPollInterval DefaultWorkerSettings\<rparr> else s)"

definition scheduler_Register :: "(string \<Rightarrow> goerr + schedule) \<Rightarrow> string \<Rightarrow> string \<Rightarrow>
    (periodic_Job \<Rightarrow> periodic_Job) list \<Rightarrow> Scheduler \<Rightarrow> goerr + Scheduler" where
  "scheduler_Register parse cronExpr jobType opts s = (case parse cronExpr of
     Inl e \<Rightarrow> Inl (Wrap (''invalid cron expression '' @ [CHR 0x22] @ cronExpr @ [CHR 0x22]) e)
   | Inr schedule \<Rightarrow>
       Inr (s\<lparr>sc_jobs := sc_jobs s @
         [fold (\<lambda>opt j. opt j) opts
            \<lparr>p_Name = jobType, p_Schedule = cronExpr, p_JobType = jobType, p_Args = None, p_Queue = DefaultQueueName,
             p_Retry = DefaultRetryCount, p_schedule = schedule\<rparr>]\<rparr>))"

section \<open>Claiming a slot and enqueueing\<close>

definition Truncate :: "int \<Rightarrow> int \<Rightarrow> int" where
  "Truncate t d = t - (t mod d)"

definition shouldEnqueue :: "int \<Rightarrow> periodic_Job \<Rightarrow> bool" where
  "shouldEnqueue now job =
     (let currentMinute = Truncate now Minute
      in p_schedule job (currentMinute - Second) = currentMinute)"

definition periodicSlotKey :: "Scheduler \<Rightarrow> periodic_Job \<Rightarrow> int \<Rightarrow> string" where
  "periodicSlotKey s job now = PeriodicLock (sc_keys s) (p_Name job) @ '':'' @ string_of_int (Unix (Truncate now Minute))"

definition claimSlot :: "Scheduler \<Rightarrow> periodic_Job \<Rightarrow> int \<Rightarrow> ('l, bool) go" where
  "claimSlot s job now = Cmd (cSET_NX_EX (periodicSlotKey s job now) ''1'' (periodicSlotTTL div Second)) (\<lambda>r.
     Done (case r of Inl _ \<Rightarrow> False | Inr v \<Rightarrow> v = RStatus ''OK''))"

definition marshalJob :: "periodic_Job \<Rightarrow> (goerr + string \<Rightarrow> ('l, 'a) go) \<Rightarrow> ('l, 'a) go" where
  "marshalJob job cont = Now (\<lambda>now. Uuid (\<lambda>uuid.
     cont (case Marshal ((NewJob now uuid (p_JobType job) (p_Args job))\<lparr>j_Queue := p_Queue job, j_Retry := p_Retry job\<rparr>) of
       None \<Rightarrow> Inl (Wrap (''marshal periodic job '' @ p_Name job) marshal_error) | Some d \<Rightarrow> Inr d)))"

definition claimAndEnqueue :: "Scheduler \<Rightarrow> periodic_Job \<Rightarrow> int \<Rightarrow> ('l, goerr + bool) go" where
  "claimAndEnqueue s job now = marshalJob job (\<lambda>r. case r of
     Inl e \<Rightarrow> Done (Inl e)
   | Inr d \<Rightarrow>
       Eval (periodic_enqueue [periodicSlotKey s job now, Queues (sc_keys s), Queue (sc_keys s) (p_Queue job)]
           [''1'', string_of_int (periodicSlotTTL div Second), p_Queue job, d]) (\<lambda>r. case r of
         Inl e \<Rightarrow> Done (Inl (Wrap (''claim and enqueue periodic job '' @ p_Name job) e))
       | Inr x \<Rightarrow> (case script_Int x of
           Inl e \<Rightarrow> Done (Inl (Wrap ''decode periodic enqueue result'' e))
         | Inr enqueued \<Rightarrow> Done (Inr (enqueued = 1)))))"

text \<open>The history of a job: its entries are one-member documents; one that cannot be encoded is empty.\<close>

definition historyKey :: "Scheduler \<Rightarrow> string \<Rightarrow> string" where
  "historyKey s name = PeriodicLock (sc_keys s) name @ '':history''"

definition HistoryEntry_text :: "int \<Rightarrow> string" where
  "HistoryEntry_text t = (case time_member ''enqueued_at'' t of None \<Rightarrow> [] | Some ms \<Rightarrow> json_print (JObj ms))"

definition dec_HistoryEntry_field :: "string \<Rightarrow> json \<Rightarrow> int \<Rightarrow> int option" where
  "dec_HistoryEntry_field k v t = (if k = ''enqueued_at'' then dec_time v t else Some t)"

definition recordHistory :: "Scheduler \<Rightarrow> periodic_Job \<Rightarrow> ('l, unit) go" where
  "recordHistory s job = Now (\<lambda>now.
     go_bind (pipeline
         [cLPUSH (historyKey s (p_Name job)) [HistoryEntry_text now],
          cLTRIM_TO (historyKey s (p_Name job)) 100,
          cEXPIRE (historyKey s (p_Name job)) (7 * 24 * 3600)])
       (\<lambda>_. Done ()))"

definition enqueueJob :: "Scheduler \<Rightarrow> periodic_Job \<Rightarrow> ('l, goerr option) go" where
  "enqueueJob s job = marshalJob job (\<lambda>r. case r of
     Inl e \<Rightarrow> Done (Some e)
   | Inr d \<Rightarrow>
       Cmd (cSADD (Queues (sc_keys s)) [p_Queue job]) (\<lambda>r. case r of
         Inl e \<Rightarrow> Done (Some (Wrap (''add queue '' @ [CHR 0x22] @ p_Queue job @ [CHR 0x22] @ '' to set'') e))
       | Inr _ \<Rightarrow>
           Cmd (cLPUSH (Queue (sc_keys s) (p_Queue job)) [d]) (\<lambda>r. case r of
             Inl e \<Rightarrow> Done (Some (Wrap (''enqueue periodic job '' @ p_Name job) e))
           | Inr _ \<Rightarrow> go_bind (recordHistory s job) (\<lambda>_. Done None))))"

primrec check_jobs :: "Scheduler \<Rightarrow> int \<Rightarrow> periodic_Job list \<Rightarrow> ('l, unit) go" where
  "check_jobs s now [] = Done ()"
| "check_jobs s now (job # jobs) =
     (if shouldEnqueue now job
      then go_bind (claimAndEnqueue s job now) (\<lambda>r. case r of
             Inl _ \<Rightarrow> check_jobs s now jobs
           | Inr enqueued \<Rightarrow>
               if enqueued then go_bind (recordHistory s job) (\<lambda>_. check_jobs s now jobs) else check_jobs s now jobs)
      else check_jobs s now jobs)"

definition checkAndEnqueue :: "Scheduler \<Rightarrow> ('l, unit) go" where
  "checkAndEnqueue s = Now (\<lambda>now. check_jobs s now (sc_jobs s))"

text \<open>The loop, with fuel for its ticks; the result says whether it ended.\<close>

primrec run_ticks :: "nat \<Rightarrow> Scheduler \<Rightarrow> ('l, bool) go" where
  "run_ticks 0 s = Done False"
| "run_ticks (Suc n) s = Wait (sc_interval s) (\<lambda>ticked.
     if \<not> ticked then Done True else go_bind (checkAndEnqueue s) (\<lambda>_. run_ticks n s))"

definition periodic_run :: "nat \<Rightarrow> Scheduler \<Rightarrow> ('l, bool) go" where
  "periodic_run n s = go_bind (checkAndEnqueue s) (\<lambda>_. run_ticks n s)"

definition Jobs :: "Scheduler \<Rightarrow> periodic_Job list" where
  "Jobs s = sc_jobs s"

definition History :: "Scheduler \<Rightarrow> string \<Rightarrow> ('l, goerr + int list) go" where
  "History s jobName = Cmd (cLRANGE_ALL (historyKey s jobName)) (\<lambda>r. Done (case r of
     Inl e \<Rightarrow> Inl e
   | Inr entries \<Rightarrow> Inr (List.map_filter
       (\<lambda>entry. Option.bind (json_parse entry) (\<lambda>v. dec_struct dec_HistoryEntry_field v zero_time)) (bulks entries))))"

section \<open>The life cycle\<close>

text \<open>
  The state under the scheduler's mutex.  Each start makes a pair of channels, numbered by \<open>gen\<close>; a
  goroutine is the number of its channels and whether it has closed its done channel.  \<open>None\<close> is the
  panic of closing a closed channel.
\<close>

record periodic_life =
  pl_running :: bool
  pl_stopping :: bool
  pl_gen :: nat
  stop_closed :: "nat \<Rightarrow> bool"
  done_closed :: "nat \<Rightarrow> bool"
  pl_runs :: "(nat \<times> bool) list"

definition new_life :: periodic_life where
  "new_life = \<lparr>pl_running = False, pl_stopping = False, pl_gen = 0, stop_closed = (\<lambda>_. False),
     done_closed = (\<lambda>g. g = 0), pl_runs = []\<rparr>"

definition scheduler_Start :: "periodic_life \<Rightarrow> periodic_life" where
  "scheduler_Start l =
     (if pl_running l \<or> pl_stopping l then l
      else l\<lparr>pl_gen := Suc (pl_gen l), pl_running := True, pl_runs := pl_runs l @ [(Suc (pl_gen l), False)]\<rparr>)"

text \<open>The part of \<^verbatim>\<open>Stop\<close> before it waits for the done channel of the current start.\<close>

definition scheduler_Stop :: "periodic_life \<Rightarrow> periodic_life option" where
  "scheduler_Stop l =
     (if \<not> pl_running l \<and> \<not> pl_stopping l then Some l
      else if \<not> pl_stopping l
      then (if stop_closed l (pl_gen l) then None
            else Some (l\<lparr>stop_closed := (stop_closed l)(pl_gen l := True), pl_stopping := True\<rparr>))
      else Some l)"

text \<open>The two steps of the deferred function of \<^verbatim>\<open>run\<close>: close the done channel, then reset the flags.\<close>

definition run_close :: "nat \<Rightarrow> periodic_life \<Rightarrow> periodic_life option" where
  "run_close i l = (case pl_runs l ! i of (g, _) \<Rightarrow>
     if done_closed l g then None
     else Some (l\<lparr>done_closed := (done_closed l)(g := True), pl_runs := (pl_runs l)[i := (g, True)]\<rparr>))"

definition run_reset :: "nat \<Rightarrow> periodic_life \<Rightarrow> periodic_life" where
  "run_reset i l = (case pl_runs l ! i of (g, _) \<Rightarrow>
     let l = l\<lparr>pl_runs := take i (pl_runs l) @ drop (Suc i) (pl_runs l)\<rparr>
     in if pl_gen l = g then l\<lparr>pl_running := False, pl_stopping := False\<rparr> else l)"

text \<open>Any interleaving of calls and goroutines; \<open>None\<close> is a crashed process.\<close>

inductive life_step :: "periodic_life \<Rightarrow> periodic_life option \<Rightarrow> bool" where
  start: "life_step l (Some (scheduler_Start l))"
| stop: "life_step l (scheduler_Stop l)"
| close: "i < length (pl_runs l) \<Longrightarrow> \<not> snd (pl_runs l ! i) \<Longrightarrow> life_step l (run_close i l)"
| reset: "i < length (pl_runs l) \<Longrightarrow> snd (pl_runs l ! i) \<Longrightarrow> life_step l (Some (run_reset i l))"

end
