(* ===== verification/Worker.thy ===== *)
theory Worker
  imports Registry Batch Encryption Periodic
begin

text \<open>
  The worker, \<^verbatim>\<open>worker/worker.go\<close>: running one job to a durable outcome, and the background loops
  (heartbeat, promotion of scheduled jobs and retries, renewal of sequential locks, recovery of
  orphans).

  A loop that the code leaves only when its context ends, and the propagation to parent batches,
  are given fuel; \<open>WRunning\<close> says that the bound was reached.  \<open>WCrash\<close> is a panic that leaves
  the goroutine.  A function that returns nothing takes what happens next as its last argument.
  Logging is left out.
\<close>

datatype wres = WDone | WRunning | WCrash string

type_synonym 'x ctx_locals = "'x worker_locals_scheme"
type_synonym batch_ctx = "BatchHandle option"

record ('i, 'item, 'x) worker =
  w_id :: string
  w_keys :: keys
  w_settings :: WorkerSettings
  w_handlers :: "(batch_ctx, 'i, 'item, 'x ctx_locals) handlerRegistry"
  w_fetcher :: fetcher
  w_sequentialLockRenewEvery :: int
  w_hostname :: string
  w_pid :: int
  w_periodic :: "Scheduler option"

text \<open>The key space, queues and lock lifetime of a fetcher are those of its worker.\<close>

definition worker_New :: "string \<Rightarrow> string \<Rightarrow> int \<Rightarrow> string \<Rightarrow> WorkerSettings \<Rightarrow>
    ((string \<times> json) list option \<Rightarrow> goerr + (string \<times> json) list option) option \<Rightarrow> string \<Rightarrow> ('i, 'item, 'x) worker" where
  "worker_New ns host pid uuid settings decrypt stack =
     (let s = normalizeWorkerSettings settings;
          k = keys_New ns
      in \<lparr>w_id = host @ '':'' @ string_of_int pid @ '':'' @ take 8 uuid,
          w_keys = k,
          w_settings = s,
          w_handlers = registry_Use [RecoveryMiddleware stack]
             (case decrypt of None \<Rightarrow> newHandlerRegistry | Some d \<Rightarrow> registry_Use [encryptionMiddleware d] newHandlerRegistry),
          w_fetcher = newFetcherWithSequentialLockTTL k (SQueues s) (PollInterval s) (StrictPriority s) (SequentialLockTTL s),
          w_sequentialLockRenewEvery = SequentialLockRenewInterval s,
          w_hostname = host,
          w_pid = pid,
          w_periodic = (if PeriodicEnabled s then Some (NewScheduler k [WithPollInterval (PeriodicPollInterval s)]) else None)\<rparr>)"

text \<open>\<^verbatim>\<open>New\<close> with its error returns; \<open>ping\<close> is the error of the connection check, \<open>fl\<close> the number conversion of decoding.\<close>

definition worker_Open :: "(string \<Rightarrow> aead) \<Rightarrow> (string \<Rightarrow> string option) \<Rightarrow> goerr option \<Rightarrow> EncryptionSettings option \<Rightarrow>
    string \<Rightarrow> string \<Rightarrow> int \<Rightarrow> string \<Rightarrow> WorkerSettings \<Rightarrow> string \<Rightarrow> goerr + ('i, 'item, 'x) worker" where
  "worker_Open gcm fl ping encryption ns host pid uuid settings stack =
     (let connect = (\<lambda>enc. case ping of
            Some e \<Rightarrow> Inl e
          | None \<Rightarrow> Inr (worker_New ns host pid uuid settings (map_option (\<lambda>e. Decrypt e fl) enc) stack))
      in case encryption of
           None \<Rightarrow> connect None
         | Some e \<Rightarrow>
             if Enabled e
             then (case encryption_New gcm (Key e) of
                     Inl err \<Rightarrow> Inl (Wrap ''failed to init encryptor'' err)
                   | Inr enc \<Rightarrow> connect (Some enc))
             else connect None)"

definition worker_Register :: "string \<Rightarrow> (batch_ctx, 'x ctx_locals) handler \<Rightarrow>
    ('x ctx_locals JobOptions \<Rightarrow> 'x ctx_locals JobOptions) list \<Rightarrow> ('i, 'item, 'x) worker \<Rightarrow> ('i, 'item, 'x) worker" where
  "worker_Register jobType handler opts w =
     w\<lparr>w_handlers := registry_Register jobType handler (Some (fold (\<lambda>opt o'. opt o') opts job_defaults)) (w_handlers w)\<rparr>"

definition worker_RegisterIterable :: "string \<Rightarrow> (batch_ctx, 'i, 'item, 'x ctx_locals) IterableHandler \<Rightarrow>
    ((batch_ctx, 'x ctx_locals) IterableJobOptions \<Rightarrow> (batch_ctx, 'x ctx_locals) IterableJobOptions) list \<Rightarrow>
    ('i, 'item, 'x) worker \<Rightarrow> ('i, 'item, 'x) worker" where
  "worker_RegisterIterable jobType handler opts w =
     w\<lparr>w_handlers := registry_RegisterIterable jobType handler
        (Some (fold (\<lambda>opt o'. opt o') opts (iterable_defaults (IterableMaxRuntime (w_settings w))))) (w_handlers w)\<rparr>"

definition worker_Periodic :: "(string \<Rightarrow> goerr + schedule) \<Rightarrow> string \<Rightarrow> string \<Rightarrow> (periodic_Job \<Rightarrow> periodic_Job) list \<Rightarrow>
    ('i, 'item, 'x) worker \<Rightarrow> goerr + ('i, 'item, 'x) worker" where
  "worker_Periodic parse cronExpr jobType opts w = (case w_periodic w of
     None \<Rightarrow> Inl (Plain ''periodic jobs not enabled; set PeriodicEnabled: true in worker config'')
   | Some s \<Rightarrow> (case scheduler_Register parse cronExpr jobType opts s of
       Inl e \<Rightarrow> Inl e | Inr s \<Rightarrow> Inr (w\<lparr>w_periodic := Some s\<rparr>)))"

definition worker_PeriodicJobs :: "('i, 'item, 'x) worker \<Rightarrow> periodic_Job list" where
  "worker_PeriodicJobs w = (case w_periodic w of None \<Rightarrow> [] | Some s \<Rightarrow> Jobs s)"

definition worker_Use :: "(batch_ctx, 'x ctx_locals) middleware list \<Rightarrow> ('i, 'item, 'x) worker \<Rightarrow> ('i, 'item, 'x) worker" where
  "worker_Use mw w = w\<lparr>w_handlers := registry_Use mw (w_handlers w)\<rparr>"

section \<open>Batch progress\<close>

primrec updateBatchProgress :: "nat \<Rightarrow> cjson \<Rightarrow> keys \<Rightarrow> string \<Rightarrow> string \<Rightarrow> Result \<Rightarrow>
    (goerr option \<Rightarrow> ('l, wres) go) \<Rightarrow> ('l, wres) go" where
  "updateBatchProgress 0 cj k jobID bid result cont = (if bid = [] then cont None else Done WRunning)"
| "updateBatchProgress (Suc n) cj k jobID bid result cont =
     (if bid = [] then cont None
      else Now (\<lambda>now.
        RunJSON ''batch_complete'' (batch_complete cj (CompletionKeys k bid) (CompletionArgs k jobID result now))
          (dec_struct dec_CompleteResult_field) zero_CompleteResult (\<lambda>r. case r of
            Inl e \<Rightarrow> cont (Some (Wrap (''record batch progress for '' @ bid) e))
          | Inr callbackResult \<Rightarrow>
              if cr_Error callbackResult \<noteq> [] then cont None
              else if cr_AlreadyProcessed callbackResult then cont None
              else (case ParentResultType callbackResult of
                      None \<Rightarrow> cont None
                    | Some parentResult \<Rightarrow>
                        updateBatchProgress n cj k bid (cr_ParentID callbackResult) parentResult (\<lambda>_. cont None)))))"

record batchCallbackCompleteResult =
  bc_CallbacksPending :: int
  bc_Pending :: int
  bc_ShouldPropagate :: bool
  bc_ParentID :: string
  bc_Dead :: bool
  bc_Invalidated :: bool
  bc_AlreadyProcessed :: bool
  bc_Error :: string

definition zero_callback_result :: batchCallbackCompleteResult where
  "zero_callback_result = \<lparr>bc_CallbacksPending = 0, bc_Pending = 0, bc_ShouldPropagate = False, bc_ParentID = [],
     bc_Dead = False, bc_Invalidated = False, bc_AlreadyProcessed = False, bc_Error = []\<rparr>"

definition dec_callback_result_field :: "string \<Rightarrow> json \<Rightarrow> batchCallbackCompleteResult \<Rightarrow> batchCallbackCompleteResult option" where
  "dec_callback_result_field k v r =
     (if k = ''callbacks_pending'' then map_option (\<lambda>x. r\<lparr>bc_CallbacksPending := x\<rparr>) (dec_int v (bc_CallbacksPending r))
      else if k = ''pending'' then map_option (\<lambda>x. r\<lparr>bc_Pending := x\<rparr>) (dec_int v (bc_Pending r))
      else if k = ''should_propagate'' then map_option (\<lambda>x. r\<lparr>bc_ShouldPropagate := x\<rparr>) (dec_bool v (bc_ShouldPropagate r))
      else if k = ''parent_id'' then map_option (\<lambda>x. r\<lparr>bc_ParentID := x\<rparr>) (dec_str v (bc_ParentID r))
      else if k = ''dead'' then map_option (\<lambda>x. r\<lparr>bc_Dead := x\<rparr>) (dec_bool v (bc_Dead r))
      else if k = ''invalidated'' then map_option (\<lambda>x. r\<lparr>bc_Invalidated := x\<rparr>) (dec_bool v (bc_Invalidated r))
      else if k = ''already_processed''
        then map_option (\<lambda>x. r\<lparr>bc_AlreadyProcessed := x\<rparr>) (dec_bool v (bc_AlreadyProcessed r))
      else if k = ''error'' then map_option (\<lambda>x. r\<lparr>bc_Error := x\<rparr>) (dec_str v (bc_Error r))
      else Some r)"

definition handleBatchCallbackComplete :: "nat \<Rightarrow> cjson \<Rightarrow> keys \<Rightarrow> job \<Rightarrow> (goerr option \<Rightarrow> ('l, wres) go) \<Rightarrow> ('l, wres) go" where
  "handleBatchCallbackComplete n cj k job cont =
     (let bid = j_CallbackBatchID job
      in if bid = [] then cont None
         else RunJSON ''batch_callback_complete''
           (batch_callback_complete cj [Batch k bid, BatchProgress k bid, BatchCallbacks k bid] [j_ID job])
           (dec_struct dec_callback_result_field) zero_callback_result (\<lambda>r. case r of
             Inl e \<Rightarrow> cont (Some (Wrap (''record batch callback completion for '' @ bid) e))
           | Inr result \<Rightarrow>
               if bc_Error result \<noteq> [] then cont None
               else if bc_AlreadyProcessed result then cont None
               else if bc_ShouldPropagate result \<and> bc_ParentID result \<noteq> []
               then updateBatchProgress n cj k bid (bc_ParentID result)
                      (if bc_Dead result then ResultDeath else if bc_Invalidated result then ResultInvalidated else ResultSuccess)
                      (\<lambda>_. cont None)
               else cont None))"

section \<open>Finalizing a job\<close>

definition jobFinalizationRetryInterval :: int where
  "jobFinalizationRetryInterval = 250 * Millisecond"

text \<open>The work of a finalization: it gets the job and says how it left it and whether it failed.\<close>

type_synonym 'l finalizer = "job \<Rightarrow> (job \<Rightarrow> goerr option \<Rightarrow> ('l, wres) go) \<Rightarrow> ('l, wres) go"

primrec finalizeJob :: "nat \<Rightarrow> (string \<Rightarrow> string option) \<Rightarrow> fetcher \<Rightarrow> string \<Rightarrow> job \<Rightarrow> jobfinalization \<Rightarrow> 'l finalizer \<Rightarrow>
    ('l, wres) go" where
  "finalizeJob 0 fl f workerID job finalization fn = Done WRunning"
| "finalizeJob (Suc n) fl f workerID job finalization fn =
     (let again = (\<lambda>job. Wait jobFinalizationRetryInterval (\<lambda>ticked.
            if ticked then finalizeJob n fl f workerID job finalization fn else Done WDone));
          attempt = (\<lambda>job. fn job (\<lambda>job err. case err of None \<Rightarrow> Done WDone | Some _ \<Rightarrow> again job))
      in if j_finalization job = None
         then go_bind (MarkFinalization fl f workerID job finalization) (\<lambda>(job, err).
                case err of Some _ \<Rightarrow> again job | None \<Rightarrow> attempt job)
         else attempt job)"

definition finalization_of :: "string \<Rightarrow> string \<Rightarrow> int \<Rightarrow> jobfinalization" where
  "finalization_of operation error retryAt = \<lparr>f_Operation = operation, f_Error = error, f_RetryAt = retryAt\<rparr>"

definition complete_work :: "nat \<Rightarrow> cjson \<Rightarrow> fetcher \<Rightarrow> keys \<Rightarrow> string \<Rightarrow> 'l finalizer" where
  "complete_work n cj f k workerID job cont =
     updateBatchProgress n cj k (j_ID job) (j_BatchID job) ResultSuccess (\<lambda>e. case e of
       Some e \<Rightarrow> cont job (Some e)
     | None \<Rightarrow> handleBatchCallbackComplete n cj k job (\<lambda>e. case e of
         Some e \<Rightarrow> cont job (Some e)
       | None \<Rightarrow> go_bind (Ack f workerID job) (\<lambda>(job, e). cont job e)))"

definition retry_work :: "nat \<Rightarrow> cjson \<Rightarrow> (string \<Rightarrow> string option) \<Rightarrow> fetcher \<Rightarrow> keys \<Rightarrow> string \<Rightarrow> int \<Rightarrow> int \<Rightarrow> 'l finalizer" where
  "retry_work n cj fl f k workerID retryAt retryIn job cont =
     updateBatchProgress n cj k (j_ID job) (j_BatchID job) ResultFailure (\<lambda>e. case e of
       Some e \<Rightarrow> cont job (Some e)
     | None \<Rightarrow>
         if retryAt \<noteq> zero_time then go_bind (NackAt fl f workerID job retryAt) (\<lambda>(job, e). cont job e)
         else go_bind (Nack fl f workerID job retryIn) (\<lambda>(job, e). cont job e))"

definition kill_work :: "nat \<Rightarrow> cjson \<Rightarrow> (string \<Rightarrow> string option) \<Rightarrow> fetcher \<Rightarrow> keys \<Rightarrow> string \<Rightarrow> 'l finalizer" where
  "kill_work n cj fl f k workerID job cont =
     updateBatchProgress n cj k (j_ID job) (j_BatchID job) ResultDeath (\<lambda>e. case e of
       Some e \<Rightarrow> cont job (Some e)
     | None \<Rightarrow> handleBatchCallbackComplete n cj k job (\<lambda>e. case e of
         Some e \<Rightarrow> cont job (Some e)
       | None \<Rightarrow> go_bind (MoveToDead fl f workerID job) (\<lambda>(job, e). cont job e)))"

definition completeJob :: "nat \<Rightarrow> cjson \<Rightarrow> (string \<Rightarrow> string option) \<Rightarrow> ('i, 'item, 'x) worker \<Rightarrow> job \<Rightarrow> ('x ctx_locals, wres) go" where
  "completeJob n cj fl w job =
     finalizeJob n fl (w_fetcher w) (w_id w) job (finalization_of ''complete'' [] zero_time)
       (complete_work n cj (w_fetcher w) (w_keys w) (w_id w))"

definition finalizeRetryJob :: "nat \<Rightarrow> cjson \<Rightarrow> (string \<Rightarrow> string option) \<Rightarrow> ('i, 'item, 'x) worker \<Rightarrow> job \<Rightarrow> int \<Rightarrow> int \<Rightarrow>
    ('x ctx_locals, wres) go" where
  "finalizeRetryJob n cj fl w job retryAt retryIn =
     finalizeJob n fl (w_fetcher w) (w_id w) job (finalization_of ''retry'' [] retryAt)
       (retry_work n cj fl (w_fetcher w) (w_keys w) (w_id w) retryAt retryIn)"

definition retryJobAt :: "nat \<Rightarrow> cjson \<Rightarrow> (string \<Rightarrow> string option) \<Rightarrow> ('i, 'item, 'x) worker \<Rightarrow> job \<Rightarrow> int \<Rightarrow>
    ('x ctx_locals, wres) go" where
  "retryJobAt n cj fl w job retryAt = finalizeRetryJob n cj fl w job retryAt 0"

primrec retryJobIn_loop :: "nat \<Rightarrow> nat \<Rightarrow> cjson \<Rightarrow> (string \<Rightarrow> string option) \<Rightarrow> ('i, 'item, 'x) worker \<Rightarrow> job \<Rightarrow> int \<Rightarrow>
    ('x ctx_locals, wres) go" where
  "retryJobIn_loop 0 n cj fl w job retryIn = Done WRunning"
| "retryJobIn_loop (Suc m) n cj fl w job retryIn =
     redisNow (\<lambda>r. case r of
       Inr now \<Rightarrow> retryJobAt n cj fl w job (now + retryIn)
     | Inl e \<Rightarrow> Wait jobFinalizationRetryInterval (\<lambda>ticked.
         if ticked then retryJobIn_loop m n cj fl w job retryIn else Done WDone))"

definition retryJobIn :: "nat \<Rightarrow> cjson \<Rightarrow> (string \<Rightarrow> string option) \<Rightarrow> ('i, 'item, 'x) worker \<Rightarrow> job \<Rightarrow> int \<Rightarrow>
    ('x ctx_locals, wres) go" where
  "retryJobIn n cj fl w job retryIn = retryJobIn_loop n n cj fl w job retryIn"

definition retryJob :: "nat \<Rightarrow> cjson \<Rightarrow> (string \<Rightarrow> string option) \<Rightarrow> ('i, 'item, 'x) worker \<Rightarrow> job \<Rightarrow> int \<Rightarrow>
    ('x ctx_locals, wres) go" where
  "retryJob n cj fl w job retryIn =
     (if retryIn > 0 then retryJobIn n cj fl w job retryIn
      else finalizeRetryJob n cj fl w job zero_time retryIn)"

definition killJob :: "nat \<Rightarrow> cjson \<Rightarrow> (string \<Rightarrow> string option) \<Rightarrow> ('i, 'item, 'x) worker \<Rightarrow> job \<Rightarrow> goerr \<Rightarrow>
    ('x ctx_locals, wres) go" where
  "killJob n cj fl w job err =
     (let job = job\<lparr>j_Error := Error err\<rparr>
      in finalizeJob n fl (w_fetcher w) (w_id w) job (finalization_of ''kill'' (j_Error job) zero_time)
           (kill_work n cj fl (w_fetcher w) (w_keys w) (w_id w)))"

text \<open>The operation is printed with \<^verbatim>\<open>%q\<close>, which agrees with the JSON form on plain text.\<close>

definition resumeFinalizedJob :: "nat \<Rightarrow> cjson \<Rightarrow> (string \<Rightarrow> string option) \<Rightarrow> ('i, 'item, 'x) worker \<Rightarrow> job \<Rightarrow>
    ('x ctx_locals, wres) go" where
  "resumeFinalizedJob n cj fl w job = (case j_finalization job of
     None \<Rightarrow> Done WDone
   | Some finalization \<Rightarrow>
       if f_Operation finalization = ''complete'' then completeJob n cj fl w job
       else if f_Operation finalization = ''retry''
       then (if f_RetryAt finalization \<noteq> zero_time then retryJobAt n cj fl w job (f_RetryAt finalization)
             else retryJob n cj fl w job 0)
       else if f_Operation finalization = ''kill'' then killJob n cj fl w job (Plain (f_Error finalization))
       else killJob n cj fl w (ClearFinalization job)
              (Plain (''unknown job finalization operation '' @ quote (f_Operation finalization))))"

section \<open>Results\<close>

definition calculateRetryBackoff :: "job \<Rightarrow> 'l JobOptions option \<Rightarrow> int \<times> bool" where
  "calculateRetryBackoff job opts =
     (let backoffFn = (case Option.bind opts jo_RetryBackoff of Some b \<Rightarrow> b | None \<Rightarrow> DefaultBackoff);
          maxRetries = (case opts of
             Some o' \<Rightarrow> if jo_MaxRetries o' < j_Retry job then jo_MaxRetries o' else j_Retry job
           | None \<Rightarrow> j_Retry job)
      in (backoffFn (j_RetryCount job), j_RetryCount job < maxRetries))"

definition iterableRetryOptions :: "job \<Rightarrow> ('c, 'l) IterableJobOptions option \<Rightarrow> 'l JobOptions" where
  "iterableRetryOptions job opts =
     \<lparr>jo_MaxRetries = (case opts of
        Some o' \<Rightarrow> if io_MaxRetries o' < j_Retry job then io_MaxRetries o' else j_Retry job | None \<Rightarrow> j_Retry job),
      jo_RetryBackoff = (case Option.bind opts io_RetryBackoff of Some b \<Rightarrow> Some b | None \<Rightarrow> Some DefaultBackoff),
      jo_Timeout = 0, jo_MaxConcurrency = 0, jo_Unique = None, jo_RateLimiter = None\<rparr>"

definition handleJobResult :: "nat \<Rightarrow> cjson \<Rightarrow> (string \<Rightarrow> string option) \<Rightarrow> ('i, 'item, 'x) worker \<Rightarrow> job \<Rightarrow> goerr option \<Rightarrow>
    'l JobOptions option \<Rightarrow> ('x ctx_locals, wres) go option \<Rightarrow> ('x ctx_locals, wres) go" where
  "handleJobResult n cj fl w job err opts onInterrupted = (case err of
     None \<Rightarrow> completeJob n cj fl w job
   | Some e \<Rightarrow>
       (case (if is_interrupted e then onInterrupted else None) of
          Some act \<Rightarrow> act
        | None \<Rightarrow>
       (case as_retryable e of
          Some retryIn \<Rightarrow> retryJob n cj fl w job retryIn
        | None \<Rightarrow>
       (case as_max_retries e of
          Some m \<Rightarrow> killJob n cj fl w job m
        | None \<Rightarrow>
            (case calculateRetryBackoff job opts of
               (backoff, shouldRetry) \<Rightarrow>
                 if shouldRetry then retryJob n cj fl w job backoff else killJob n cj fl w job e)))))"

text \<open>The result of a handler: a panic that no middleware caught ends the goroutine.\<close>

definition on_result :: "hres \<Rightarrow> (goerr option \<Rightarrow> ('l, wres) go) \<Rightarrow> ('l, wres) go" where
  "on_result r cont = (case r of
      HOk \<Rightarrow> cont None | HErr e \<Rightarrow> cont (Some e) | HPanic v \<Rightarrow> Done (WCrash v) | HRunning \<Rightarrow> Done WRunning)"

definition contextWithVerifiedBatchHandle :: "keys \<Rightarrow> job \<Rightarrow> (goerr + batch_ctx \<Rightarrow> ('l, wres) go) \<Rightarrow> ('l, wres) go" where
  "contextWithVerifiedBatchHandle k job cont =
     (if j_BatchID job = [] then cont (Inr None)
      else Cmd (cSISMEMBER (BatchJobs k (j_BatchID job)) (j_ID job)) (\<lambda>r. case r of
        Inl e \<Rightarrow> cont (Inl (Wrap (''verify batch membership for job '' @ j_ID job @ '' in batch '' @ j_BatchID job) e))
      | Inr m \<Rightarrow> cont (Inr (if reply_int m = 1 then Some \<lparr>bh_bid = j_BatchID job, bh_keys = k\<rparr> else None))))"

definition processIterableJob :: "nat \<Rightarrow> cjson \<Rightarrow> (string \<Rightarrow> string option) \<Rightarrow> ('i, 'item, 'x) worker \<Rightarrow> batch_ctx \<Rightarrow> job \<Rightarrow>
    (batch_ctx, 'i, 'item, 'x ctx_locals) IterableHandler \<Rightarrow> (batch_ctx, 'x ctx_locals) IterableJobOptions option \<Rightarrow>
    ('x ctx_locals, wres) go" where
  "processIterableJob n cj fl w ctx job handler opts =
     Now (\<lambda>now.
       let default = IterableMaxRuntime (w_settings w);
           iterHandler = (\<lambda>ctx job. case opts of
             Some o' \<Rightarrow> processIterable n (w_keys w) default handler o' ctx job
           | None \<Rightarrow> Done (job, HPanic ''nil pointer dereference''));
           h = decorate (case opts of Some o' \<Rightarrow> io_Timeout o' | None \<Rightarrow> 0) (Option.bind opts io_RateLimiter)
                 (middlewareChain (w_handlers w)) iterHandler
       in go_bind (h ctx (job\<lparr>j_ProcessedAt := Some now\<rparr>)) (\<lambda>(job, r).
            on_result r (\<lambda>err.
              handleJobResult n cj fl w job err (Some (iterableRetryOptions job opts :: 'x ctx_locals JobOptions))
                (Some (go_bind (fetcher_requeue fl (w_fetcher w) (w_id w) job) (\<lambda>_. Done WDone))))))"

definition dispatchJob :: "nat \<Rightarrow> cjson \<Rightarrow> (string \<Rightarrow> string option) \<Rightarrow> ('i, 'item, 'x) worker \<Rightarrow> job \<Rightarrow> ('x ctx_locals, wres) go" where
  "dispatchJob n cj fl w job =
     (if j_finalization job \<noteq> None then resumeFinalizedJob n cj fl w job
      else contextWithVerifiedBatchHandle (w_keys w) job (\<lambda>r. case r of
        Inl e \<Rightarrow> handleJobResult n cj fl w job (Some e) (None :: 'x ctx_locals JobOptions option) None
      | Inr ctx \<Rightarrow>
          (case GetIterable (w_handlers w) (j_Type job) of
             Some (handler, opts) \<Rightarrow> processIterableJob n cj fl w ctx job handler opts
           | None \<Rightarrow>
               go_bind (process (w_handlers w) ctx job) (\<lambda>(opts, job, r).
                 on_result r (\<lambda>err. handleJobResult n cj fl w job err opts None)))))"

text \<open>The sequential lock is released however the job ends, unless it is still running.\<close>

definition processJob :: "nat \<Rightarrow> cjson \<Rightarrow> (string \<Rightarrow> string option) \<Rightarrow> ('i, 'item, 'x) worker \<Rightarrow> job \<Rightarrow> ('x ctx_locals, wres) go" where
  "processJob n cj fl w job =
     go_bind (dispatchJob n cj fl w job) (\<lambda>r.
       if r = WRunning then Done r
       else go_bind (ReleaseSequentialLock (w_fetcher w) (w_id w) (j_Queue job)) (\<lambda>_. Done r))"

primrec workerLoop :: "nat \<Rightarrow> nat \<Rightarrow> cjson \<Rightarrow> (string \<Rightarrow> string option) \<Rightarrow> ('i, 'item, 'x) worker \<Rightarrow> ('x ctx_locals, wres) go" where
  "workerLoop 0 n cj fl w = Done WRunning"
| "workerLoop (Suc m) n cj fl w =
     CtxDone (\<lambda>stop.
       if stop then Done WDone
       else go_bind (BlockingFetch cj fl (w_fetcher w) (w_id w) (workerBlockTimeout (w_settings w))) (\<lambda>(job, err).
         case err of
           Some e \<Rightarrow> CtxDone (\<lambda>stop. if stop then Done WDone else workerLoop m n cj fl w)
         | None \<Rightarrow>
             (case job of
                None \<Rightarrow> workerLoop m n cj fl w
              | Some job \<Rightarrow> go_bind (processJob n cj fl w job) (\<lambda>r.
                  if r = WDone then workerLoop m n cj fl w else Done r))))"

section \<open>Background loops\<close>

text \<open>A ticker loop: on every tick the work, at the end of the context the clean-up.\<close>

primrec ticker_loop :: "nat \<Rightarrow> int \<Rightarrow> ('l, wres) go \<Rightarrow> ('l, wres) go \<Rightarrow> ('l, wres) go" where
  "ticker_loop 0 interval work cleanup = Done WRunning"
| "ticker_loop (Suc n) interval work cleanup =
     Wait interval (\<lambda>ticked.
       if \<not> ticked then cleanup
       else go_bind work (\<lambda>r. if r = WDone then ticker_loop n interval work cleanup else Done r))"

definition queue_json :: "QueueConfig \<Rightarrow> json" where
  "queue_json q = JObj [(''Name'', JStr (c_Name q)), (''Priority'', JInt (c_Priority q)), (''Paused'', JBool (c_Paused q)),
     (''Sequential'', JBool (c_Sequential q))]"

definition workerHeartbeatInfo :: "('i, 'item, 'x) worker \<Rightarrow> int \<Rightarrow> json" where
  "workerHeartbeatInfo w unixNow =
     JObj [(''hostname'', JStr (w_hostname w)), (''pid'', JInt (w_pid w)),
       (''queues'', JArr (map queue_json (SQueues (w_settings w)))), (''concurrency'', JInt (Concurrency (w_settings w))),
       (''started_at'', JInt unixNow), (''beat_at'', JInt unixNow)]"

definition recordHeartbeat :: "('i, 'item, 'x) worker \<Rightarrow> int \<Rightarrow> (goerr option \<Rightarrow> ('l, 'a) go) \<Rightarrow> ('l, 'a) go" where
  "recordHeartbeat w now cont =
     Cmd (cHSET (Workers (w_keys w)) [(w_id w, json_print (workerHeartbeatInfo w (Unix now)))]) (\<lambda>r.
       cont (case r of Inl e \<Rightarrow> Some (Wrap ''write worker heartbeat'' e) | Inr _ \<Rightarrow> None))"

definition removeHeartbeat :: "('i, 'item, 'x) worker \<Rightarrow> (goerr option \<Rightarrow> ('l, 'a) go) \<Rightarrow> ('l, 'a) go" where
  "removeHeartbeat w cont =
     Cmd (cHDEL (Workers (w_keys w)) (w_id w)) (\<lambda>r.
       cont (case r of Inl e \<Rightarrow> Some (Wrap ''remove worker heartbeat'' e) | Inr _ \<Rightarrow> None))"

definition heartbeat :: "nat \<Rightarrow> ('i, 'item, 'x) worker \<Rightarrow> ('l, wres) go" where
  "heartbeat n w = ticker_loop n (HeartbeatRate (w_settings w))
     (Now (\<lambda>now. recordHeartbeat w now (\<lambda>_. Done WDone))) (removeHeartbeat w (\<lambda>_. Done WDone))"

definition sequentialLockRenewer :: "nat \<Rightarrow> ('i, 'item, 'x) worker \<Rightarrow> ('x ctx_locals, wres) go" where
  "sequentialLockRenewer n w =
     (let interval = w_sequentialLockRenewEvery w;
          interval = (if interval \<le> 0 then SequentialLockRenewInterval DefaultWorkerSettings else interval)
      in ticker_loop n interval (go_bind (RenewSequentialLocks (w_fetcher w) (w_id w)) (\<lambda>_. Done WDone)) (Done WDone))"

primrec enqueueFromZSet :: "nat \<Rightarrow> cjson \<Rightarrow> keys \<Rightarrow> string \<Rightarrow> (goerr option \<Rightarrow> ('l, wres) go) \<Rightarrow> ('l, wres) go" where
  "enqueueFromZSet 0 cj k sourceKey cont = Done WRunning"
| "enqueueFromZSet (Suc n) cj k sourceKey cont =
     Eval (enqueue_scheduled cj [sourceKey, Queues k] [string_of_int 100, Queue k []]) (\<lambda>r. case r of
       Inl e \<Rightarrow> cont (Some (Wrap (''promote jobs from '' @ quote sourceKey) e))
     | Inr (RInt moved) \<Rightarrow> if moved = 0 then cont None else enqueueFromZSet n cj k sourceKey cont
     | Inr _ \<Rightarrow> cont (Some (Plain (''promote jobs from '' @ quote sourceKey @ '': unexpected script result''))))"

definition scheduler :: "nat \<Rightarrow> cjson \<Rightarrow> ('i, 'item, 'x) worker \<Rightarrow> ('l, wres) go" where
  "scheduler n cj w =
     (let interval = ScheduledPollInterval (w_settings w);
          interval = (if interval \<le> 0 then ScheduledPollInterval DefaultWorkerSettings else interval)
      in ticker_loop n interval
           (enqueueFromZSet n cj (w_keys w) (Scheduled (w_keys w)) (\<lambda>_.
              enqueueFromZSet n cj (w_keys w) (Retry (w_keys w)) (\<lambda>_. Done WDone)))
           (Done WDone))"

text \<open>
  A worker's heartbeat entry is read as a map of JSON values: an entry that is not an object is
  skipped, one without a numeric \<^verbatim>\<open>beat_at\<close> is stale.  \<open>trunc\<close> is Go's conversion of a number to
  \<^verbatim>\<open>int64\<close>.
\<close>

datatype liveness = Skipped | Stale | Active

definition classify_worker :: "(string \<Rightarrow> string option) \<Rightarrow> (string \<Rightarrow> int) \<Rightarrow> int \<Rightarrow> string \<Rightarrow> liveness" where
  "classify_worker fl trunc now entry = (case Option.bind (json_parse entry) (dec_any fl) of
      Some (JObj ms) \<Rightarrow>
        (case map_of (rev ms) ''beat_at'' of
           Some (JNum n) \<Rightarrow> if now - trunc n > 60 then Stale else Active
         | _ \<Rightarrow> Stale)
    | Some JNull \<Rightarrow> Stale
    | _ \<Rightarrow> Skipped)"

primrec remove_stale :: "keys \<Rightarrow> string list \<Rightarrow> ('l, wres) go \<Rightarrow> ('l, wres) go" where
  "remove_stale k [] cont = cont"
| "remove_stale k (i # ids) cont = Cmd (cHDEL (Workers k) i) (\<lambda>_. remove_stale k ids cont)"

primrec reap_keys :: "cjson \<Rightarrow> keys \<Rightarrow> string list \<Rightarrow> string list \<Rightarrow> ('l, wres) go \<Rightarrow> ('l, wres) go" where
  "reap_keys cj k active [] cont = cont"
| "reap_keys cj k active (key # ks) cont =
     (if length key < length (InFlight k []) then Done (WCrash ''slice bounds out of range'')
      else if drop (length (InFlight k [])) key \<in> set active then reap_keys cj k active ks cont
      else Eval (requeue_orphaned cj [key, Queues k] [Queue k [], Finalization k []]) (\<lambda>_. reap_keys cj k active ks cont))"

primrec reap_pages :: "nat \<Rightarrow> cjson \<Rightarrow> keys \<Rightarrow> string list \<Rightarrow> ('l, wres) go" where
  "reap_pages 0 cj k active = Done WRunning"
| "reap_pages (Suc n) cj k active =
     Scan (InFlight k ''*'') (\<lambda>r. case r of
       Inl e \<Rightarrow> Done WDone
     | Inr (ks, next) \<Rightarrow> reap_keys cj k active ks (if next then reap_pages n cj k active else Done WDone))"

definition requeueOrphanedJobs :: "nat \<Rightarrow> cjson \<Rightarrow> (string \<Rightarrow> string option) \<Rightarrow> (string \<Rightarrow> int) \<Rightarrow> ('i, 'item, 'x) worker \<Rightarrow> ('l, wres) go" where
  "requeueOrphanedJobs n cj fl trunc w =
     Cmd (cHGETALL (Workers (w_keys w))) (\<lambda>r. case r of
       Inl e \<Rightarrow> Done WDone
     | Inr h \<Rightarrow> Now (\<lambda>now.
         let entries = hash_reply h;
             kind = (\<lambda>e. classify_worker fl trunc (Unix now) (snd e))
         in remove_stale (w_keys w) (map fst (filter (\<lambda>e. kind e = Stale) entries))
              (reap_pages n cj (w_keys w) (map fst (filter (\<lambda>e. kind e = Active) entries)))))"

definition reaper :: "nat \<Rightarrow> cjson \<Rightarrow> (string \<Rightarrow> string option) \<Rightarrow> (string \<Rightarrow> int) \<Rightarrow> ('i, 'item, 'x) worker \<Rightarrow> ('l, wres) go" where
  "reaper n cj fl trunc w = ticker_loop n (workerReaperInterval (w_settings w)) (requeueOrphanedJobs n cj fl trunc w) (Done WDone)"

section \<open>Starting and stopping\<close>

text \<open>The goroutines that \<^verbatim>\<open>Run\<close> starts; \<^verbatim>\<open>m\<close> and \<^verbatim>\<open>n\<close> bound their loops.\<close>

definition Run_goroutines :: "nat \<Rightarrow> nat \<Rightarrow> cjson \<Rightarrow> (string \<Rightarrow> string option) \<Rightarrow> (string \<Rightarrow> int) \<Rightarrow> ('i, 'item, 'x) worker \<Rightarrow>
    ('x ctx_locals, wres) go list" where
  "Run_goroutines m n cj fl trunc w =
     [heartbeat n w, scheduler n cj w, reaper n cj fl trunc w, sequentialLockRenewer n w] @
     (case w_periodic w of
        None \<Rightarrow> []
      | Some s \<Rightarrow> [go_bind (periodic_run n s) (\<lambda>ended. Done (if ended then WDone else WRunning))]) @
     replicate (nat (Concurrency (w_settings w))) (workerLoop m n cj fl w)"

text \<open>
  The life cycle under the worker's mutex.  A goroutine of \<^verbatim>\<open>Run\<close> waits for the workers and resets
  the flags; a timeout leaves them set.
\<close>

record lifecycle =
  running :: bool
  stopping :: bool
  stopCh_closed :: bool

definition Run_begin :: "lifecycle \<Rightarrow> (goerr + lifecycle)" where
  "Run_begin c =
     (if running c then Inl (Plain ''worker already running'')
      else Inr (c\<lparr>running := True, stopping := False, stopCh_closed := False\<rparr>))"

definition Run_finished :: "lifecycle \<Rightarrow> lifecycle" where
  "Run_finished c = c\<lparr>running := False, stopping := False\<rparr>"

text \<open>Closing a closed channel panics, the value \<open>None\<close>.\<close>

definition Stop :: "lifecycle \<Rightarrow> lifecycle option" where
  "Stop c =
     (if \<not> running c \<or> stopping c then Some c
      else if stopCh_closed c then None
      else Some (c\<lparr>stopCh_closed := True, stopping := True\<rparr>))"

end
