(* ===== verification/Safety.thy ===== *)
theory Safety
  imports Delivery Worker
begin

text \<open>
  Every request of a worker keeps every unfinished job.

  \<^item> \<open>harmless\<close> commands write no job key, or only push to it: the batch scripts are made of them.
  \<^item> A worker's goroutines are safe for a class of payloads when the handlers are: a handler that
    does not report success for the job, and asks for no retry without a delay, cannot make the
    worker drop it.
\<close>

section \<open>Harmless commands\<close>

definition grows :: "rcmd \<Rightarrow> bool" where
  "grows c = (case c of cLPUSH _ _ \<Rightarrow> True | cZADD _ _ \<Rightarrow> True | _ \<Rightarrow> False)"

definition harmless :: "keys \<Rightarrow> rcmd \<Rightarrow> bool" where
  "harmless k c \<longleftrightarrow> \<not> enum_cmd c \<and> (grows c \<or> (\<forall>x\<in>set (writes c). \<not> payload_key k x))"

lemma harmless_read [simp]: "writes c = [] \<Longrightarrow> \<not> enum_cmd c \<Longrightarrow> harmless k c"
  by (simp add: harmless_def)

lemma harmless_push [simp]: "harmless k (cLPUSH x vs)" "harmless k (cZADD x ps)"
  by (simp_all add: harmless_def grows_def)

lemma payloads_frame: "(\<And>x. payload_key k x \<Longrightarrow> same_at x d e) \<Longrightarrow> payloads k e l = payloads k d l"
  by (cases l) (auto simp: payload_key_def same_at_def lst_def zst_def)

lemma push_cases:
  "snd (exec (cLPUSH x vs) d) = d \<or>
     (snd (exec (cLPUSH x vs) d) = put x (VList (rev vs @ lst d x)) d \<and> zst d x = [])"
  by (cases "data d x"; cases "the (data d x)") (simp_all add: with_list_def lst_def zst_def)

lemma payloads_pushed: "p \<in> payloads k d l \<Longrightarrow> p \<in> payloads k (snd (exec (cLPUSH x vs) d)) l"
  using push_cases [of x vs d] by (cases l) (force simp: lst_put zst_put simp del: exec.simps)+

lemma members_zadd: "snd ` set z \<subseteq> snd ` set (foldl zadd1 z ps)"
  by (induction ps arbitrary: z) (simp, force)

lemma zadd_cases:
  "snd (exec (cZADD x ps) d) = d \<or>
     (snd (exec (cZADD x ps) d) = put x (VZset (foldl zadd1 (zst d x) ps)) d \<and> lst d x = [])"
  by (cases "data d x"; cases "the (data d x)") (simp_all add: with_zset_def lst_def zst_def)

lemma payloads_added:
  assumes "p \<in> payloads k d l"
  shows "p \<in> payloads k (snd (exec (cZADD x ps) d)) l"
proof (cases "snd (exec (cZADD x ps) d) = d")
  case False
  then have "snd (exec (cZADD x ps) d) = put x (VZset (foldl zadd1 (zst d x) ps)) d" "lst d x = []"
    using zadd_cases by blast+
  then show ?thesis
    using assms members_zadd [of "zst d x" ps]
    by (cases l) (simp_all add: lst_put zst_put subset_eq del: exec.simps, (auto simp del: exec.simps)+)
qed (use assms in \<open>simp del: exec.simps\<close>)

lemma payloads_grow: "grows c \<Longrightarrow> p \<in> payloads k d l \<Longrightarrow> p \<in> payloads k (snd (exec c d)) l"
  by (cases c) (simp_all add: grows_def payloads_pushed payloads_added del: exec.simps)

lemma grows_undated: "grows c \<Longrightarrow> deadline_key c = None"
  by (cases c) (simp_all add: grows_def)

lemma harmless_kept: "harmless k c \<Longrightarrow> preserves (exec c) (kept good k)"
  unfolding preserves_def
proof (intro allI impI)
  fix d
  assume c: "harmless k c" and d: "kept good k d"
  have time: "0 \<le> clock_us (snd (exec c d))"
    using d by (simp add: exec_clock kept_def)
  show "kept good k (snd (exec c d))"
  proof (cases "grows c")
    case True
    then have "present good k (snd (exec c d))"
      using d payloads_grow [OF True] unfolding kept_def present_def by blast
    moreover have "expires (snd (exec c d)) y = None" if "payload_key k y" for y
      using exec_undated [of d y c] grows_undated [OF True] that d by (auto simp: kept_def)
    ultimately show ?thesis
      using time by (simp add: kept_def)
  next
    case False
    then have same: "payload_key k x \<Longrightarrow> same_at x d (snd (exec c d))" for x
      using exec_frame c by (auto simp: harmless_def)
    have "present good k (snd (exec c d))"
      using d payloads_frame [OF same] by (simp add: kept_def present_def)
    then show ?thesis
      using same d time by (simp add: kept_def same_at_def)
  qed
qed

lemma harmless_cmd: "harmless k c \<Longrightarrow> c \<noteq> cTIME \<Longrightarrow> safe_cmd good k c"
  by (simp add: safe_cmdI harmless_kept)

lemma preserves_run_lua:
  assumes "lua_all (\<lambda>c. preserves (exec c) I) p"
  shows "preserves (run_lua exec p) I"
proof -
  have "I (snd (run_lua exec p d))" if "I d" for d
    using assms that
  proof (induction p arbitrary: d)
    case (LCall c f)
    obtain r e where e: "exec c d = (r, e)"
      by (cases "exec c d")
    then have "I e"
      using LCall.prems preservesD [of "exec c" I d r e] by simp
    then show ?case
      using LCall e by (cases r) simp_all
  qed simp_all
  then show ?thesis
    by (simp add: preserves_def)
qed

lemma enum_free_all: "enum_free p \<longleftrightarrow> lua_all (\<lambda>c. \<not> enum_cmd c) p"
  by (induction p) simp_all

lemma harmless_script: "lua_all (harmless k) p \<Longrightarrow> safe_script good k p"
  unfolding safe_script_def enum_free_all
  by (intro conjI preserves_run_lua) (auto elim!: lua_all_mono simp: harmless_kept harmless_def)

section \<open>The batch scripts\<close>

lemma batch_key_not_payload [simp]:
  "\<not> payload_key k (Batch k b)" "\<not> payload_key k (BatchProgress k b)" "\<not> payload_key k (BatchJobs k b)"
  "\<not> payload_key k (BatchFailed k b)" "\<not> payload_key k (BatchCallbacks k b)" "\<not> payload_key k (DeadBatches k)"
  "\<not> payload_key k (Batches k)" "\<not> payload_key k (Queues k)" "\<not> payload_key k (Workers k)"
  "\<not> payload_key k (IterationState k i)" "\<not> payload_key k (Finalization k i)"
  by (auto simp: payload_key_def key_defs)

lemma lua_all_lindex: "(\<And>v. lua_all P (cont v)) \<Longrightarrow> lua_all P (lindex j f cont)"
  by (auto simp: lindex_def split: json.splits)

lemma lua_all_results [simp]:
  "lua_all P (lencode cj j)" "lua_all P bad_argument" "lua_all P (result_error c)" "lua_all P result_already_processed"
  "lua_all P (script_error cj c)"
  by (auto simp: lencode_def bad_argument_def result_error_def result_already_processed_def script_error_def
      split: option.splits)

lemma lua_all_callback: "(\<And>oc. lua_all P (cont oc)) \<Longrightarrow> lua_all P (make_callback cfg oc cont)"
  by (auto simp: make_callback_def Let_def intro!: lua_all_lindex)

lemma lua_all_when_truthy: "(\<And>j. lua_all P (yes j)) \<Longrightarrow> lua_all P no \<Longrightarrow> lua_all P (when_truthy v yes no)"
  by (auto simp: when_truthy_def split: option.splits)

lemma lua_all_when: "P c \<Longrightarrow> lua_all P cont \<Longrightarrow> lua_all P (lwhen b c cont)"
  by (simp add: lwhen_def)

lemma lua_all_tonumber: "(\<And>i. lua_all P (f i)) \<Longrightarrow> lua_all P (tonumber s f)"
  by (auto simp: tonumber_def split: option.splits)

lemma lua_all_reads:
  assumes "\<And>c. writes c = [] \<Longrightarrow> \<not> enum_cmd c \<Longrightarrow> P c"
  shows "(\<And>b. lua_all P (cb b)) \<Longrightarrow> lua_all P (bool_field pk f cb)"
    and "(\<And>i. lua_all P (ci i)) \<Longrightarrow> lua_all P (number_field pk f ci)"
    and "(\<And>j. lua_all P (cj' j)) \<Longrightarrow> lua_all P (load_batch cj bk memo cj')"
    and "lua_all P nf \<Longrightarrow> lua_all P cont \<Longrightarrow> lua_all P (with_batch bk nf cont)"
    and "(\<And>t. lua_all P (ct t)) \<Longrightarrow> lua_all P (with_progress_type pk ct)"
    and "lua_all P cont \<Longrightarrow> lua_all P (want what ty key cont)"
    and "(\<And>b. lua_all P (cb b)) \<Longrightarrow> lua_all P (check_failed fk jid cb)"
  using assms
  by (auto simp: bool_field_def number_field_def load_batch_def with_batch_def with_progress_type_def check_failed_def
      split: option.splits rreply.splits)

lemma lua_all_progress:
  assumes read: "\<And>c. writes c = [] \<Longrightarrow> \<not> enum_cmd c \<Longrightarrow> P c"
    and wr: "\<And>c. writes c = [pk] \<Longrightarrow> \<not> enum_cmd c \<Longrightarrow> P c"
  shows "(\<And>j. lua_all P (cj' j)) \<Longrightarrow> lua_all P (init_progress cj bk pk jobs cj')"
    and "lua_all P cont \<Longrightarrow> lua_all P (copy_ttl bk pk cont)"
  using assms
  by (auto simp: init_progress_def copy_ttl_def intro!: lua_all_reads lua_all_lindex lua_all_when split: option.splits)

lemmas lua_all_rules = lua_all_reads lua_all_lindex lua_all_callback lua_all_when_truthy lua_all_when lua_all_tonumber

lemma lua_all_firing:
  assumes read: "\<And>c. writes c = [] \<Longrightarrow> \<not> enum_cmd c \<Longrightarrow> P c" and cont: "\<And>m p oc. lua_all P (cont m p oc)"
  shows "lua_all P (fire_death cj bk memo p oc cont)" "lua_all P (fire_complete cj bk memo p oc cont)"
    "lua_all P (apply_result cj KEYS ARGV memo p cont)"
proof -
  show d: "lua_all P (fire_death cj bk memo p oc cont)" for bk p oc
    using cont by (auto simp: fire_death_def Let_def intro!: lua_all_rules read)
  show "lua_all P (fire_complete cj bk memo p oc cont)"
    unfolding fire_complete_def Let_def
    by (auto intro!: lua_all_rules read cont)
  show "lua_all P (apply_result cj KEYS ARGV memo p cont)"
    unfolding apply_result_def
    by (auto intro!: lua_all_rules read cont d)
qed

lemma lua_all_jobs:
  assumes "P (cHINCRBY pk ''callback_seq'' 1)" "\<And>jobs. lua_all P (cont jobs)"
  shows "lua_all P (make_callback_jobs cj pk q r now bid bt par cs cont)"
  using assms by (induction cs arbitrary: cont) (auto simp: Let_def split: option.splits)

lemma lua_all_push_jobs:
  assumes "\<And>jid. P (cSADD ck [jid])" "\<And>t. P (cLPUSH qk [t])" "lua_all P cont"
  shows "lua_all P (push_callback_jobs ck qk jobs cont)"
  using assms by (induction ck qk jobs cont rule: push_callback_jobs.induct) auto

lemma lua_all_completion:
  assumes read: "\<And>c. writes c = [] \<Longrightarrow> \<not> enum_cmd c \<Longrightarrow> P c" and push: "\<And>x vs. P (cLPUSH x vs)"
    and wr: "\<And>c i. writes c = [KEYS ! i] \<Longrightarrow> i < 7 \<Longrightarrow> \<not> enum_cmd c \<Longrightarrow> P c"
  shows "lua_all P (write_completion cj KEYS ARGV r rm memo p oc q)" "lua_all P (complete_member cj KEYS ARGV r rm memo p)"
    "lua_all P (batch_complete cj KEYS ARGV)"
proof -
  have keyed: "P (cHINCRBY (KEYS ! 1) f n)" "P (cHSET (KEYS ! 1) fs)" "P (cSADD (KEYS ! 6) vs)" "P (cSADD (KEYS ! 5) vs)"
    "P (cEXPIRE (KEYS ! 5) n)" "P (cSADD (KEYS ! 4) vs)" "P (cSREM (KEYS ! 2) v)" "P (cSADD (KEYS ! 3) vs)"
    "P (cEXPIRE (KEYS ! 3) n)" for f n fs vs v
    by (auto intro: wr [of _ 1] wr [of _ 2] wr [of _ 3] wr [of _ 4] wr [of _ 5] wr [of _ 6])
  note R = lua_all_reads [where P = P, OF read] lua_all_lindex lua_all_callback lua_all_when_truthy lua_all_when lua_all_tonumber
  have wr1: "writes c = [KEYS ! 1] \<Longrightarrow> \<not> enum_cmd c \<Longrightarrow> P c" for c
    by (rule wr [of _ 1]) simp_all
  note prog = lua_all_progress [where P = P and pk = "KEYS ! 1", OF read wr1]
  have cb: "lua_all P (write_callbacks cj KEYS ARGV r p oc bid q)" for r p oc bid q
    by (auto simp: write_callbacks_def keyed push simp del: One_nat_def intro!: lua_all_jobs lua_all_push_jobs split: option.splits)
  have dead: "lua_all P cont \<Longrightarrow> lua_all P (write_dead_batch cj KEYS oc bid cont)" for oc bid cont
    by (auto simp: write_dead_batch_def keyed split: option.splits)
  show fin: "lua_all P (write_completion cj KEYS ARGV r rm memo p oc q)" for r rm memo p oc q
    unfolding write_completion_def
    by (auto simp: read keyed push simp del: One_nat_def intro!: R dead cb split: option.splits)
  have target: "(\<And>q. lua_all P (cont q)) \<Longrightarrow> lua_all P (callback_target cj KEYS ARGV memo cont)" for memo cont
    unfolding callback_target_def
    by (auto simp: read keyed push simp del: One_nat_def intro!: R split: option.splits)
  show member: "lua_all P (complete_member cj KEYS ARGV r rm memo p)" for r rm memo p
    unfolding complete_member_def
    by (auto simp: read keyed push simp del: One_nat_def intro!: lua_all_firing [where P = P, OF read] R fin target)
  have "lua_all P (classify cj KEYS ARGV r memo p)" for r memo p
    unfolding classify_def by (auto simp: read keyed push simp del: One_nat_def intro!: member)
  then show "lua_all P (batch_complete cj KEYS ARGV)"
    unfolding batch_complete_def Let_def
    by (auto simp: read keyed push simp del: One_nat_def intro!: R prog)
qed

lemma lua_all_counted:
  assumes "\<And>c. writes c = [] \<Longrightarrow> \<not> enum_cmd c \<Longrightarrow> P c" "\<And>x vs. P (cLPUSH x vs)" "\<And>vs. P (cSADD jk vs)"
    and "lua_all P cont"
  shows "lua_all P (check_job_queues ARGV base n cont)" "lua_all P (push_jobs jk ARGV base n cont)"
proof -
  have arg: "(\<And>x. lua_all P (f x)) \<Longrightarrow> lua_all P (with_arg ARGV i f)" for i f
    by (simp add: with_arg_def)
  show "lua_all P (check_job_queues ARGV base n cont)"
    using assms(4)
  proof (induction n arbitrary: cont)
    case (Suc n)
    show ?case
      unfolding check_job_queues.simps by (intro Suc.IH arg lua_all_reads assms(1) Suc.prems)
  qed simp
  show "lua_all P (push_jobs jk ARGV base n cont)"
    using assms(4)
  proof (induction n arbitrary: cont)
    case (Suc n)
    show ?case
      unfolding push_jobs.simps by (rule Suc.IH) (simp add: arg assms(2,3) Suc.prems)
  qed simp
qed

lemma lua_all_batch_scripts:
  assumes read: "\<And>c. writes c = [] \<Longrightarrow> \<not> enum_cmd c \<Longrightarrow> P c" and push: "\<And>x vs. P (cLPUSH x vs)"
    and wr: "\<And>c i. writes c = [KEYS ! i] \<Longrightarrow> i < 3 \<Longrightarrow> \<not> enum_cmd c \<Longrightarrow> P c"
  shows "lua_all P (batch_callback_complete cj KEYS ARGV)" "lua_all P (batch_enqueue_jobs cj KEYS ARGV)"
    "lua_all P (batch_add_jobs cj KEYS ARGV)" "lua_all P (batch_invalidate cj KEYS ARGV)"
    "lua_all P (batch_add_child cj KEYS ARGV)" "lua_all P (batch_remove_child cj KEYS ARGV)"
proof -
  have keyed: "P (cHINCRBY (KEYS ! 1) f n)" "P (cHSET (KEYS ! 1) fs)" "P (cSADD (KEYS ! 2) vs)" "P (cSREM (KEYS ! 2) v)"
    "P (cPEXPIRE (KEYS ! 1) n)" "P (cPEXPIRE (KEYS ! 2) n)" "P (cEXPIRE (KEYS ! 0) n)" "P (cSADD (KEYS ! 0) vs)"
    for f n fs vs v
    by (auto intro: wr [of _ 0] wr [of _ 1] wr [of _ 2])
  have wr1: "writes c = [KEYS ! 1] \<Longrightarrow> \<not> enum_cmd c \<Longrightarrow> P c" for c
    by (rule wr [of _ 1]) simp_all
  note R = lua_all_reads [where P = P, OF read] lua_all_lindex lua_all_callback lua_all_when_truthy lua_all_when lua_all_tonumber
  note prog = lua_all_progress [where P = P and pk = "KEYS ! 1", OF read wr1]
  have opened: "lua_all P nf \<Longrightarrow> (\<And>t. lua_all P (cont t)) \<Longrightarrow> lua_all P (open_batch cj KEYS nf cont)" for nf cont
    unfolding open_batch_def by (auto simp: read keyed push simp del: One_nat_def intro!: R prog)
  have again: "lua_all P (callback_again cj (KEYS ! 1) par)" "lua_all P (callback_done cj (KEYS ! 1) par)" for par
    unfolding callback_again_def callback_done_def Let_def by (auto simp: read keyed push simp del: One_nat_def intro!: R)
  show "lua_all P (batch_callback_complete cj KEYS ARGV)"
    unfolding batch_callback_complete_def
    by (auto simp: read keyed push simp del: One_nat_def intro!: R prog again)
  show "lua_all P (batch_enqueue_jobs cj KEYS ARGV)"
    unfolding batch_enqueue_jobs_def
    by (auto simp: read keyed push simp del: One_nat_def intro!: R lua_all_counted [where P = P and jk = "KEYS ! 0", OF read push] split: option.splits)
  show "lua_all P (batch_add_jobs cj KEYS ARGV)"
    unfolding batch_add_jobs_def
    by (auto simp: read keyed push simp del: One_nat_def intro!: opened R lua_all_counted [where P = P and jk = "KEYS ! 2", OF read push])
  show "lua_all P (batch_invalidate cj KEYS ARGV)"
    unfolding batch_invalidate_def by (auto simp: read keyed push simp del: One_nat_def intro!: R prog)
  show "lua_all P (batch_add_child cj KEYS ARGV)"
    unfolding batch_add_child_def by (auto simp: read keyed push simp del: One_nat_def intro!: opened R)
  show "lua_all P (batch_remove_child cj KEYS ARGV)"
    unfolding batch_remove_child_def by (auto simp: read keyed push simp del: One_nat_def intro!: opened R)
qed

lemma harmless_write: "writes c = [x] \<Longrightarrow> \<not> payload_key k x \<Longrightarrow> \<not> enum_cmd c \<Longrightarrow> harmless k c"
  by (simp add: harmless_def)

lemma safe_batch_complete: "safe_script good k (batch_complete cj (CompletionKeys k bid) ARGV)"
proof (rule harmless_script, rule lua_all_completion)
  have "\<forall>x\<in>set (CompletionKeys k bid). \<not> payload_key k x"
    by (simp add: CompletionKeys_def)
  moreover have "length (CompletionKeys k bid) = 7"
    by (simp add: CompletionKeys_def)
  ultimately show "harmless k c" if "writes c = [CompletionKeys k bid ! i]" "i < 7" "\<not> enum_cmd c" for c i
    using that nth_mem [of i "CompletionKeys k bid"] by (auto intro: harmless_write)
qed simp_all

lemma safe_batch_scripts:
  assumes "\<forall>x\<in>set KEYS. \<not> payload_key k x" "length KEYS = 3"
  shows "safe_script good k (batch_callback_complete cj KEYS ARGV)" "safe_script good k (batch_add_jobs cj KEYS ARGV)"
    "safe_script good k (batch_invalidate cj KEYS ARGV)" "safe_script good k (batch_add_child cj KEYS ARGV)"
    "safe_script good k (batch_remove_child cj KEYS ARGV)"
proof -
  have wr: "harmless k c" if "writes c = [KEYS ! i]" "i < 3" "\<not> enum_cmd c" for c i
    using that assms nth_mem [of i KEYS] by (auto intro: harmless_write)
  note all = lua_all_batch_scripts [where P = "harmless k" and KEYS = KEYS and ARGV = ARGV and cj = cj,
      OF harmless_read harmless_push(1) wr]
  show "safe_script good k (batch_callback_complete cj KEYS ARGV)" "safe_script good k (batch_add_jobs cj KEYS ARGV)"
    "safe_script good k (batch_invalidate cj KEYS ARGV)" "safe_script good k (batch_add_child cj KEYS ARGV)"
    "safe_script good k (batch_remove_child cj KEYS ARGV)"
    by (simp_all add: harmless_script all)
qed

section \<open>Producers of jobs\<close>

lemma safe_writes:
  "safe_cmd good k (cZADD x ps)" "safe_cmd good k (cLPUSH x vs)"
  "\<not> payload_key k x \<Longrightarrow> safe_cmd good k (cSADD x vs)" "\<not> payload_key k x \<Longrightarrow> safe_cmd good k (cSREM x v)"
  "\<not> payload_key k x \<Longrightarrow> safe_cmd good k (cHSET x fs)" "\<not> payload_key k x \<Longrightarrow> safe_cmd good k (cEXPIRE x n)"
  "\<not> payload_key k x \<Longrightarrow> safe_cmd good k (set_ttl x v t)"
  "\<not> payload_key k x \<Longrightarrow> safe_cmd good k (cLTRIM_TO x m)" "\<forall>x\<in>set xs. \<not> payload_key k x \<Longrightarrow> safe_cmd good k (cDEL xs)"
  "safe_cmd good k (cGET x)" "safe_cmd good k (cTTL x)"
  by (auto intro!: harmless_cmd simp: set_ttl_def harmless_def grows_def)

lemma safe_pipeline_from: "\<forall>c\<in>set cs. safe_cmd good k c \<Longrightarrow> safe_go good k (pipeline_from err cs)"
  by (induction cs arbitrary: err) auto

lemma safe_pipeline: "\<forall>c\<in>set cs. safe_cmd good k c \<Longrightarrow> safe_go good k (pipeline cs)"
  by (simp add: pipeline_def safe_pipeline_from)

lemma lua_all_claiming:
  assumes "\<And>c. writes c = [] \<Longrightarrow> \<not> enum_cmd c \<Longrightarrow> P c"
  shows "lua_all P cont \<Longrightarrow> lua_all P (unless_claimed what key cont)"
    and "P c \<Longrightarrow> lua_all P cont \<Longrightarrow> lua_all P (claim c cont)"
  using assms by (auto simp: unless_claimed_def claim_def)

lemma safe_unique:
  "safe_script good k (enqueue_unique_now [Unique k u, Queues k, Queue k q] ARGV)"
  "safe_script good k (enqueue_unique_at [Unique k u, Scheduled k] ARGV)"
  unfolding enqueue_unique_now_def enqueue_unique_at_def
  by (auto intro!: harmless_script lua_all_claiming [OF harmless_read] lua_all_reads [OF harmless_read] lua_all_tonumber
      simp: harmless_def grows_def)

lemma slot_not_payload [simp]: "\<not> payload_key k (PeriodicLock k name @ s)"
  by (auto simp: payload_key_def key_defs)

lemma safe_periodic_enqueue: "safe_script good k (periodic_enqueue [PeriodicLock k name @ s, Queues k, Queue k q] ARGV)"
  unfolding periodic_enqueue_def
  by (auto intro!: harmless_script lua_all_claiming [OF harmless_read] lua_all_reads [OF harmless_read] lua_all_tonumber
      simp: harmless_def grows_def)

lemma safe_recordHistory: "sc_keys s = k \<Longrightarrow> safe_go good k (recordHistory s job)"
  by (auto simp: recordHistory_def historyKey_def safe_writes intro!: go_all_bind safe_pipeline)

lemma safe_claimAndEnqueue: "sc_keys s = k \<Longrightarrow> safe_go good k (claimAndEnqueue s job now)"
  by (auto simp: claimAndEnqueue_def marshalJob_def periodicSlotKey_def safe_periodic_enqueue split: sum.splits option.splits)

lemma safe_check_jobs: "sc_keys s = k \<Longrightarrow> safe_go good k (check_jobs s now jobs)"
  by (induction jobs) (auto intro!: go_all_bind safe_claimAndEnqueue safe_recordHistory split: sum.splits)

lemma safe_run_ticks: "sc_keys s = k \<Longrightarrow> safe_go good k (run_ticks n s)"
  by (induction n) (auto simp: checkAndEnqueue_def intro!: go_all_bind safe_check_jobs)

lemma safe_periodic_run: "sc_keys s = k \<Longrightarrow> safe_go good k (periodic_run n s)"
  by (auto simp: periodic_run_def checkAndEnqueue_def intro!: go_all_bind safe_check_jobs safe_run_ticks)

end
