(* ===== verification/Retention.thy ===== *)
theory Retention
  imports Safety
begin

text \<open>
  A worker keeps every unfinished job.

  \<open>coherent\<close> relates the job record a worker holds to the payload it was fetched from; the fetch
  establishes it and every step of a finalization keeps it.
\<close>

section \<open>Jobs and their payloads\<close>

definition mine :: "(string \<Rightarrow> string option) \<Rightarrow> string \<Rightarrow> job \<Rightarrow> bool" where
  "mine fl jid j \<longleftrightarrow> job_wf fl j \<and> j_ID j = jid"

definition coherent :: "(string \<Rightarrow> string option) \<Rightarrow> string \<Rightarrow> job \<Rightarrow> bool" where
  "coherent fl jid j \<longleftrightarrow> (\<exists>r. UnmarshalJob fl (j_raw j) = Some r \<and> (mine fl jid r \<longrightarrow> mine fl jid j) \<and>
     (j_finalization j = None \<or> j_finalization j = j_finalization r))"

lemma UnmarshalJob_empty: "UnmarshalJob fl [] = None"
  by (simp add: UnmarshalJob_def json_parse_def)

lemma coherent_raw: "coherent fl jid j \<Longrightarrow> jobPayload j = Inr (j_raw j) \<and> j_raw j \<noteq> []"
  using UnmarshalJob_empty by (auto simp: coherent_def jobPayload_def)

lemma coherent_written:
  assumes "coherent fl jid j" "written fl jid (j_raw j)"
  shows "mine fl jid j" "pred_option fin_ok (j_finalization j)"
proof -
  obtain i where i: "Marshal i = Some (j_raw j)" "job_open fl i" "j_ID i = jid"
    using assms(2) unfolding written_def by blast
  then have "UnmarshalJob fl (j_raw j) = Some (i\<lparr>j_raw := []\<rparr>)"
    using written_decode job_open_wf by blast
  then show "mine fl jid j" "pred_option fin_ok (j_finalization j)"
    using assms(1) i(2,3) by (auto simp: coherent_def mine_def job_open_def)
qed

lemma coherent_fit: "coherent fl jid j \<Longrightarrow> job_fit (written fl jid) fl j"
proof (cases "written fl jid (j_raw j)")
  case False
  assume "coherent fl jid j"
  then show ?thesis
    using coherent_raw [of fl jid j] False by (simp add: job_fit_def)
next
  case True
  assume "coherent fl jid j"
  then show ?thesis
    using coherent_written True written_fit by (simp add: mine_def)
qed

lemma coherent_clear: "coherent fl jid j \<Longrightarrow> coherent fl jid (ClearFinalization j)"
  by (auto simp: coherent_def ClearFinalization_def mine_def)

lemma coherent_updates [simp]:
  "coherent fl jid (j\<lparr>j_Error := e\<rparr>) = coherent fl jid j"
  "coherent fl jid (j\<lparr>j_ProcessedAt := t\<rparr>) = coherent fl jid j"
  by (simp_all add: coherent_def mine_def job_wf_def job_ok_def)

lemma decoded_rewrite:
  assumes "floats fl" "UnmarshalJob fl p = Some r" "Marshal (r\<lparr>j_finalization := f\<rparr>) = Some p'"
  shows "UnmarshalJob fl p' = Some (r\<lparr>j_finalization := f\<rparr>)"
proof -
  have r: "job_ok fl r" "j_raw r = []"
    using decoded_ok [OF assms(1,2)] by auto
  have "job_ok fl (r\<lparr>j_finalization := f\<rparr>)"
    using r(1) by (simp add: job_ok_def)
  then have "UnmarshalJob fl p' = Some (r\<lparr>j_finalization := f, j_raw := []\<rparr>)"
    using unmarshal_marshal [OF assms(3)] by simp
  moreover have "r\<lparr>j_finalization := f, j_raw := []\<rparr> = r\<lparr>j_finalization := f\<rparr>"
    using r(2) by (cases r) simp
  ultimately show ?thesis by simp
qed

lemma coherent_fetched: "UnmarshalJob fl p = Some r \<Longrightarrow> coherent fl jid (SetRaw p r)"
  by (auto simp: coherent_def SetRaw_def mine_def)

lemma coherent_sanitized:
  assumes "floats fl" "UnmarshalJob fl p = Some r" "Marshal (ClearFinalization r) = Some p'"
  shows "coherent fl jid (SetRaw p' (ClearFinalization r))"
  using decoded_rewrite [OF assms(1,2) assms(3) [unfolded ClearFinalization_def]]
  by (auto simp: coherent_def SetRaw_def ClearFinalization_def mine_def)

lemma coherent_marked:
  assumes "floats fl" "coherent fl jid j" "payloadWithFinalization fl (j_raw j) f = Inr p'"
  shows "coherent fl jid (SetRaw p' (SetFinalization f j))"
proof -
  obtain r where r: "UnmarshalJob fl (j_raw j) = Some r" "mine fl jid r \<longrightarrow> mine fl jid j"
    using assms(2) by (auto simp: coherent_def)
  have "Marshal (r\<lparr>j_finalization := Some f\<rparr>) = Some p'"
    using assms(3) r(1) by (auto simp: payloadWithFinalization_def SetFinalization_def split: option.splits)
  from decoded_rewrite [OF assms(1) r(1) this] show ?thesis
    using r(2) by (auto simp: coherent_def SetRaw_def SetFinalization_def mine_def)
qed


section \<open>What a fetch returns\<close>

abbreviation returns :: "('a \<Rightarrow> bool) \<Rightarrow> ('l, 'a) go \<Rightarrow> bool" where
  "returns \<equiv> go_post (\<lambda>_. True) (\<lambda>_. True)"

abbreviation fetched_job :: "(string \<Rightarrow> string option) \<Rightarrow> string \<Rightarrow> job option \<Rightarrow> bool" where
  "fetched_job fl jid j \<equiv> pred_option (coherent fl jid) j"

lemma returns_prepare:
  assumes "floats fl" "UnmarshalJob fl p = Some r"
  shows "returns (\<lambda>(j, e). e = None \<longrightarrow> coherent fl jid j) (prepareFetchedJob k w r p)"
  using coherent_fetched [OF assms(2), of jid] coherent_sanitized [OF assms, of _ jid]
  by (auto simp: prepareFetchedJob_def Let_def trustsFinalization_def
      split: sum.splits bool.splits option.splits rreply.splits)

lemma returns_prepared:
  assumes "floats fl" "UnmarshalJob fl p = Some r"
    and "\<And>j. coherent fl jid j \<Longrightarrow> returns R (g (j, None))" "\<And>j e. returns R (g (j, Some e))"
  shows "returns R (go_bind (prepareFetchedJob k w r p) g)"
proof (rule go_post_bind [OF returns_prepare [where jid = jid, OF assms(1,2)]])
  show "returns R (g x)" if "case x of (j, e) \<Rightarrow> e = None \<longrightarrow> coherent fl jid j" for x
    using that assms(3,4) by (cases x; cases "snd x") auto
qed

lemma returns_queue:
  assumes "floats fl"
  shows "returns (\<lambda>(j, st, e). fetched_job fl jid j) (fetchFromQueueInfo cj fl f w q)"
proof -
  have seq: "returns (\<lambda>(j, st, e). fetched_job fl jid j) (fetchFromSequentialQueue cj fl f w q)"
    unfolding fetchFromSequentialQueue_def
    by (auto simp: releasing_def discardClaimedSequentialPayload_def releaseClaimedSequentialLock_def
        intro!: returns_prepared [OF assms, where jid = jid]
        split: sum.splits option.splits prod.splits queueFetchStatus.splits)
  show ?thesis
    unfolding fetchFromQueueInfo_def
    by (auto intro!: returns_prepared [OF assms, where jid = jid] seq
        split: sum.splits option.splits prod.splits queueFetchStatus.splits)
qed

lemma returns_from_queue:
  assumes "floats fl" "\<And>j st e. fetched_job fl jid j \<Longrightarrow> returns R (g (j, st, e))"
  shows "returns R (go_bind (fetchFromQueueInfo cj fl f w q) g)"
  by (rule go_post_bind [OF returns_queue [OF assms(1), where jid = jid]]) (use assms(2) in auto)

lemma returns_any: "(\<And>x. returns R (g x)) \<Longrightarrow> returns R (go_bind p g)"
  by (rule go_post_bind [where R = "\<lambda>_. True"]) simp_all

lemma returns_loops:
  assumes "floats fl"
  shows "returns (\<lambda>(j, e). fetched_job fl jid j) (fetchWeighted_from m cj fl f w skipped)"
    and "returns (\<lambda>(j, e). fetched_job fl jid j) (fetchStrict_from cj fl f w qs)"
    and "returns (\<lambda>(j, e). fetched_job fl jid j) (blockingFetchFromQueueInfo cj fl f w q n)"
    and "returns (\<lambda>r. \<forall>j e. r = Inl (j, e) \<longrightarrow> fetched_job fl jid j) (select_primary m cj fl f w skipped)"
    and "returns (\<lambda>r. \<forall>j e. r = Inl (j, e) \<longrightarrow> fetched_job fl jid j) (fetch_remaining cj fl f w sel saw skipped qs)"
    and "returns (\<lambda>r. \<forall>j e. r = Inl (j, e) \<longrightarrow> fetched_job fl jid j) (try_all_strict cj fl f w saw qs)"
proof -
  note queue = returns_from_queue [OF assms, where jid = jid]
  show "returns (\<lambda>(j, e). fetched_job fl jid j) (fetchWeighted_from m cj fl f w skipped)"
    by (induction m arbitrary: skipped) (auto intro!: returns_any queue split: option.split)
  show "returns (\<lambda>(j, e). fetched_job fl jid j) (fetchStrict_from cj fl f w qs)"
    by (induction qs) (auto intro!: queue)
  show "returns (\<lambda>(j, e). fetched_job fl jid j) (blockingFetchFromQueueInfo cj fl f w q n)"
    unfolding blockingFetchFromQueueInfo_def waitPollInterval_def by (auto intro!: queue)
  show "returns (\<lambda>r. \<forall>j e. r = Inl (j, e) \<longrightarrow> fetched_job fl jid j) (select_primary m cj fl f w skipped)"
    by (induction m arbitrary: skipped) (auto intro!: returns_any queue split: option.split)
  show "returns (\<lambda>r. \<forall>j e. r = Inl (j, e) \<longrightarrow> fetched_job fl jid j) (fetch_remaining cj fl f w sel saw skipped qs)"
    by (induction qs arbitrary: saw skipped) (auto intro!: queue)
  show "returns (\<lambda>r. \<forall>j e. r = Inl (j, e) \<longrightarrow> fetched_job fl jid j) (try_all_strict cj fl f w saw qs)"
    by (induction qs arbitrary: saw) (auto intro!: queue)
qed

lemma returns_fetch:
  assumes "floats fl"
  shows "returns (\<lambda>(j, e). fetched_job fl jid j) (BlockingFetch cj fl f w n)"
proof -
  note loops = returns_loops [OF assms, where jid = jid]
  have strict: "returns (\<lambda>(j, e). fetched_job fl jid j) (blockingFetchStrict cj fl f w n)"
    unfolding blockingFetchStrict_def waitPollInterval_def
    by (auto intro!: go_post_bind [OF loops(6)] loops(3) split: sum.splits)
  have weighted: "returns (\<lambda>(j, e). fetched_job fl jid j) (blockingFetchWeighted cj fl f w n)"
    unfolding blockingFetchWeighted_def waitPollInterval_def
    by (auto intro!: go_post_bind [OF loops(4)] go_post_bind [OF loops(5)] loops(3) simp del: select_primary.simps
        split: sum.splits)
  have "returns (\<lambda>(j, e). fetched_job fl jid j) (Fetch cj fl f w)"
    unfolding Fetch_def fetchStrict_def fetchWeighted_def by (simp add: loops(1,2) del: fetchWeighted_from.simps)
  then show ?thesis
    unfolding BlockingFetch_def waitPollInterval_def using strict weighted
    by (auto elim!: go_post_bind)
qed

section \<open>Ending a job\<close>

lemma returns_ending:
  "returns (\<lambda>(j, e). e \<noteq> None \<longrightarrow> j = job) (Ack f w job)"
  "returns (\<lambda>(j, e). e \<noteq> None \<longrightarrow> j = job) (NackAt fl f w job t)"
  "returns (\<lambda>(j, e). e \<noteq> None \<longrightarrow> j = job) (Nack fl f w job d)"
  "returns (\<lambda>(j, e). e \<noteq> None \<longrightarrow> j = job) (MoveToDead fl f w job)"
  subgoal by (auto simp: Ack_def split: sum.splits)
  subgoal by (auto simp: NackAt_def Let_def split: sum.splits option.splits)
  subgoal by (auto simp: Nack_def NackAt_def redisNow_def Let_def split: sum.splits option.splits rreply.splits list.splits)
  subgoal by (auto simp: MoveToDead_def split: sum.splits option.splits)
  done

lemma safe_ended:
  assumes "safe_go good k p" "returns (\<lambda>(j, e). e \<noteq> None \<longrightarrow> j = job) p"
    and "\<And>e. safe_go good k (cont job (Some e))" "\<And>j. safe_go good k (cont j None)"
  shows "safe_go good k (go_bind p (\<lambda>(j, e). cont j e))"
proof (rule go_post_all [OF go_all_and_post [OF assms(1,2)]])
  show "safe_go good k (case x of (j, e) \<Rightarrow> cont j e)" if "case x of (j, e) \<Rightarrow> e \<noteq> None \<longrightarrow> j = job" for x
    using that assms(3,4) by (cases x; cases "snd x") auto
qed

lemma safe_RunJSON:
  "safe_script good k p \<Longrightarrow> (\<And>r. safe_go good k (cont r)) \<Longrightarrow> safe_go good k (RunJSON name p dec old cont)"
  by (auto simp: RunJSON_def split: sum.splits option.splits rreply.splits)

lemma safe_updateBatchProgress:
  "(\<And>e. safe_go good k (cont e)) \<Longrightarrow> safe_go good k (updateBatchProgress n cj k i bid res cont)"
  by (induction n arbitrary: i bid res cont)
     (auto intro!: safe_RunJSON safe_batch_complete split: sum.splits option.splits)

lemma safe_handleBatchCallback:
  "(\<And>e. safe_go good k (cont e)) \<Longrightarrow> safe_go good k (handleBatchCallbackComplete n cj k job cont)"
  unfolding handleBatchCallbackComplete_def Let_def
  by (auto intro!: safe_RunJSON safe_batch_scripts safe_updateBatchProgress split: sum.splits)

section \<open>Safe finalizations\<close>

lemma safe_marked:
  assumes "floats fl" "f_keys f = k" "coherent fl jid job"
    and "j_finalization job = None \<Longrightarrow> written fl jid (j_raw job) \<Longrightarrow> fin_ok fin"
  shows "safe_go (written fl jid) k (MarkFinalization fl f w job fin)"
proof (cases "j_finalization job = None")
  case True
  show ?thesis
    by (rule safe_MarkFinalization [OF coherent_fit [OF assms(3)] assms(2)])
       (use assms(4) [OF True] coherent_raw [OF assms(3)] in auto)
qed (simp add: MarkFinalization_def)

lemma returns_marked:
  assumes "coherent fl jid job"
  shows "returns (\<lambda>(j, e). j = job \<or> j_finalization job = None \<and>
      (\<exists>p'. payloadWithFinalization fl (j_raw job) fin = Inr p' \<and> j = SetRaw p' (SetFinalization fin job)))
    (MarkFinalization fl f w job fin)"
  using coherent_raw [OF assms]
  by (auto simp: MarkFinalization_def Let_def split: sum.splits option.splits rreply.splits)

lemma safe_finalizeJob:
  assumes fl: "floats fl" and k: "f_keys f = k"
    and coh: "\<And>j. K j \<Longrightarrow> coherent fl jid j"
    and mark: "\<And>j p'. K j \<Longrightarrow> j_finalization j = None \<Longrightarrow> payloadWithFinalization fl (j_raw j) fin = Inr p' \<Longrightarrow>
      K (SetRaw p' (SetFinalization fin j))"
    and fin: "\<And>j. K j \<Longrightarrow> j_finalization j = None \<Longrightarrow> written fl jid (j_raw j) \<Longrightarrow> fin_ok fin"
    and work: "\<And>j cont. K j \<Longrightarrow> (\<And>e. safe_go (written fl jid) k (cont j (Some e))) \<Longrightarrow>
      (\<And>j'. safe_go (written fl jid) k (cont j' None)) \<Longrightarrow> safe_go (written fl jid) k (fn j cont)"
    and job: "K job"
  shows "safe_go (written fl jid) k (finalizeJob n fl f w job fin fn)"
  using job
proof (induction n arbitrary: job)
  case (Suc n)
  have again: "safe_go (written fl jid) k (Wait jobFinalizationRetryInterval (\<lambda>ticked.
      if ticked then finalizeJob n fl f w j fin fn else Done WDone))" if "K j" for j
    using Suc.IH [OF that] by simp
  have attempt: "safe_go (written fl jid) k (fn j (\<lambda>job err. case err of None \<Rightarrow> Done WDone
      | Some _ \<Rightarrow> Wait jobFinalizationRetryInterval (\<lambda>ticked.
          if ticked then finalizeJob n fl f w job fin fn else Done WDone)))" if "K j" for j
    by (rule work [OF that]) (use again [OF that] in auto)
  have "safe_go (written fl jid) k (MarkFinalization fl f w job fin)"
    by (rule safe_marked [OF fl k coh [OF Suc.prems] fin [OF Suc.prems]])
  moreover note returns_marked [OF coh [OF Suc.prems], of fin f w]
  ultimately have post: "go_post (safe_script (written fl jid) k) (safe_cmd (written fl jid) k) (\<lambda>(j, e). K j)
      (MarkFinalization fl f w job fin)"
    by (rule go_post_weaken [OF go_all_and_post]) (use mark Suc.prems in auto)
  show ?case
    unfolding finalizeJob.simps Let_def
    using attempt [OF Suc.prems]
    by (auto intro!: go_post_all [OF post] Suc.IH attempt split: option.splits)
qed simp

text \<open>The job is not the one to keep, or its payload already says that it is finished.\<close>

definition dropped :: "(string \<Rightarrow> string option) \<Rightarrow> string \<Rightarrow> job \<Rightarrow> bool" where
  "dropped fl jid j \<longleftrightarrow> \<not> mine fl jid j \<or> (\<exists>f. j_finalization j = Some f \<and> \<not> fin_ok f)"

lemma dropped_not_written: "coherent fl jid j \<Longrightarrow> dropped fl jid j \<Longrightarrow> \<not> written fl jid (j_raw j)"
  using coherent_written by (fastforce simp: dropped_def)

lemma dropped_mark: "dropped fl jid j \<Longrightarrow> j_finalization j = None \<Longrightarrow> dropped fl jid (SetRaw p (SetFinalization f j))"
  by (auto simp: dropped_def mine_def SetRaw_def SetFinalization_def)

definition worker_ok :: "keys \<Rightarrow> ('i, 'item, 'x) worker \<Rightarrow> bool" where
  "worker_ok k w \<longleftrightarrow> w_keys w = k \<and> f_keys (w_fetcher w) = k \<and> fetcher_ok (w_fetcher w) \<and>
     (\<forall>s. w_periodic w = Some s \<longrightarrow> sc_keys s = k)"

lemma newFetcher_keys [simp]: "f_keys (newFetcherWithSequentialLockTTL k qs poll strict ttl) = k"
  by (simp add: newFetcherWithSequentialLockTTL_def Let_def)

lemma worker_New_ok: "worker_ok (keys_New ns) (worker_New ns host pid uuid settings decrypt stack)"
  by (simp add: worker_ok_def worker_New_def Let_def newFetcher_ok NewScheduler_def WithPollInterval_def)

lemma zero_time_neg: "0 < t \<Longrightarrow> t \<noteq> zero_time"
  by (simp add: zero_time_def)

lemma coherent_not_written_Ack:
  assumes "coherent fl jid j" "dropped fl jid j" "f_keys f = k"
  shows "safe_go (written fl jid) k (Ack f w j)" "d \<le> 0 \<Longrightarrow> safe_go (written fl jid) k (Nack fl f w j d)"
proof -
  have no: "\<not> written fl jid p" if "jobPayload j = Inr p" for p
    using that coherent_raw [OF assms(1)] dropped_not_written [OF assms(1,2)] by simp
  show "safe_go (written fl jid) k (Ack f w j)"
    by (rule safe_Ack [OF no assms(3)])
  show "safe_go (written fl jid) k (Nack fl f w j d)" if "d \<le> 0"
    using that no assms(3) safe_ack [where us = "[]" and k = k and good = "written fl jid"]
    by (auto simp: Nack_def split: sum.splits)
qed

lemma safe_completeJob:
  assumes "floats fl" "worker_ok k w" "coherent fl jid job" "dropped fl jid job"
  shows "safe_go (written fl jid) k (completeJob n cj fl w job)"
  unfolding completeJob_def
proof (rule safe_finalizeJob [where K = "\<lambda>j. coherent fl jid j \<and> dropped fl jid j", OF assms(1)])
  have k: "w_keys w = k" "f_keys (w_fetcher w) = k"
    using assms(2) by (simp_all add: worker_ok_def)
  show "f_keys (w_fetcher w) = k"
    by (rule k)
  show "safe_go (written fl jid) k (complete_work n cj (w_fetcher w) (w_keys w) (w_id w) j cont)"
    if "coherent fl jid j \<and> dropped fl jid j" "\<And>e. safe_go (written fl jid) k (cont j (Some e))"
      "\<And>j'. safe_go (written fl jid) k (cont j' None)" for j cont
    unfolding complete_work_def k(1)
    by (auto intro!: safe_updateBatchProgress safe_handleBatchCallback safe_ended [OF _ returns_ending(1)]
        coherent_not_written_Ack that k split: option.split simp: that(1))
qed (use assms dropped_not_written coherent_marked dropped_mark in auto)

lemma safe_finalizeRetryJob:
  assumes "floats fl" "worker_ok k w" "coherent fl jid job"
  shows "t \<noteq> zero_time \<Longrightarrow> safe_go (written fl jid) k (finalizeRetryJob n cj fl w job t d)"
    and "dropped fl jid job \<Longrightarrow> d \<le> 0 \<Longrightarrow> safe_go (written fl jid) k (finalizeRetryJob n cj fl w job zero_time d)"
proof -
  have k: "w_keys w = k" "f_keys (w_fetcher w) = k"
    using assms(2) by (simp_all add: worker_ok_def)
  show "safe_go (written fl jid) k (finalizeRetryJob n cj fl w job t d)" if t: "t \<noteq> zero_time"
    unfolding finalizeRetryJob_def
  proof (rule safe_finalizeJob [where K = "coherent fl jid", OF assms(1) k(2)])
    show "safe_go (written fl jid) k (retry_work n cj fl (w_fetcher w) (w_keys w) (w_id w) t d j cont)"
      if "coherent fl jid j" "\<And>e. safe_go (written fl jid) k (cont j (Some e))"
        "\<And>j'. safe_go (written fl jid) k (cont j' None)" for j cont
      unfolding retry_work_def k(1) using t
      by (auto intro!: safe_updateBatchProgress safe_ended [OF _ returns_ending(2)] safe_NackAt coherent_fit that k
          split: option.split)
  qed (use assms coherent_marked t in \<open>auto simp: fin_ok_def finalization_of_def\<close>)
  show "safe_go (written fl jid) k (finalizeRetryJob n cj fl w job zero_time d)" if "dropped fl jid job" "d \<le> 0"
    unfolding finalizeRetryJob_def
  proof (rule safe_finalizeJob [where K = "\<lambda>j. coherent fl jid j \<and> dropped fl jid j", OF assms(1) k(2)])
    show "safe_go (written fl jid) k (retry_work n cj fl (w_fetcher w) (w_keys w) (w_id w) zero_time d j cont)"
      if j: "coherent fl jid j \<and> dropped fl jid j" "\<And>e. safe_go (written fl jid) k (cont j (Some e))"
        "\<And>j'. safe_go (written fl jid) k (cont j' None)" for j cont
      unfolding retry_work_def k(1)
      by (auto intro!: safe_updateBatchProgress safe_ended [OF _ returns_ending(3)] coherent_not_written_Ack(2) j(2,3) k
          \<open>d \<le> 0\<close> split: option.split simp: j(1))
  qed (use assms that dropped_not_written coherent_marked dropped_mark in auto)
qed

lemma safe_killJob:
  assumes "floats fl" "worker_ok k w" "coherent fl jid job"
  shows "safe_go (written fl jid) k (killJob n cj fl w job e)"
  unfolding killJob_def Let_def
proof (rule safe_finalizeJob [where K = "coherent fl jid", OF assms(1)])
  have k: "w_keys w = k" "f_keys (w_fetcher w) = k"
    using assms(2) by (simp_all add: worker_ok_def)
  show "f_keys (w_fetcher w) = k"
    by (rule k)
  show "safe_go (written fl jid) k (kill_work n cj fl (w_fetcher w) (w_keys w) (w_id w) j cont)"
    if "coherent fl jid j" "\<And>e. safe_go (written fl jid) k (cont j (Some e))"
      "\<And>j'. safe_go (written fl jid) k (cont j' None)" for j cont
    unfolding kill_work_def k(1)
    by (auto intro!: safe_updateBatchProgress safe_handleBatchCallback safe_ended [OF _ returns_ending(4)]
        safe_MoveToDead coherent_fit that k split: option.split)
qed (use assms coherent_marked in \<open>auto simp: fin_ok_def finalization_of_def\<close>)

lemma safe_retryJob:
  assumes "floats fl" "worker_ok k w" "coherent fl jid job" "0 < d \<or> dropped fl jid job"
  shows "safe_go (written fl jid) k (retryJob n cj fl w job d)"
proof (cases "0 < d")
  case True
  have "safe_go (written fl jid) k (retryJobIn_loop m n cj fl w job d)" for m
    using True by (induction m)
      (auto simp: retryJobAt_def intro!: safe_redisNow safe_finalizeRetryJob(1) [OF assms(1-3)] zero_time_neg)
  then show ?thesis
    using True by (simp add: retryJob_def retryJobIn_def)
next
  case False
  then show ?thesis
    using assms(4) safe_finalizeRetryJob(2) [OF assms(1-3)] by (simp add: retryJob_def)
qed

lemma safe_resume:
  assumes "floats fl" "worker_ok k w" "coherent fl jid job"
  shows "safe_go (written fl jid) k (resumeFinalizedJob n cj fl w job)"
proof (cases "j_finalization job")
  case (Some f)
  have "\<not> fin_ok f \<Longrightarrow> dropped fl jid job"
    using Some by (auto simp: dropped_def)
  then show ?thesis
    using Some assms
    by (auto simp: resumeFinalizedJob_def retryJobAt_def fin_ok_def
        intro!: safe_completeJob safe_retryJob safe_killJob safe_finalizeRetryJob(1) coherent_clear)
qed (simp add: resumeFinalizedJob_def)


section \<open>Handlers\<close>

text \<open>
  What a handler does to keep the job: its own requests are safe, and for the job itself it neither
  reports success nor asks for a retry without a delay.
\<close>

definition result_ok :: "(string \<Rightarrow> string option) \<Rightarrow> string \<Rightarrow> job \<Rightarrow> hres \<Rightarrow> bool" where
  "result_ok fl jid j r \<longleftrightarrow> coherent fl jid j \<and> (mine fl jid j \<longrightarrow> (case r of
     HOk \<Rightarrow> False | HErr e \<Rightarrow> (\<forall>d. as_retryable e = Some d \<longrightarrow> 0 < d) | _ \<Rightarrow> True))"

definition keeps_job :: "(string \<Rightarrow> string option) \<Rightarrow> string \<Rightarrow> keys \<Rightarrow> ('l, job \<times> hres) go \<Rightarrow> bool" where
  "keeps_job fl jid k p \<longleftrightarrow> go_post (safe_script (written fl jid) k) (safe_cmd (written fl jid) k) (\<lambda>(j, r). result_ok fl jid j r) p"

definition handler_keeps :: "(string \<Rightarrow> string option) \<Rightarrow> string \<Rightarrow> keys \<Rightarrow> ('c, 'l) handler \<Rightarrow> bool" where
  "handler_keeps fl jid k h \<longleftrightarrow> (\<forall>ctx j. coherent fl jid j \<longrightarrow> keeps_job fl jid k (h ctx j))"

definition middleware_keeps :: "(string \<Rightarrow> string option) \<Rightarrow> string \<Rightarrow> keys \<Rightarrow> ('c, 'l) middleware \<Rightarrow> bool" where
  "middleware_keeps fl jid k m \<longleftrightarrow> (\<forall>h. handler_keeps fl jid k h \<longrightarrow> handler_keeps fl jid k (m h))"

text \<open>A limiter whose requests are safe and whose errors ask for no retry.\<close>

definition acquirer_ok :: "(string \<Rightarrow> bool) \<Rightarrow> keys \<Rightarrow> 'l acquirer \<Rightarrow> bool" where
  "acquirer_ok good k a \<longleftrightarrow> go_post (safe_script good k) (safe_cmd good k) (\<lambda>r. case r of
     None \<Rightarrow> True
   | Some (Inl e) \<Rightarrow> as_retryable e = None
   | Some (Inr (lease, w)) \<Rightarrow> (\<forall>release. lease = Some release \<longrightarrow>
       go_post (safe_script good k) (safe_cmd good k) (\<lambda>e. \<forall>x. e = Some x \<longrightarrow> as_retryable x = None) release)) (aq_Acquire a)"

lemma keeps_done [simp]: "keeps_job fl jid k (Done (j, r)) \<longleftrightarrow> result_ok fl jid j r"
  by (simp add: keeps_job_def)

lemma keeps_bind:
  assumes "keeps_job fl jid k p" "\<And>j r. result_ok fl jid j r \<Longrightarrow> keeps_job fl jid k (g (j, r))"
  shows "keeps_job fl jid k (go_bind p g)"
  unfolding keeps_job_def
  by (rule go_post_bind [OF assms(1) [unfolded keeps_job_def]]) (use assms(2) in \<open>auto simp: keeps_job_def\<close>)

lemma as_retryable_simps [simp]:
  "as_retryable (Plain s) = None" "as_retryable (Wrap s e) = as_retryable e" "as_retryable CtxErr = None"
  "as_retryable (JobNotFoundError s) = None" "as_retryable (RetryableError i e d) = Some d"
  "as_retryable InterruptedError = None"
  "as_retryable (Joined a b) = (case as_retryable a of Some d \<Rightarrow> Some d | None \<Rightarrow> as_retryable b)"
  unfolding as_retryable_def by (subst find_error.simps, simp split: option.split)+

lemma recovery_keeps: "middleware_keeps fl jid k (RecoveryMiddleware stack)"
  unfolding middleware_keeps_def handler_keeps_def RecoveryMiddleware_def
  by (auto intro!: keeps_bind simp: result_ok_def split: hres.splits)

lemma timeout_keeps: "middleware_keeps fl jid k (TimeoutMiddleware d)"
  by (simp add: middleware_keeps_def handler_keeps_def TimeoutMiddleware_def)

lemma releasing_keeps:
  assumes "keeps_job fl jid k p"
    and "go_post (safe_script (written fl jid) k) (safe_cmd (written fl jid) k)
      (\<lambda>e. \<forall>x. e = Some x \<longrightarrow> as_retryable x = None) release"
  shows "keeps_job fl jid k (releasing_lease release p)"
proof -
  have ok: "result_ok fl jid j r \<Longrightarrow> \<forall>x. e = Some x \<longrightarrow> as_retryable x = None \<Longrightarrow>
      result_ok fl jid j (with_release_error r e)" for j r e
    by (cases r; cases e) (auto simp: result_ok_def split: option.splits)
  show ?thesis
    unfolding releasing_lease_def
    by (rule keeps_bind [OF assms(1)])
       (auto simp: keeps_job_def intro!: go_post_bind [OF assms(2)] ok)
qed

lemma reschedule_keeps:
  assumes "acquirer_ok (written fl jid) k a" "handler_keeps fl jid k h"
  shows "handler_keeps fl jid k (RateLimitMiddlewareWithReschedule a h)"
  unfolding handler_keeps_def
proof (intro allI impI)
  fix ctx j
  assume j: "coherent fl jid j"
  have run: "keeps_job fl jid k (h ctx j)"
    using assms(2) j by (simp add: handler_keeps_def)
  have panic: "keeps_job fl jid k (go_bind (h ctx j) (\<lambda>(j, r). Done (j, if r = HRunning then r else HPanic v)))" for v
    by (rule keeps_bind [OF run]) (auto simp: result_ok_def)
  have wait: "result_ok fl jid j (HErr (RetryableError i e d))" if "0 < d" for i e d
    using that j by (simp add: result_ok_def)
  have fail: "result_ok fl jid j (HErr e)" if "as_retryable e = None" for e
    using that j by (simp add: result_ok_def)
  have running: "result_ok fl jid j HRunning"
    using j by (simp add: result_ok_def)
  show "keeps_job fl jid k (RateLimitMiddlewareWithReschedule a h ctx j)"
    unfolding RateLimitMiddlewareWithReschedule_def keeps_job_def
    by (rule go_post_bind [OF assms(1) [unfolded acquirer_ok_def]], unfold keeps_job_def [symmetric])
       (auto simp: wait fail running intro!: releasing_keeps [OF run] panic split: sum.splits option.splits)
qed

lemma encryption_keeps:
  assumes "\<And>a b. args_ok fl a \<Longrightarrow> decrypt a = Inr b \<Longrightarrow> args_ok fl b" "\<And>a e. decrypt a = Inl e \<Longrightarrow> as_retryable e = None"
  shows "middleware_keeps fl jid k (encryptionMiddleware decrypt)"
proof -
  have "coherent fl jid (j\<lparr>j_Args := b, j_Encrypted := c\<rparr>)"
    if "coherent fl jid j" "decrypt (j_Args j) = Inr b" for j b c
    using that assms(1) [of "j_Args j" b] by (auto simp: coherent_def mine_def job_wf_def job_ok_def)
  then show ?thesis
    using assms(2) unfolding middleware_keeps_def handler_keeps_def encryptionMiddleware_def
    by (auto simp: result_ok_def split: sum.splits)
qed

lemma chain_keeps:
  "\<forall>m\<in>set ms. middleware_keeps fl jid k m \<Longrightarrow> handler_keeps fl jid k h \<Longrightarrow> handler_keeps fl jid k (Chain ms h)"
  by (induction ms arbitrary: h) (auto simp: Chain_def middleware_keeps_def)

lemma decorate_keeps:
  assumes "handler_keeps fl jid k h" "\<forall>m\<in>set ms. middleware_keeps fl jid k m"
    and "\<And>a. limiter = Some a \<Longrightarrow> acquirer_ok (written fl jid) k a"
  shows "handler_keeps fl jid k (decorate t limiter ms h)"
proof -
  have "handler_keeps fl jid k (if t > 0 then TimeoutMiddleware t h else h)"
    using assms(1) timeout_keeps [unfolded middleware_keeps_def, rule_format, OF assms(1)] by simp
  then have "handler_keeps fl jid k (case limiter of
      Some l \<Rightarrow> RateLimitMiddlewareWithReschedule l (if t > 0 then TimeoutMiddleware t h else h)
    | None \<Rightarrow> if t > 0 then TimeoutMiddleware t h else h)"
    using reschedule_keeps assms(3) by (auto split: option.splits)
  then show ?thesis
    using chain_keeps [OF assms(2)] by (simp add: decorate_def Let_def)
qed

section \<open>Running one job\<close>

definition options_ok :: "'l JobOptions option \<Rightarrow> bool" where
  "options_ok opts \<longleftrightarrow> (\<forall>o' b n. opts = Some o' \<longrightarrow> jo_RetryBackoff o' = Some b \<longrightarrow> 0 < b n)"

definition registry_keeps :: "(string \<Rightarrow> string option) \<Rightarrow> string \<Rightarrow> keys \<Rightarrow> int \<Rightarrow>
    ('c, 'i, 'item, 'x worker_locals_scheme) handlerRegistry \<Rightarrow> bool" where
  "registry_keeps fl jid k runtime r \<longleftrightarrow>
     (\<forall>m\<in>set (hr_middleware r). middleware_keeps fl jid k m) \<and>
     (\<forall>t e. hr_handlers r t = Some e \<longrightarrow> handler_keeps fl jid k (he_handler e) \<and> options_ok (he_options e) \<and>
        (\<forall>a. Option.bind (he_options e) jo_RateLimiter = Some a \<longrightarrow> acquirer_ok (written fl jid) k a)) \<and>
     (\<forall>t h o'. hr_iterableHandlers r t = Some (h, Some o') \<longrightarrow>
        (\<forall>n. handler_keeps fl jid k (processIterable n k runtime h o')) \<and>
        (\<forall>b n. io_RetryBackoff o' = Some b \<longrightarrow> 0 < b n) \<and>
        (\<forall>a. io_RateLimiter o' = Some a \<longrightarrow> acquirer_ok (written fl jid) k a))"

lemma default_backoff_pos: "0 < DefaultBackoff n"
  using default_backoff_bounds(1) [of n] by (simp add: Second_def)

lemma safe_requeued: "coherent fl jid j \<Longrightarrow> worker_ok k w \<Longrightarrow>
    safe_go (written fl jid) k (fetcher_requeue fl (w_fetcher w) (w_id w) j)"
  by (rule safe_requeue [OF coherent_fit]) (simp_all add: worker_ok_def)

lemma safe_handleJobResult:
  assumes "floats fl" "worker_ok k w" "coherent fl jid job"
    and res: "\<And>e d. err = Some e \<Longrightarrow> mine fl jid job \<Longrightarrow> as_retryable e = Some d \<Longrightarrow> 0 < d"
      "err = None \<Longrightarrow> \<not> mine fl jid job"
    and opts: "options_ok opts"
    and int: "\<And>p. onInterrupted = Some p \<Longrightarrow> safe_go (written fl jid) k p"
  shows "safe_go (written fl jid) k (handleJobResult n cj fl w job err opts onInterrupted)"
proof -
  have backoff: "0 < b" if "calculateRetryBackoff job opts = (b, r)" for b r
    using that opts default_backoff_pos
    by (auto simp: calculateRetryBackoff_def Let_def options_ok_def split: option.splits bind_splits)
  have drop: "\<not> mine fl jid job \<Longrightarrow> dropped fl jid job"
    by (simp add: dropped_def)
  have retry: "0 < d \<or> \<not> mine fl jid job \<Longrightarrow> safe_go (written fl jid) k (retryJob n cj fl w job d)" for d
    using safe_retryJob [OF assms(1-3)] drop by blast
  show ?thesis
  proof (cases err)
    case None
    then show ?thesis
      using safe_completeJob [OF assms(1-3)] drop res(2) by (simp add: handleJobResult_def)
  next
    case (Some e)
    have "safe_go (written fl jid) k (retryJob n cj fl w job d)" if "as_retryable e = Some d" for d
      using retry res(1) Some that by blast
    then show ?thesis
      using Some int retry backoff safe_killJob [OF assms(1-3)]
      by (auto simp: handleJobResult_def split: option.splits prod.splits if_splits)
  qed
qed

lemma safe_on_result:
  assumes "result_ok fl jid j r"
    and "\<And>err. coherent fl jid j \<Longrightarrow> (\<And>e d. err = Some e \<Longrightarrow> mine fl jid j \<Longrightarrow> as_retryable e = Some d \<Longrightarrow> 0 < d) \<Longrightarrow>
      (err = None \<Longrightarrow> \<not> mine fl jid j) \<Longrightarrow> safe_go (written fl jid) k (cont err)"
  shows "safe_go (written fl jid) k (on_result r cont)"
  using assms(1) by (cases r) (auto simp: on_result_def result_ok_def intro!: assms(2))

lemma safe_keeps_bind:
  assumes "keeps_job fl jid k p" "\<And>j r. result_ok fl jid j r \<Longrightarrow> safe_go (written fl jid) k (g (j, r))"
  shows "safe_go (written fl jid) k (go_bind p g)"
  by (rule go_post_all [OF assms(1) [unfolded keeps_job_def]]) (use assms(2) in auto)

lemma safe_processIterableJob:
  assumes "floats fl" "worker_ok k w" "registry_keeps fl jid k (IterableMaxRuntime (w_settings w)) (w_handlers w)"
    and "coherent fl jid job" "GetIterable (w_handlers w) t = Some (h, opts)"
  shows "safe_go (written fl jid) k (processIterableJob n cj fl w ctx job h opts)"
proof -
  note reg = assms(3) [unfolded registry_keeps_def]
  have get: "hr_iterableHandlers (w_handlers w) t = Some (h, opts)"
    using assms(5) by (simp add: GetIterable_def)
  let ?run = "IterableMaxRuntime (w_settings w)"
  let ?h = "\<lambda>ctx job. case opts of Some o' \<Rightarrow> processIterable n (w_keys w) ?run h o' ctx job
     | None \<Rightarrow> Done (job, HPanic ''nil pointer dereference'')"
  have k: "w_keys w = k"
    using assms(2) by (simp add: worker_ok_def)
  have "handler_keeps fl jid k ?h"
  proof (cases opts)
    case None
    then show ?thesis
      by (simp add: handler_keeps_def result_ok_def)
  next
    case (Some o')
    then show ?thesis
      using reg get k by (simp add: handler_keeps_def)
  qed
  then have "handler_keeps fl jid k (decorate (case opts of Some o' \<Rightarrow> io_Timeout o' | None \<Rightarrow> 0)
      (Option.bind opts io_RateLimiter) (middlewareChain (w_handlers w)) ?h)"
    by (rule decorate_keeps) (use reg get in \<open>auto simp: middlewareChain_def split: bind_splits\<close>)
  then have run: "keeps_job fl jid k (decorate (case opts of Some o' \<Rightarrow> io_Timeout o' | None \<Rightarrow> 0)
      (Option.bind opts io_RateLimiter) (middlewareChain (w_handlers w)) ?h ctx (job\<lparr>j_ProcessedAt := t\<rparr>))" for t
    using assms(4) by (simp add: handler_keeps_def)
  have opts: "options_ok (Some (iterableRetryOptions j opts))" for j
    using reg get default_backoff_pos
    by (auto simp: options_ok_def iterableRetryOptions_def split: option.splits bind_splits)
  show ?thesis
    unfolding processIterableJob_def Let_def
    by (auto intro!: safe_keeps_bind [OF run] safe_on_result safe_handleJobResult [OF assms(1,2)] opts go_all_bind
        safe_requeued [OF _ assms(2)])
qed


lemma process_keeps:
  assumes "registry_keeps fl jid k run r" "coherent fl jid job"
  shows "go_post (safe_script (written fl jid) k) (safe_cmd (written fl jid) k)
    (\<lambda>(opts, j, res). options_ok opts \<and> result_ok fl jid j res) (process r ctx job)"
proof (cases "hr_handlers r (j_Type job)")
  case None
  then show ?thesis
    using assms(2) by (simp add: process_def options_ok_def result_ok_def)
next
  case (Some entry)
  note reg = assms(1) [unfolded registry_keeps_def]
  let ?h = "decorate (case he_options entry of Some o' \<Rightarrow> jo_Timeout o' | None \<Rightarrow> 0)
      (Option.bind (he_options entry) jo_RateLimiter) (hr_middleware r) (he_handler entry)"
  have "handler_keeps fl jid k ?h"
    by (rule decorate_keeps) (use reg Some in auto)
  then have run: "keeps_job fl jid k (?h ctx (job\<lparr>j_ProcessedAt := t\<rparr>))" for t
    using assms(2) by (simp add: handler_keeps_def)
  have opts: "options_ok (he_options entry)"
    using reg Some by blast
  have ctx: "result_ok fl jid job (HErr CtxErr)"
    using assms(2) by (simp add: result_ok_def)
  define h where "h = ?h"
  have run': "go_post (safe_script (written fl jid) k) (safe_cmd (written fl jid) k) (\<lambda>(j, r). result_ok fl jid j r)
      (h ctx (job\<lparr>j_ProcessedAt := t\<rparr>))" for t
    using run by (simp add: keeps_job_def h_def)
  show ?thesis
    unfolding process_def Some option.case Let_def h_def [symmetric]
    by (cases "he_sema entry") (auto intro!: go_post_bind [OF run'] simp: opts ctx)
qed

lemma redis_error_plain: "redis_error e \<Longrightarrow> as_retryable e = None"
  unfolding as_retryable_def by (subst find_error.simps) (auto simp: redis_error_def split: goerr.splits)

lemma safe_verified:
  assumes "\<And>e. as_retryable e = None \<Longrightarrow> safe_go good k (cont (Inl e))" "\<And>c. safe_go good k (cont (Inr c))"
  shows "safe_go good k (contextWithVerifiedBatchHandle k job cont)"
  using assms by (auto simp: contextWithVerifiedBatchHandle_def harmless_cmd redis_error_plain split: sum.splits)

lemma safe_dispatchJob:
  assumes "floats fl" "worker_ok k w" "registry_keeps fl jid k (IterableMaxRuntime (w_settings w)) (w_handlers w)"
    and "coherent fl jid job"
  shows "safe_go (written fl jid) k (dispatchJob n cj fl w job)"
proof -
  have k: "w_keys w = k"
    using assms(2) by (simp add: worker_ok_def)
  have failed: "safe_go (written fl jid) k (handleJobResult n cj fl w job (Some e) None None)"
    if "as_retryable e = None" for e
    by (rule safe_handleJobResult [OF assms(1,2,4)]) (use that in \<open>simp_all add: options_ok_def\<close>)
  have handled: "safe_go (written fl jid) k (case x of (opts, job, r) \<Rightarrow>
      on_result r (\<lambda>err. handleJobResult n cj fl w job err opts None))"
    if "case x of (opts, j, res) \<Rightarrow> options_ok opts \<and> result_ok fl jid j res" for x
  proof (cases x)
    case (fields opts j r)
    then show ?thesis
      using that by (auto intro!: safe_on_result safe_handleJobResult [OF assms(1,2)])
  qed
  have "safe_go (written fl jid) k (go_bind (process (w_handlers w) ctx job) (\<lambda>(opts, job, r).
      on_result r (\<lambda>err. handleJobResult n cj fl w job err opts None)))" for ctx
    by (rule go_post_all [OF process_keeps [OF assms(3,4)]]) (rule handled)
  then show ?thesis
    unfolding dispatchJob_def k
    by (auto intro!: safe_resume [OF assms(1,2,4)] safe_verified safe_processIterableJob [OF assms] failed
        split: option.split)
qed


section \<open>The goroutines of a worker\<close>

lemma safe_processJob:
  assumes "floats fl" "worker_ok k w" "registry_keeps fl jid k (IterableMaxRuntime (w_settings w)) (w_handlers w)"
    and "coherent fl jid job"
  shows "safe_go (written fl jid) k (processJob n cj fl w job)"
  unfolding processJob_def
  by (auto intro!: go_all_bind safe_dispatchJob [OF assms] safe_release) (use assms(2) in \<open>simp_all add: worker_ok_def\<close>)

lemma safe_workerLoop:
  assumes "floats fl" "worker_ok k w" "registry_keeps fl jid k (IterableMaxRuntime (w_settings w)) (w_handlers w)"
  shows "safe_go (written fl jid) k (workerLoop m n std_cjson fl w)"
proof (induction m)
  case (Suc m)
  have "safe_go (written fl jid) k (BlockingFetch std_cjson fl (w_fetcher w) (w_id w) (workerBlockTimeout (w_settings w)))"
    by (rule written.safe_BlockingFetch) (use assms(2) in \<open>simp_all add: worker_ok_def\<close>)
  then have fetch: "go_post (safe_script (written fl jid) k) (safe_cmd (written fl jid) k) (\<lambda>(j, e). fetched_job fl jid j)
      (BlockingFetch std_cjson fl (w_fetcher w) (w_id w) (workerBlockTimeout (w_settings w)))"
    by (rule go_all_and_post [OF _ returns_fetch [OF assms(1)]])
  show ?case
    unfolding workerLoop.simps
    by (auto intro!: go_post_all [OF fetch] Suc go_all_bind safe_processJob [OF assms] split: option.splits)
qed simp

lemma safe_ticker:
  "safe_go good k p \<Longrightarrow> safe_go good k c \<Longrightarrow> safe_go good k (ticker_loop n d p c)"
  by (induction n) (auto intro!: go_all_bind)

lemma safe_heartbeat:
  assumes "worker_ok k w"
  shows "safe_go good k (heartbeat n w)"
proof -
  have "harmless k (cHSET (Workers k) fs)" "harmless k (cHDEL (Workers k) f)" for fs f
    by (simp_all add: harmless_def)
  then show ?thesis
    using assms unfolding heartbeat_def recordHeartbeat_def removeHeartbeat_def worker_ok_def
    by (auto intro!: safe_ticker harmless_cmd)
qed

lemma safe_renewer: "worker_ok k w \<Longrightarrow> safe_go good k (sequentialLockRenewer n w)"
  unfolding sequentialLockRenewer_def Let_def
  by (auto simp: worker_ok_def intro!: safe_ticker go_all_bind safe_Renew)

lemma safe_enqueueFromZSet:
  assumes "z \<in> {Scheduled k, Retry k}" "\<And>e. safe_go (written fl jid) k (cont e)"
  shows "safe_go (written fl jid) k (enqueueFromZSet n std_cjson k z cont)"
  using assms(2) written.safe_moving(2) [where limit = 100, OF assms(1)]
  by (induction n) (auto split: sum.splits rreply.splits)

lemma safe_scheduler: "worker_ok k w \<Longrightarrow> safe_go (written fl jid) k (scheduler n std_cjson w)"
  unfolding scheduler_def Let_def
  by (auto simp: worker_ok_def intro!: safe_ticker safe_enqueueFromZSet)

lemma safe_remove_stale: "safe_go good k cont \<Longrightarrow> safe_go good k (remove_stale k ids cont)"
  by (induction ids) (auto intro!: harmless_cmd simp: harmless_def)

text \<open>The scan returns in-flight lists only, when the namespace has no character of a pattern.\<close>

lemma inflight_pattern:
  assumes "list_all plain_char (InFlight k [])" "glob (InFlight k ''*'') key"
  shows "\<exists>w. key = InFlight k w"
proof -
  have "glob (InFlight k [] @ ''*'') key"
    using assms(2) by (simp add: key_defs)
  then obtain t where "key = InFlight k [] @ t"
    using glob_prefix [OF assms(1)] by blast
  then show ?thesis
    by (metis key_prefixes(2))
qed

lemma safe_reap_keys:
  assumes "\<forall>key\<in>set ks. \<exists>w. key = InFlight k w" "safe_go (written fl jid) k cont"
  shows "safe_go (written fl jid) k (reap_keys std_cjson k active ks cont)"
  using assms written.safe_moving(3) by (induction ks) auto

lemma safe_reap_pages:
  assumes "list_all plain_char (InFlight k [])"
  shows "safe_go (written fl jid) k (reap_pages m std_cjson k active)"
  using inflight_pattern [OF assms]
  by (induction m) (auto simp: scan_ok_def list_all_iff intro!: safe_reap_keys split: sum.splits)

lemma safe_reaper:
  assumes "worker_ok k w" "list_all plain_char (InFlight k [])"
  shows "safe_go (written fl jid) k (reaper n std_cjson fl trunc w)"
proof -
  have k: "w_keys w = k"
    using assms(1) by (simp add: worker_ok_def)
  have "safe_cmd (written fl jid) k (cHGETALL x)" for x
    by (rule safe_cmdI) (auto simp: preserves_def with_hash_def split: option.splits rval.splits)
  then show ?thesis
    unfolding reaper_def requeueOrphanedJobs_def Let_def k
    by (auto intro!: safe_ticker safe_remove_stale safe_reap_pages [OF assms(2)] split: sum.splits)
qed


section \<open>Registering handlers\<close>

lemma registry_New_keeps:
  assumes "\<And>d a b. decrypt = Some d \<Longrightarrow> args_ok fl a \<Longrightarrow> d a = Inr b \<Longrightarrow> args_ok fl b"
    and "\<And>d a e. decrypt = Some d \<Longrightarrow> d a = Inl e \<Longrightarrow> as_retryable e = None"
  shows "registry_keeps fl jid k run (w_handlers (worker_New ns host pid uuid settings decrypt stack))"
proof (cases decrypt)
  case None
  then show ?thesis
    by (simp add: registry_keeps_def worker_New_def Let_def registry_Use_def newHandlerRegistry_def recovery_keeps)
next
  case (Some d)
  then have "middleware_keeps fl jid k (encryptionMiddleware d)"
    using assms [of d] by (intro encryption_keeps) blast+
  with Some show ?thesis
    by (simp add: registry_keeps_def worker_New_def Let_def registry_Use_def newHandlerRegistry_def recovery_keeps)
qed

lemma registry_Register_keeps:
  assumes "registry_keeps fl jid k run (w_handlers w)" "handler_keeps fl jid k h"
    and "options_ok (Some (fold (\<lambda>opt o'. opt o') opts job_defaults))"
    and "\<And>a. jo_RateLimiter (fold (\<lambda>opt o'. opt o') opts job_defaults) = Some a \<Longrightarrow> acquirer_ok (written fl jid) k a"
  shows "registry_keeps fl jid k run (w_handlers (worker_Register t h opts w))"
  using assms by (auto simp: registry_keeps_def worker_Register_def registry_Register_def Let_def)

lemma worker_Register_ok: "worker_ok k (worker_Register t h opts w) = worker_ok k w"
  "w_settings (worker_Register t h opts w) = w_settings w"
  by (simp_all add: worker_ok_def worker_Register_def)

lemma options_default_ok: "options_ok (Some job_defaults)"
  by (simp add: options_ok_def job_defaults_def default_backoff_pos)

section \<open>All processes together\<close>

definition keeper :: "(string \<Rightarrow> string option) \<Rightarrow> string \<Rightarrow> keys \<Rightarrow> ('i, 'item, 'x) worker \<Rightarrow> bool" where
  "keeper fl jid k w \<longleftrightarrow> worker_ok k w \<and> registry_keeps fl jid k (IterableMaxRuntime (w_settings w)) (w_handlers w)"

lemma safe_Run:
  assumes "floats fl" "keeper fl jid k w" "list_all plain_char (InFlight k [])" "p \<in> set (Run_goroutines m n std_cjson fl trunc w)"
  shows "safe_go (written fl jid) k p"
proof -
  have ok: "worker_ok k w" "registry_keeps fl jid k (IterableMaxRuntime (w_settings w)) (w_handlers w)"
    using assms(2) by (simp_all add: keeper_def)
  consider "p = heartbeat n w" | "p = scheduler n std_cjson w" | "p = reaper n std_cjson fl trunc w" | "p = sequentialLockRenewer n w"
    | s where "w_periodic w = Some s" "p = go_bind (periodic_run n s) (\<lambda>ended. Done (if ended then WDone else WRunning))"
    | "p = workerLoop m n std_cjson fl w"
    using assms(4) unfolding Run_goroutines_def by (cases "w_periodic w") auto
  then show ?thesis
  proof cases
    case (5 s)
    then show ?thesis
      using ok(1) by (simp add: worker_ok_def go_all_bind safe_periodic_run)
  qed (simp_all only: safe_heartbeat [OF ok(1)] safe_scheduler [OF ok(1)] safe_reaper [OF ok(1) assms(3)]
      safe_renewer [OF ok(1)] safe_workerLoop [OF assms(1) ok])
qed

end
