(* ===== verification/Client.thy ===== *)
theory Client
  imports Fetcher Batch Iterable Encryption ScriptCache
begin

text \<open>
  The client, \<^verbatim>\<open>src/client\<close>: enqueueing jobs now, later, uniquely and in bulk (\<^verbatim>\<open>client.go\<close>), and
  building and enqueueing batches (\<^verbatim>\<open>batch.go\<close>, \<^verbatim>\<open>client.go\<close>).

  Job arguments are JSON data, so encoding them cannot fail; a job still fails to encode when one of
  its times is out of range.  A score is a \<^verbatim>\<open>float64\<close> of a number of seconds, exact and printed
  without exponent below \<open>2^53\<close> of them, so scores are integers.  Random bytes come from the same
  source as identifiers.  Errors that the code only logs are dropped.  Propagation to the ancestors
  of a batch is given fuel, one per ancestor; \<open>None\<close> is a run that has not ended.
\<close>

section \<open>Clients\<close>

record client =
  cl_keys :: keys
  cl_settings :: ClientSettings
  cl_encryptor :: "aead option"

record client_Config =
  cc_Namespace :: string
  cc_Settings :: ClientSettings
  cc_Encryption :: "EncryptionSettings option"

definition normalizeSettings :: "ClientSettings \<Rightarrow> ClientSettings" where
  "normalizeSettings settings =
     (if settings = \<lparr>DefaultQueue = [], DefaultRetry = 0, BulkChunkSize = 0\<rparr> then DefaultClientSettings
      else
        (let settings = (if DefaultQueue settings = [] then settings\<lparr>DefaultQueue := DefaultQueueName\<rparr> else settings)
         in if BulkChunkSize settings \<le> 0 then settings\<lparr>BulkChunkSize := DefaultBulkChunkSize\<rparr> else settings))"

text \<open>\<open>ping\<close> is the error of the connection check.\<close>

definition client_New :: "(string \<Rightarrow> aead) \<Rightarrow> goerr option \<Rightarrow> client_Config \<Rightarrow> goerr + client" where
  "client_New gcm ping cfg =
     (let connect = (\<lambda>enc. case ping of
            Some e \<Rightarrow> Inl e
          | None \<Rightarrow> Inr \<lparr>cl_keys = keys_New (cc_Namespace cfg), cl_settings = normalizeSettings (cc_Settings cfg),
                         cl_encryptor = enc\<rparr>)
      in case cc_Encryption cfg of
           None \<Rightarrow> connect None
         | Some e \<Rightarrow>
             if Enabled e
             then (case encryption_New gcm (Key e) of
                     Inl err \<Rightarrow> Inl (Wrap ''failed to init encryptor'' err)
                   | Inr enc \<Rightarrow> connect (Some enc))
             else connect None)"

section \<open>Errors and validation\<close>

definition ErrUniqueTTLRequired :: goerr where
  "ErrUniqueTTLRequired = Plain ''unique TTL must be > 0 when using a unique key''"

definition ErrUniqueKeyInBulk :: goerr where
  "ErrUniqueKeyInBulk = Plain ''unique keys are not supported in bulk enqueue''"

definition ErrBatchSelfParent :: goerr where
  "ErrBatchSelfParent = Plain ''batch cannot be its own parent''"

definition ErrInvalidQueueName :: goerr where
  "ErrInvalidQueueName = Plain ''queue name must not be empty or whitespace''"

definition ErrInvalidChunkSize :: goerr where
  "ErrInvalidChunkSize = Plain ''chunk size must be > 0''"

definition ErrEncryptionUnavailable :: goerr where
  "ErrEncryptionUnavailable = Plain ''encryption requested but client encryption is not configured''"

definition ErrReservedCallbackOption :: goerr where
  "ErrReservedCallbackOption = Plain ''callback option uses a reserved Senna key''"

text \<open>
  \<^verbatim>\<open>strings.TrimSpace\<close> leaves nothing exactly when every character is white space; the white space of
  Unicode in UTF-8.  The quoted text in an error keeps the bytes of the name as they are.
\<close>

definition spaces :: "string list" where
  "spaces = map (\<lambda>b. [char_of b]) [9, 10, 11, 12, 13, 32 :: nat] @
     map (map char_of) ([[0xC2, 0x85], [0xC2, 0xA0], [0xE1, 0x9A, 0x80], [0xE2, 0x80, 0xA8], [0xE2, 0x80, 0xA9],
       [0xE2, 0x80, 0xAF], [0xE2, 0x81, 0x9F], [0xE3, 0x80, 0x80]] @
       map (\<lambda>i. [0xE2, 0x80, 0x80 + i]) [0 ..< (11 :: nat)])"

fun only_space :: "string \<Rightarrow> bool" where
  "only_space [] = True"
| "only_space [a] = ([a] \<in> set spaces)"
| "only_space [a, b] = (if [a] \<in> set spaces then only_space [b] else [a, b] \<in> set spaces)"
| "only_space (a # b # c # s) =
     (if [a] \<in> set spaces then only_space (b # c # s)
      else if [a, b] \<in> set spaces then only_space (c # s)
      else [a, b, c] \<in> set spaces \<and> only_space s)"

definition validateQueueName :: "string \<Rightarrow> goerr option" where
  "validateQueueName q =
     (if only_space q then Some (Noted ErrInvalidQueueName ([CHR 0x22] @ q @ [CHR 0x22])) else None)"

definition uniqueTTLMillis :: "int \<Rightarrow> int" where
  "uniqueTTLMillis ttl =
     (let ms = ttl sdiv Millisecond;
          ms = (if ttl smod Millisecond \<noteq> 0 then ms + 1 else ms)
      in if ms < 1 then 1 else ms)"

section \<open>Enqueue options\<close>

record enqueueConfig =
  ec_queue :: string
  ec_retry :: int
  ec_uniqueKey :: string
  ec_uniqueTTL :: int
  ec_batchID :: string
  ec_encrypt :: bool
  ec_delay :: int
  ec_at :: int
  ec_chunkSize :: int
  ec_chunkSizeSet :: bool

type_synonym EnqueueOption = "enqueueConfig \<Rightarrow> enqueueConfig"

definition WithQueue :: "string \<Rightarrow> EnqueueOption" where
  "WithQueue q c = c\<lparr>ec_queue := q\<rparr>"

definition WithRetry :: "int \<Rightarrow> EnqueueOption" where
  "WithRetry n c = c\<lparr>ec_retry := n\<rparr>"

definition WithUniqueKey :: "string \<Rightarrow> int \<Rightarrow> EnqueueOption" where
  "WithUniqueKey key ttl c = c\<lparr>ec_uniqueKey := key, ec_uniqueTTL := ttl\<rparr>"

definition WithBatch :: "string \<Rightarrow> EnqueueOption" where
  "WithBatch batchID c = c\<lparr>ec_batchID := batchID\<rparr>"

definition WithEncryption :: EnqueueOption where
  "WithEncryption c = c\<lparr>ec_encrypt := True\<rparr>"

definition WithDelay :: "int \<Rightarrow> EnqueueOption" where
  "WithDelay d c = c\<lparr>ec_delay := d\<rparr>"

definition WithScheduleAt :: "int \<Rightarrow> EnqueueOption" where
  "WithScheduleAt t c = c\<lparr>ec_at := t\<rparr>"

definition WithBulkChunkSize :: "int \<Rightarrow> EnqueueOption" where
  "WithBulkChunkSize n c = c\<lparr>ec_chunkSize := n, ec_chunkSizeSet := True\<rparr>"

definition zero_config :: "string \<Rightarrow> int \<Rightarrow> int \<Rightarrow> enqueueConfig" where
  "zero_config queue retry chunk = \<lparr>ec_queue = queue, ec_retry = retry, ec_uniqueKey = [], ec_uniqueTTL = 0, ec_batchID = [],
     ec_encrypt = False, ec_delay = 0, ec_at = zero_time, ec_chunkSize = chunk, ec_chunkSizeSet = False\<rparr>"

text \<open>The defaults of a client with the options applied in order.\<close>

definition configure :: "client \<Rightarrow> EnqueueOption list \<Rightarrow> enqueueConfig" where
  "configure c opts = fold (\<lambda>opt cfg. opt cfg) opts
     (zero_config (DefaultQueue (cl_settings c)) (DefaultRetry (cl_settings c)) (BulkChunkSize (cl_settings c)))"

section \<open>Enqueueing one job\<close>

definition marshaled :: "job \<Rightarrow> goerr + string" where
  "marshaled job = (case Marshal job of
     None \<Rightarrow> Inl (Wrap (''marshal job '' @ j_ID job) marshal_error) | Some d \<Rightarrow> Inr d)"

definition enqueueNow :: "client \<Rightarrow> job \<Rightarrow> ('l, goerr + job) go" where
  "enqueueNow c job = (case marshaled job of
     Inl e \<Rightarrow> Done (Inl e)
   | Inr d \<Rightarrow>
       Eval (enqueue_now [Queues (cl_keys c), Queue (cl_keys c) (j_Queue job)] [j_Queue job, d]) (\<lambda>r. case r of
         Inl e \<Rightarrow> Done (Inl (Wrap (''enqueue job '' @ j_ID job @ '' to queue '' @ j_Queue job) e))
       | Inr _ \<Rightarrow> Done (Inr job)))"

definition enqueueAt :: "client \<Rightarrow> int \<Rightarrow> job \<Rightarrow> ('l, goerr + job) go" where
  "enqueueAt c t job = (case marshaled job of
     Inl e \<Rightarrow> Done (Inl e)
   | Inr d \<Rightarrow>
       Cmd (cZADD (Scheduled (cl_keys c)) [(Unix t, d)]) (\<lambda>r. case r of
         Inl e \<Rightarrow> Done (Inl (Wrap (''schedule job '' @ j_ID job) e))
       | Inr _ \<Rightarrow> Done (Inr job)))"

definition enqueueIn :: "client \<Rightarrow> int \<Rightarrow> job \<Rightarrow> ('l, goerr + job) go" where
  "enqueueIn c d job = redisNow (\<lambda>now. case now of
     Inl e \<Rightarrow> Done (Inl (Wrap (''get Redis time for scheduled job '' @ j_ID job) e))
   | Inr now \<Rightarrow> enqueueAt c (now + d) job)"

text \<open>The reply of a claiming script.\<close>

definition claimed :: "string \<Rightarrow> job \<Rightarrow> rreply \<Rightarrow> goerr + job" where
  "claimed what job r = (case script_Int r of
     Inl e \<Rightarrow> Inl (Wrap what e)
   | Inr enqueued \<Rightarrow> if enqueued = 0 then Inl (DuplicateJobError (j_UniqueKey job)) else Inr job)"

definition enqueueUniqueNow :: "client \<Rightarrow> job \<Rightarrow> ('l, goerr + job) go" where
  "enqueueUniqueNow c job = (case marshaled job of
     Inl e \<Rightarrow> Done (Inl e)
   | Inr d \<Rightarrow>
       Eval (enqueue_unique_now
               [Unique (cl_keys c) (j_UniqueKey job), Queues (cl_keys c), Queue (cl_keys c) (j_Queue job)]
               [j_ID job, string_of_int (uniqueTTLMillis (j_UniqueTTL job)), j_Queue job, d]) (\<lambda>r. case r of
         Inl e \<Rightarrow> Done (Inl (Wrap (''enqueue unique job '' @ j_ID job @ '' to queue '' @ j_Queue job) e))
       | Inr x \<Rightarrow> Done (claimed ''decode unique enqueue result'' job x)))"

definition enqueueUniqueAt :: "client \<Rightarrow> int \<Rightarrow> job \<Rightarrow> ('l, goerr + job) go" where
  "enqueueUniqueAt c t job = (case marshaled job of
     Inl e \<Rightarrow> Done (Inl e)
   | Inr d \<Rightarrow>
       Eval (enqueue_unique_at
               [Unique (cl_keys c) (j_UniqueKey job), Scheduled (cl_keys c)]
               [j_ID job, string_of_int (uniqueTTLMillis (j_UniqueTTL job)), string_of_int (Unix t), d]) (\<lambda>r. case r of
         Inl e \<Rightarrow> Done (Inl (Wrap (''schedule unique job '' @ j_ID job) e))
       | Inr x \<Rightarrow> Done (claimed ''decode unique schedule result'' job x)))"

definition enqueueUniqueIn :: "client \<Rightarrow> int \<Rightarrow> job \<Rightarrow> ('l, goerr + job) go" where
  "enqueueUniqueIn c d job = redisNow (\<lambda>now. case now of
     Inl e \<Rightarrow> Done (Inl (Wrap (''get Redis time for scheduled unique job '' @ j_ID job) e))
   | Inr now \<Rightarrow> enqueueUniqueAt c (now + d) job)"

text \<open>A new job with its arguments encrypted on request.\<close>

definition encrypted_job :: "client \<Rightarrow> bool \<Rightarrow> args \<Rightarrow> job \<Rightarrow> ('l, goerr + job) go" where
  "encrypted_job c encrypt a job = (case cl_encryptor c of
     Some enc \<Rightarrow>
       if encrypt
       then Uuid (\<lambda>nonce. case Encrypt enc nonce a of
              Inl e \<Rightarrow> Done (Inl e)
            | Inr a' \<Rightarrow> Done (Inr (job\<lparr>j_Args := a', j_Encrypted := True\<rparr>)))
       else Done (Inr job)
   | None \<Rightarrow> Done (Inr job))"

definition dispatch_enqueue :: "client \<Rightarrow> enqueueConfig \<Rightarrow> job \<Rightarrow> ('l, goerr + job) go" where
  "dispatch_enqueue c cfg job =
     (if ec_uniqueKey cfg \<noteq> []
      then (if ec_uniqueTTL cfg \<le> 0 then Done (Inl ErrUniqueTTLRequired)
            else if ec_at cfg \<noteq> zero_time then enqueueUniqueAt c (ec_at cfg) job
            else if ec_delay cfg > 0 then enqueueUniqueIn c (ec_delay cfg) job
            else enqueueUniqueNow c job)
      else if ec_at cfg \<noteq> zero_time then enqueueAt c (ec_at cfg) job
      else if ec_delay cfg > 0 then enqueueIn c (ec_delay cfg) job
      else enqueueNow c job)"

definition Enqueue :: "client \<Rightarrow> string \<Rightarrow> args \<Rightarrow> EnqueueOption list \<Rightarrow> ('l, goerr + job) go" where
  "Enqueue c jobType a opts =
     (let cfg = configure c opts
      in case validateQueueName (ec_queue cfg) of
           Some e \<Rightarrow> Done (Inl e)
         | None \<Rightarrow>
             if ec_encrypt cfg \<and> cl_encryptor c = None then Done (Inl ErrEncryptionUnavailable)
             else Now (\<lambda>now. Uuid (\<lambda>uuid.
               go_bind (encrypted_job c (ec_encrypt cfg) a
                 ((NewJob now uuid jobType a)\<lparr>j_Queue := ec_queue cfg, j_Retry := ec_retry cfg, j_BatchID := ec_batchID cfg,
                    j_UniqueKey := ec_uniqueKey cfg, j_UniqueTTL := ec_uniqueTTL cfg\<rparr>)) (\<lambda>r. case r of
                   Inl e \<Rightarrow> Done (Inl e)
                 | Inr job \<Rightarrow> dispatch_enqueue c cfg job))))"

definition EnqueueIn :: "client \<Rightarrow> int \<Rightarrow> string \<Rightarrow> args \<Rightarrow> EnqueueOption list \<Rightarrow> ('l, goerr + job) go" where
  "EnqueueIn c d jobType a opts = Enqueue c jobType a (opts @ [WithDelay d])"

definition EnqueueAt :: "client \<Rightarrow> int \<Rightarrow> string \<Rightarrow> args \<Rightarrow> EnqueueOption list \<Rightarrow> ('l, goerr + job) go" where
  "EnqueueAt c t jobType a opts = Enqueue c jobType a (opts @ [WithScheduleAt t])"

section \<open>Enqueueing in bulk\<close>

primrec marshal_jobs :: "job list \<Rightarrow> goerr + string list" where
  "marshal_jobs [] = Inr []"
| "marshal_jobs (job # jobs) = (case marshaled job of
     Inl e \<Rightarrow> Inl e
   | Inr d \<Rightarrow> (case marshal_jobs jobs of Inl e \<Rightarrow> Inl e | Inr ds \<Rightarrow> Inr (d # ds)))"

definition enqueueBulkChunk :: "client \<Rightarrow> job list \<Rightarrow> int option \<Rightarrow> ('l, goerr option) go" where
  "enqueueBulkChunk c jobs score = (case marshal_jobs jobs of
     Inl e \<Rightarrow> Done (Some e)
   | Inr payloads \<Rightarrow>
       (case score of
          Some score \<Rightarrow>
            Cmd (cZADD (Scheduled (cl_keys c)) (map (\<lambda>d. (score, d)) payloads)) (\<lambda>r.
              Done (case r of Inl e \<Rightarrow> Some e | Inr _ \<Rightarrow> None))
        | None \<Rightarrow>
            (let q = j_Queue (jobs ! 0)
             in pipeline [cSADD (Queues (cl_keys c)) [q], cLPUSH (Queue (cl_keys c) q) payloads])))"

primrec make_bulk_jobs :: "client \<Rightarrow> enqueueConfig \<Rightarrow> string \<Rightarrow> nat \<Rightarrow> args list \<Rightarrow> ('l, goerr + job list) go" where
  "make_bulk_jobs c cfg jobType i [] = Done (Inr [])"
| "make_bulk_jobs c cfg jobType i (a # as) =
     Now (\<lambda>now. Uuid (\<lambda>uuid.
       go_bind (encrypted_job c (ec_encrypt cfg) a
           ((NewJob now uuid jobType a)\<lparr>j_Queue := ec_queue cfg, j_Retry := ec_retry cfg, j_BatchID := ec_batchID cfg\<rparr>))
         (\<lambda>r. case r of
            Inl e \<Rightarrow> Done (Inl (Wrap (''encrypt bulk job '' @ string_of_nat i @ '' of type '' @ jobType) e))
          | Inr job \<Rightarrow> go_bind (make_bulk_jobs c cfg jobType (Suc i) as) (\<lambda>r. case r of
              Inl e \<Rightarrow> Done (Inl e) | Inr jobs \<Rightarrow> Done (Inr (job # jobs))))))"

function bulk_chunks :: "client \<Rightarrow> string \<Rightarrow> job list \<Rightarrow> nat \<Rightarrow> int option \<Rightarrow> nat \<Rightarrow> ('l, job list \<times> goerr option) go" where
  "bulk_chunks c jobType jobs chunk score start =
     (if start < length jobs \<and> 0 < chunk
      then (let stop = min (start + chunk) (length jobs)
            in go_bind (enqueueBulkChunk c (take (stop - start) (drop start jobs)) score) (\<lambda>err. case err of
                 Some e \<Rightarrow>
                   (let err = Wrap (''enqueue bulk jobs '' @ string_of_nat start @ ''-'' @ string_of_nat (stop - 1) @
                          '' of type '' @ jobType) e
                    in if start > 0
                       then Done (take start jobs, Some (BulkPartialError (int start) (int (length jobs)) err))
                       else Done ([], Some err))
               | None \<Rightarrow> bulk_chunks c jobType jobs chunk score (start + chunk)))
      else Done (jobs, None))"
  by pat_completeness auto
termination
  by (relation "measure (\<lambda>(c, jobType, jobs, chunk, score, start). length jobs - start)") auto

declare bulk_chunks.simps [simp del]

definition EnqueueBulk :: "client \<Rightarrow> string \<Rightarrow> args list \<Rightarrow> EnqueueOption list \<Rightarrow> ('l, job list \<times> goerr option) go" where
  "EnqueueBulk c jobType argsList opts =
     (if length argsList = 0 then Done ([], None)
      else
        (let cfg = configure c opts
         in case validateQueueName (ec_queue cfg) of
              Some e \<Rightarrow> Done ([], Some e)
            | None \<Rightarrow>
                if ec_uniqueKey cfg \<noteq> [] then Done ([], Some ErrUniqueKeyInBulk)
                else if ec_chunkSize cfg \<le> 0 then Done ([], Some ErrInvalidChunkSize)
                else if ec_encrypt cfg \<and> cl_encryptor c = None then Done ([], Some ErrEncryptionUnavailable)
                else go_bind (make_bulk_jobs c cfg jobType 0 argsList) (\<lambda>r. case r of
                  Inl e \<Rightarrow> Done ([], Some e)
                | Inr jobs \<Rightarrow>
                    if ec_at cfg \<noteq> zero_time
                    then bulk_chunks c jobType jobs (nat (ec_chunkSize cfg)) (Some (Unix (ec_at cfg))) 0
                    else if ec_delay cfg > 0
                    then redisNow (\<lambda>now. case now of
                           Inl e \<Rightarrow> Done ([], Some (Wrap (''get Redis time for '' @ string_of_nat (length jobs) @
                             '' bulk jobs of type '' @ jobType) e))
                         | Inr now \<Rightarrow>
                             bulk_chunks c jobType jobs (nat (ec_chunkSize cfg)) (Some (Unix (now + ec_delay cfg))) 0)
                    else bulk_chunks c jobType jobs (nat (ec_chunkSize cfg)) None 0)))"

definition EnqueueBulkIn :: "client \<Rightarrow> int \<Rightarrow> string \<Rightarrow> args list \<Rightarrow> EnqueueOption list \<Rightarrow> ('l, job list \<times> goerr option) go" where
  "EnqueueBulkIn c d jobType argsList opts = EnqueueBulk c jobType argsList (opts @ [WithDelay d])"

definition EnqueueBulkAt :: "client \<Rightarrow> int \<Rightarrow> string \<Rightarrow> args list \<Rightarrow> EnqueueOption list \<Rightarrow> ('l, job list \<times> goerr option) go" where
  "EnqueueBulkAt c t jobType argsList opts = EnqueueBulk c jobType argsList (opts @ [WithScheduleAt t])"

section \<open>Building a batch\<close>

record CallbackConfig =
  cbc_JobType :: string
  cbc_Options :: args

record client_Batch =
  cb_ID :: string
  cb_Description :: string
  cb_ParentID :: string
  cb_Jobs :: "job list"
  cb_OnComplete :: "CallbackConfig option"
  cb_OnSuccess :: "CallbackConfig option"
  cb_OnDeath :: "CallbackConfig option"
  cb_CallbackQueue :: string
  cb_CreatedAt :: int
  cb_err :: "goerr option"
  cb_autoflushChunkSize :: int

definition NewBatch :: "('l, client_Batch) go" where
  "NewBatch = Uuid (\<lambda>uuid. Now (\<lambda>now. Done
     \<lparr>cb_ID = uuid, cb_Description = [], cb_ParentID = [], cb_Jobs = [], cb_OnComplete = None, cb_OnSuccess = None,
      cb_OnDeath = None, cb_CallbackQueue = [], cb_CreatedAt = now, cb_err = None, cb_autoflushChunkSize = 0\<rparr>))"

definition WithDescription :: "string \<Rightarrow> client_Batch \<Rightarrow> client_Batch" where
  "WithDescription desc b = b\<lparr>cb_Description := desc\<rparr>"

definition WithParent :: "string \<Rightarrow> client_Batch \<Rightarrow> client_Batch" where
  "WithParent parentID b = b\<lparr>cb_ParentID := parentID\<rparr>"

definition unsupportedBatchOptions :: "enqueueConfig \<Rightarrow> string list" where
  "unsupportedBatchOptions cfg =
     (if ec_uniqueKey cfg \<noteq> [] then [''WithUniqueKey''] else []) @
     (if ec_encrypt cfg then [''WithEncryption''] else []) @
     (if ec_delay cfg > 0 then [''WithDelay''] else []) @
     (if ec_at cfg \<noteq> zero_time then [''WithScheduleAt''] else []) @
     (if ec_batchID cfg \<noteq> [] then [''WithBatch''] else []) @
     (if ec_chunkSizeSet cfg then [''WithBulkChunkSize''] else [])"

primrec join_text :: "string \<Rightarrow> string list \<Rightarrow> string" where
  "join_text sep [] = []"
| "join_text sep (s # ss) = (if ss = [] then s else s @ sep @ join_text sep ss)"

definition batch_Add :: "string \<Rightarrow> args \<Rightarrow> EnqueueOption list \<Rightarrow> client_Batch \<Rightarrow> ('l, client_Batch) go" where
  "batch_Add jobType a opts b =
     (if cb_err b \<noteq> None then Done b
      else
        (let cfg = fold (\<lambda>opt cfg. opt cfg) opts (zero_config DefaultQueueName DefaultRetryCount 0)
         in if length (unsupportedBatchOptions cfg) > 0
            then Done (b\<lparr>cb_err := Some (Plain (''batch.Add does not support options: '' @
                   join_text '', '' (unsupportedBatchOptions cfg)))\<rparr>)
            else (case validateQueueName (ec_queue cfg) of
              Some e \<Rightarrow> Done (b\<lparr>cb_err := Some e\<rparr>)
            | None \<Rightarrow> Now (\<lambda>now. Uuid (\<lambda>uuid. Done (b\<lparr>cb_Jobs := cb_Jobs b @
                [(NewJob now uuid jobType a)\<lparr>j_Queue := ec_queue cfg, j_Retry := ec_retry cfg\<rparr>]\<rparr>))))))"

definition callback_config :: "string \<Rightarrow> args list \<Rightarrow> CallbackConfig option" where
  "callback_config jobType options =
     Some \<lparr>cbc_JobType = jobType, cbc_Options = (if length options > 0 then options ! 0 else None)\<rparr>"

definition OnCompleteCallback :: "string \<Rightarrow> args list \<Rightarrow> client_Batch \<Rightarrow> client_Batch" where
  "OnCompleteCallback jobType options b = b\<lparr>cb_OnComplete := callback_config jobType options\<rparr>"

definition OnSuccessCallback :: "string \<Rightarrow> args list \<Rightarrow> client_Batch \<Rightarrow> client_Batch" where
  "OnSuccessCallback jobType options b = b\<lparr>cb_OnSuccess := callback_config jobType options\<rparr>"

definition OnDeathCallback :: "string \<Rightarrow> args list \<Rightarrow> client_Batch \<Rightarrow> client_Batch" where
  "OnDeathCallback jobType options b = b\<lparr>cb_OnDeath := callback_config jobType options\<rparr>"

definition WithCallbackQueue :: "string \<Rightarrow> client_Batch \<Rightarrow> client_Batch" where
  "WithCallbackQueue queue b = b\<lparr>cb_CallbackQueue := queue\<rparr>"

definition WithAutoflush :: "int \<Rightarrow> client_Batch \<Rightarrow> client_Batch" where
  "WithAutoflush chunkSize b =
     (if chunkSize \<le> 0 then b\<lparr>cb_err := Some ErrInvalidChunkSize\<rparr> else b\<lparr>cb_autoflushChunkSize := chunkSize\<rparr>)"

definition isReservedCallbackOptionKey :: "string \<Rightarrow> bool" where
  "isReservedCallbackOptionKey key \<longleftrightarrow> key = ''batch_id'' \<or> key = ''parent_id''"

text \<open>Go visits a map in any order; the model reports the first reserved key as listed.\<close>

definition validateCallbackOptions :: "string \<Rightarrow> CallbackConfig option \<Rightarrow> goerr option" where
  "validateCallbackOptions callbackName cfg = (case cfg of
     None \<Rightarrow> None
   | Some cfg \<Rightarrow>
       (case filter isReservedCallbackOptionKey (map fst (case cbc_Options cfg of None \<Rightarrow> [] | Some m \<Rightarrow> m)) of
          [] \<Rightarrow> None
        | key # _ \<Rightarrow> Some (Noted ErrReservedCallbackOption (callbackName @ '' option '' @ [CHR 0x22] @ key @ [CHR 0x22]))))"

definition validateBatchCallbackOptions :: "client_Batch \<Rightarrow> goerr option" where
  "validateBatchCallbackOptions b = (case validateCallbackOptions ''on_complete'' (cb_OnComplete b) of
     Some e \<Rightarrow> Some e
   | None \<Rightarrow> (case validateCallbackOptions ''on_success'' (cb_OnSuccess b) of
       Some e \<Rightarrow> Some e
     | None \<Rightarrow> validateCallbackOptions ''on_death'' (cb_OnDeath b)))"

section \<open>Enqueueing a batch\<close>

definition validateBatchQueueNames :: "client_Batch \<Rightarrow> string \<Rightarrow> goerr option" where
  "validateBatchQueueNames b callbackQueue =
     (case List.find (\<lambda>job. validateQueueName (j_Queue job) \<noteq> None) (cb_Jobs b) of
        Some job \<Rightarrow> map_option (Wrap (''batch job '' @ j_ID job @ '' queue'')) (validateQueueName (j_Queue job))
      | None \<Rightarrow>
          if cb_OnComplete b = None \<and> cb_OnSuccess b = None \<and> cb_OnDeath b = None then None
          else map_option (Wrap ''batch callback queue'') (validateQueueName callbackQueue))"

text \<open>The members of the state document, with empty ones left out as the tags ask.\<close>

definition int_opt :: "string \<Rightarrow> int \<Rightarrow> (string \<times> json) list" where
  "int_opt k i = (if i = 0 then [] else [(k, JInt i)])"

definition callback_member :: "string \<Rightarrow> CallbackInfo option \<Rightarrow> (string \<times> json) list" where
  "callback_member k c = (case c of None \<Rightarrow> [] | Some c \<Rightarrow>
     [(k, JObj ([(''job_type'', JStr (JobType c))] @
        (case Options c of None \<Rightarrow> [] | Some m \<Rightarrow> if m = [] then [] else [(''options'', JObj (canon_obj m))])))])"

definition BatchState_json :: "BatchState \<Rightarrow> json option" where
  "BatchState_json b = map_option (\<lambda>created. JObj
     ([(''id'', JStr (bt_ID b))] @ str_opt ''description'' (bt_Description b) @ str_opt ''parent_id'' (bt_ParentID b) @
      [(''total'', JInt (bt_Total b)), (''pending'', JInt (bt_Pending b)), (''failures'', JInt (bt_Failures b)),
       (''successes'', JInt (bt_Successes b))] @
      int_opt ''callbacks_pending'' (bt_CallbacksPending b) @ int_opt ''callback_seq'' (bt_CallbackSequence b) @
      [(''dead'', JBool (bt_Dead b)), (''death_fired'', JBool (bt_DeathFired b)),
       (''complete_fired'', JBool (bt_CompleteFired b)), (''success_fired'', JBool (bt_SuccessFired b))] @
      created @ callback_member ''on_complete'' (bt_OnComplete b) @ callback_member ''on_success'' (bt_OnSuccess b) @
      callback_member ''on_death'' (bt_OnDeath b) @ str_opt ''callback_queue'' (bt_CallbackQueue b) @
      (case bt_FailedJIDs b of None \<Rightarrow> [] | Some js \<Rightarrow> if js = [] then [] else [(''failed_jids'', JArr (map JStr js))]) @
      (if bt_Invalidated b then [(''invalidated'', JBool True)] else [])))
     (time_member ''created_at'' (bt_CreatedAt b))"

definition callback_info :: "CallbackConfig option \<Rightarrow> CallbackInfo option" where
  "callback_info = map_option (\<lambda>c. \<lparr>JobType = cbc_JobType c, Options = cbc_Options c\<rparr>)"

definition buildBatchState :: "client_Batch \<Rightarrow> string \<Rightarrow> BatchState" where
  "buildBatchState b callbackQueue = zero_BatchState\<lparr>
     bt_ID := cb_ID b, bt_Description := cb_Description b, bt_ParentID := cb_ParentID b,
     bt_Total := int (length (cb_Jobs b)), bt_Pending := int (length (cb_Jobs b)), bt_Failures := 0, bt_Successes := 0,
     bt_Dead := False, bt_DeathFired := False, bt_CompleteFired := False, bt_SuccessFired := False,
     bt_CreatedAt := cb_CreatedAt b, bt_CallbackQueue := callbackQueue, bt_OnComplete := callback_info (cb_OnComplete b),
     bt_OnSuccess := callback_info (cb_OnSuccess b), bt_OnDeath := callback_info (cb_OnDeath b)\<rparr>"

definition boolInt :: "bool \<Rightarrow> int" where
  "boolInt v = (if v then 1 else 0)"

definition batchProgressFields :: "BatchState \<Rightarrow> (string \<times> string) list" where
  "batchProgressFields s =
     [(''id'', bt_ID s), (''parent_id'', bt_ParentID s), (''callback_queue'', bt_CallbackQueue s)] @
     map (\<lambda>(f, i). (f, string_of_int i))
       [(''total'', bt_Total s), (''pending'', bt_Pending s), (''failures'', bt_Failures s), (''successes'', bt_Successes s),
        (''callbacks_pending'', bt_CallbacksPending s), (''callback_seq'', bt_CallbackSequence s),
        (''dead'', boolInt (bt_Dead s)), (''death_fired'', boolInt (bt_DeathFired s)),
        (''complete_fired'', boolInt (bt_CompleteFired s)), (''success_fired'', boolInt (bt_SuccessFired s)),
        (''invalidated'', boolInt (bt_Invalidated s))]"

definition storeBatchState :: "client \<Rightarrow> string \<Rightarrow> BatchState \<Rightarrow> ('l, goerr option) go" where
  "storeBatchState c bid state = (case BatchState_json state of
     None \<Rightarrow> Done (Some (Wrap (''marshal batch state '' @ bid) marshal_error))
   | Some v \<Rightarrow>
       go_bind (pipeline
           [set_ttl (Batch (cl_keys c) bid) (json_print v) BatchTTL,
            cHSET (BatchProgress (cl_keys c) bid) (batchProgressFields state),
            cEXPIRE (BatchProgress (cl_keys c) bid) (BatchTTL div Second),
            cSADD (Batches (cl_keys c)) [bid]])
         (\<lambda>err. Done (map_option (Wrap (''store batch state '' @ bid)) err)))"

definition cleanupOrphanedBatch :: "client \<Rightarrow> string \<Rightarrow> ('l, unit) go" where
  "cleanupOrphanedBatch c bid =
     go_bind (pipeline
         [cSREM (Batches (cl_keys c)) bid,
          cDEL [Batch (cl_keys c) bid, BatchProgress (cl_keys c) bid, BatchJobs (cl_keys c) bid,
                BatchFailed (cl_keys c) bid, BatchCallbacks (cl_keys c) bid]])
       (\<lambda>_. Done ())"

definition rollbackParentLink :: "cjson \<Rightarrow> client \<Rightarrow> string \<Rightarrow> string \<Rightarrow> ('l, unit) go" where
  "rollbackParentLink cj c parentID childID =
     Eval (batch_remove_child cj
         [Batch (cl_keys c) parentID, BatchProgress (cl_keys c) parentID, BatchJobs (cl_keys c) parentID] [childID])
       (\<lambda>_. Done ())"

text \<open>Undoing the earlier steps after a failed one, and returning its error.\<close>

definition rollback :: "cjson \<Rightarrow> client \<Rightarrow> client_Batch \<Rightarrow> goerr \<Rightarrow> ('l, goerr option) go" where
  "rollback cj c b e =
     go_bind (if cb_ParentID b \<noteq> [] then rollbackParentLink cj c (cb_ParentID b) (cb_ID b) else Done ()) (\<lambda>_.
       go_bind (cleanupOrphanedBatch c (cb_ID b)) (\<lambda>_. Done (Some e)))"

definition link_error :: "string \<Rightarrow> string \<Rightarrow> goerr" where
  "link_error parentID code =
     (if code = ''batch_not_found'' then BatchNotFoundError parentID
      else if code = ''batch_invalidated'' then Plain (''parent batch '' @ parentID @ '' has been invalidated'')
      else if code = ''batch_complete'' then Plain (''parent batch '' @ parentID @ '' has already completed'')
      else Plain (''parent batch error: '' @ code))"

definition linkBatchToParent :: "cjson \<Rightarrow> client \<Rightarrow> client_Batch \<Rightarrow> ('l, goerr option) go" where
  "linkBatchToParent cj c b =
     RunJSON ''batch_add_child''
       (batch_add_child cj [Batch (cl_keys c) (cb_ParentID b), BatchProgress (cl_keys c) (cb_ParentID b),
          BatchJobs (cl_keys c) (cb_ParentID b)] [cb_ID b])
       (dec_struct dec_AddResult_field) \<lparr>ar_Error = [], ar_Success = False\<rparr> (\<lambda>r. case r of
         Inl e \<Rightarrow> go_bind (cleanupOrphanedBatch c (cb_ID b)) (\<lambda>_.
           Done (Some (Wrap ''failed to add child batch to parent'' e)))
       | Inr res \<Rightarrow>
           if ar_Error res \<noteq> []
           then go_bind (cleanupOrphanedBatch c (cb_ID b)) (\<lambda>_. Done (Some (link_error (cb_ParentID b) (ar_Error res))))
           else Done None)"

text \<open>\<^verbatim>\<open>batch_enqueue_jobs\<close> with the arguments of the prepared jobs; only its success is decoded.\<close>

definition dec_success_field :: "string \<Rightarrow> json \<Rightarrow> bool \<Rightarrow> bool option" where
  "dec_success_field k v b = (if k = ''success'' then dec_bool v b else Some b)"

definition run_enqueue_jobs :: "cjson \<Rightarrow> client \<Rightarrow> string \<Rightarrow> (string \<times> string \<times> string) list \<Rightarrow> ('l, goerr option) go" where
  "run_enqueue_jobs cj c bid jobs =
     RunJSON ''batch_enqueue_jobs''
       (batch_enqueue_jobs cj [BatchJobs (cl_keys c) bid]
          ([string_of_nat (length jobs), string_of_int (BatchTTL div Second)] @ job_triples jobs))
       (dec_struct dec_success_field) False (\<lambda>r. Done (case r of Inl e \<Rightarrow> Some e | Inr _ \<Rightarrow> None))"

text \<open>
  Both ways of encoding the jobs of a batch first store the batch's ID in them; \<open>prepare_jobs\<close> is
  that and the encoding of a list of jobs.
\<close>

definition marshalBatchJobs :: "client \<Rightarrow> client_Batch \<Rightarrow> goerr + (string \<times> string \<times> string) list" where
  "marshalBatchJobs c b = prepare_jobs (cb_ID b) (cl_keys c) (cb_Jobs b)"

definition validateBatchJobsMarshal :: "client_Batch \<Rightarrow> client_Batch" where
  "validateBatchJobsMarshal b = b\<lparr>cb_Jobs := map (\<lambda>job. job\<lparr>j_BatchID := cb_ID b\<rparr>) (cb_Jobs b)\<rparr>"

definition enqueueBatchJobs :: "cjson \<Rightarrow> client \<Rightarrow> client_Batch \<Rightarrow> (string \<times> string \<times> string) list \<Rightarrow> ('l, goerr option) go" where
  "enqueueBatchJobs cj c b jobs =
     (if length jobs = 0 then Done None
      else go_bind (run_enqueue_jobs cj c (cb_ID b) jobs) (\<lambda>err. case err of
        Some e \<Rightarrow> rollback cj c b (Wrap (''enqueue batch '' @ cb_ID b @ '' jobs'') e)
      | None \<Rightarrow> Done None))"

definition enqueueBatchJobChunk :: "cjson \<Rightarrow> client \<Rightarrow> client_Batch \<Rightarrow> job list \<Rightarrow> ('l, goerr option) go" where
  "enqueueBatchJobChunk cj c b jobs = (case prepare_jobs (cb_ID b) (cl_keys c) jobs of
     Inl e \<Rightarrow> Done (Some e)
   | Inr prepared \<Rightarrow> run_enqueue_jobs cj c (cb_ID b) prepared)"

function autoflush_chunks :: "cjson \<Rightarrow> client \<Rightarrow> client_Batch \<Rightarrow> nat \<Rightarrow> nat \<Rightarrow> ('l, goerr option) go" where
  "autoflush_chunks cj c b chunk start =
     (if start < length (cb_Jobs b) \<and> 0 < chunk
      then (let stop = min (start + chunk) (length (cb_Jobs b))
            in go_bind (enqueueBatchJobChunk cj c b (take (stop - start) (drop start (cb_Jobs b)))) (\<lambda>err. case err of
                 Some e \<Rightarrow> rollback cj c b (Wrap (''enqueue batch '' @ cb_ID b @ '' jobs '' @ string_of_nat start @ ''-'' @
                   string_of_nat (stop - 1)) e)
               | None \<Rightarrow> autoflush_chunks cj c b chunk (start + chunk)))
      else Done None)"
  by pat_completeness auto
termination
  by (relation "measure (\<lambda>(cj, c, b, chunk, start). length (cb_Jobs b) - start)") auto

declare autoflush_chunks.simps [simp del]

definition enqueueBatchJobsAutoflush :: "cjson \<Rightarrow> client \<Rightarrow> client_Batch \<Rightarrow> ('l, goerr option) go" where
  "enqueueBatchJobsAutoflush cj c b =
     (if length (cb_Jobs b) = 0 then Done None
      else if cb_autoflushChunkSize b \<le> 0 then Done (Some ErrInvalidChunkSize)
      else autoflush_chunks cj c b (nat (cb_autoflushChunkSize b)) 0)"

primrec propagateBatchCompletion :: "nat \<Rightarrow> cjson \<Rightarrow> keys \<Rightarrow> string \<Rightarrow> string \<Rightarrow> Result \<Rightarrow> ('l, goerr option option) go" where
  "propagateBatchCompletion 0 cj k childID parentID resultType = Done None"
| "propagateBatchCompletion (Suc n) cj k childID parentID resultType = Now (\<lambda>now.
     RunJSON ''batch_complete'' (batch_complete cj (CompletionKeys k parentID) (CompletionArgs k childID resultType now))
       (dec_struct dec_CompleteResult_field) zero_CompleteResult (\<lambda>r. case r of
         Inl e \<Rightarrow> Done (Some (Some (Wrap (''failed to propagate batch completion to parent '' @ parentID) e)))
       | Inr result \<Rightarrow>
           if cr_Error result \<noteq> [] \<or> cr_AlreadyProcessed result
           then Done (Some (if cr_Error result = [] then None
                  else if cr_Error result = ''batch_not_found'' then Some (BatchNotFoundError parentID)
                  else Some (Plain (''parent batch '' @ parentID @ '' completion failed: '' @ cr_Error result))))
           else (case ParentResultType result of
                   None \<Rightarrow> Done (Some None)
                 | Some grandparentResult \<Rightarrow>
                     go_bind (propagateBatchCompletion n cj k parentID (cr_ParentID result) grandparentResult)
                       (\<lambda>r. Done (map_option (\<lambda>_. None) r)))))"

definition handleEmptyBatch :: "nat \<Rightarrow> cjson \<Rightarrow> client \<Rightarrow> client_Batch \<Rightarrow> ('l, goerr option option) go" where
  "handleEmptyBatch n cj c b = Now (\<lambda>now.
     RunJSON ''batch_complete''
       (batch_complete cj (CompletionKeys (cl_keys c) (cb_ID b)) (CompletionArgs (cl_keys c) (cb_ID b) ResultEmptySuccess now))
       (dec_struct dec_CompleteResult_field) zero_CompleteResult (\<lambda>r. case r of
         Inl e \<Rightarrow> Done (Some (Some (Wrap (''failed to complete empty batch '' @ cb_ID b) e)))
       | Inr result \<Rightarrow>
           if cr_Error result \<noteq> []
           then Done (Some (Some (Plain (''empty batch '' @ cb_ID b @ '' completion failed: '' @ cr_Error result))))
           else if cr_AlreadyProcessed result then Done (Some None)
           else (case ParentResultType result of
                   None \<Rightarrow> Done (Some None)
                 | Some parentResultType \<Rightarrow>
                     propagateBatchCompletion n cj (cl_keys c) (cb_ID b) (cr_ParentID result) parentResultType)))"

definition parent_missing :: "client \<Rightarrow> client_Batch \<Rightarrow> ('l, goerr option) go" where
  "parent_missing c b =
     (if cb_ParentID b \<noteq> []
      then Cmd (cGET (Batch (cl_keys c) (cb_ParentID b))) (\<lambda>r. Done (case r of
             Inl e \<Rightarrow> Some (if is_nil e then BatchNotFoundError (cb_ParentID b) else e)
           | Inr _ \<Rightarrow> None))
      else Done None)"

text \<open>Steps that each return an error run in order, and the first error is the result.\<close>

definition and_then :: "('l, goerr option) go \<Rightarrow> ('l, goerr option option) go \<Rightarrow> ('l, goerr option option) go" where
  "and_then p q = go_bind p (\<lambda>err. if err \<noteq> None then Done (Some err) else q)"

definition finish_batch :: "nat \<Rightarrow> cjson \<Rightarrow> client \<Rightarrow> client_Batch \<Rightarrow> ('l, goerr option option) go" where
  "finish_batch n cj c b =
     (if length (cb_Jobs b) = 0
      then go_bind (handleEmptyBatch n cj c b) (\<lambda>r. case r of
             Some (Some e) \<Rightarrow> go_bind (rollback cj c b e) (\<lambda>err. Done (Some err))
           | r \<Rightarrow> Done r)
      else Done (Some None))"

definition EnqueueBatch :: "nat \<Rightarrow> cjson \<Rightarrow> client \<Rightarrow> client_Batch \<Rightarrow> ('l, goerr option option) go" where
  "EnqueueBatch n cj c b =
     (let callbackQueue = (if cb_CallbackQueue b = [] then DefaultQueue (cl_settings c) else cb_CallbackQueue b);
          store = storeBatchState c (cb_ID b) (buildBatchState b callbackQueue);
          link = (if cb_ParentID b \<noteq> [] then linkBatchToParent cj c b else Done None)
      in if cb_err b \<noteq> None then Done (Some (cb_err b))
         else if validateBatchCallbackOptions b \<noteq> None then Done (Some (validateBatchCallbackOptions b))
         else if validateBatchQueueNames b callbackQueue \<noteq> None then Done (Some (validateBatchQueueNames b callbackQueue))
         else if cb_ParentID b \<noteq> [] \<and> cb_ParentID b = cb_ID b then Done (Some (Some ErrBatchSelfParent))
         else and_then (parent_missing c b)
           (if cb_autoflushChunkSize b > 0
            then (let b = validateBatchJobsMarshal b
                  in and_then store (and_then link (and_then (enqueueBatchJobsAutoflush cj c b) (finish_batch n cj c b))))
            else (case marshalBatchJobs c b of
                    Inl e \<Rightarrow> Done (Some (Some e))
                  | Inr jobs \<Rightarrow>
                      and_then store (and_then link (and_then (enqueueBatchJobs cj c b jobs) (finish_batch n cj c b))))))"

section \<open>Status and cancellation\<close>

definition client_BatchStatus :: "client \<Rightarrow> string \<Rightarrow> BatchStatus" where
  "client_BatchStatus c bid = NewBatchStatus (namespace (cl_keys c)) bid"

definition CancelIteration :: "client \<Rightarrow> string \<Rightarrow> ('l, goerr option) go" where
  "CancelIteration c jobID = Cancel (Keys.IterationState (cl_keys c) jobID) jobID StateTTL"

definition IterationStatus :: "client \<Rightarrow> string \<Rightarrow> ('l, goerr + IterationState option) go" where
  "IterationStatus c jobID = iteration_Load (Keys.IterationState (cl_keys c) jobID) Done"

end
