(* ===== verification/Producers.thy ===== *)
theory Producers
  imports Safety Client
begin

text \<open>
  Every request of a client keeps every stored job: the programs of \<open>Client\<close> only add payloads to
  the job keys and otherwise write keys that hold no payload.
\<close>

section \<open>Scripts and commands that add payloads\<close>

lemma safe_enqueue_jobs: "safe_script good k (batch_enqueue_jobs cj [BatchJobs k bid] ARGV)"
proof (rule harmless_script)
  have jobs: "harmless k (cSADD (BatchJobs k bid) vs)" "harmless k (cEXPIRE (BatchJobs k bid) n)" for vs n
    by (simp_all add: harmless_def)
  show "lua_all (harmless k) (batch_enqueue_jobs cj [BatchJobs k bid] ARGV)"
    unfolding batch_enqueue_jobs_def
    by (auto simp: jobs split: option.splits intro!: lua_all_tonumber lua_all_reads [OF harmless_read] lua_all_when
        lua_all_counted [where P = "harmless k" and jk = "BatchJobs k bid", OF harmless_read harmless_push(1)])
qed

section \<open>Single jobs and bulk\<close>

lemma safe_enqueueNow: "cl_keys c = k \<Longrightarrow> safe_go good k (enqueueNow c job)"
  by (auto simp: enqueueNow_def safe_enqueue split: sum.splits)

lemma safe_enqueueAt: "cl_keys c = k \<Longrightarrow> safe_go good k (enqueueAt c t job)"
  by (auto simp: enqueueAt_def safe_writes split: sum.splits)

lemma safe_enqueueIn: "cl_keys c = k \<Longrightarrow> safe_go good k (enqueueIn c d job)"
  by (auto simp: enqueueIn_def intro!: safe_redisNow safe_enqueueAt)

lemma safe_enqueueUniqueNow: "cl_keys c = k \<Longrightarrow> safe_go good k (enqueueUniqueNow c job)"
  by (auto simp: enqueueUniqueNow_def safe_unique split: sum.splits)

lemma safe_enqueueUniqueAt: "cl_keys c = k \<Longrightarrow> safe_go good k (enqueueUniqueAt c t job)"
  by (auto simp: enqueueUniqueAt_def safe_unique split: sum.splits)

lemma safe_enqueueUniqueIn: "cl_keys c = k \<Longrightarrow> safe_go good k (enqueueUniqueIn c d job)"
  by (auto simp: enqueueUniqueIn_def intro!: safe_redisNow safe_enqueueUniqueAt)

lemmas safe_enqueues = safe_enqueueNow safe_enqueueAt safe_enqueueIn safe_enqueueUniqueNow safe_enqueueUniqueAt safe_enqueueUniqueIn

lemma safe_encrypted_job: "safe_go good k (encrypted_job c b a job)"
  by (auto simp: encrypted_job_def split: option.splits sum.splits)

lemma safe_dispatch: "cl_keys c = k \<Longrightarrow> safe_go good k (dispatch_enqueue c cfg job)"
  by (simp add: dispatch_enqueue_def safe_enqueues)

lemma safe_Enqueue: "cl_keys c = k \<Longrightarrow> safe_go good k (Enqueue c ty a opts)"
  unfolding Enqueue_def Let_def
  by (auto intro!: go_all_bind safe_encrypted_job safe_dispatch split: option.splits sum.splits)

lemma safe_bulk_chunk: "cl_keys c = k \<Longrightarrow> safe_go good k (enqueueBulkChunk c jobs score)"
  by (auto simp: enqueueBulkChunk_def Let_def safe_writes intro!: safe_pipeline split: sum.splits option.splits)

lemma safe_bulk_chunks: "cl_keys c = k \<Longrightarrow> safe_go good k (bulk_chunks c ty jobs chunk score start)"
  by (induction c ty jobs chunk score start rule: bulk_chunks.induct, subst bulk_chunks.simps)
     (auto simp: Let_def intro!: go_all_bind safe_bulk_chunk split: option.splits)

lemma safe_make_bulk: "safe_go good k (make_bulk_jobs c cfg ty i as)"
  by (induction as arbitrary: i) (auto intro!: go_all_bind safe_encrypted_job split: sum.splits)

lemma safe_EnqueueBulk: "cl_keys c = k \<Longrightarrow> safe_go good k (EnqueueBulk c ty as opts)"
  unfolding EnqueueBulk_def Let_def
  by (auto intro!: go_all_bind safe_make_bulk safe_bulk_chunks safe_redisNow split: option.splits sum.splits)

section \<open>Batches\<close>

lemma safe_answer_JSON: "safe_script good k p \<Longrightarrow> (\<And>r. safe_go good k (cont r)) \<Longrightarrow> safe_go good k (RunJSON name p dec old cont)"
  by (auto simp: RunJSON_def split: sum.splits option.splits rreply.splits)

lemma safe_store: "cl_keys c = k \<Longrightarrow> safe_go good k (storeBatchState c bid st)"
  by (auto simp: storeBatchState_def safe_writes intro!: go_all_bind safe_pipeline split: option.splits)

lemma safe_cleanup: "cl_keys c = k \<Longrightarrow> safe_go good k (cleanupOrphanedBatch c bid)"
  by (auto simp: cleanupOrphanedBatch_def safe_writes intro!: go_all_bind safe_pipeline)

lemma safe_rollback: "cl_keys c = k \<Longrightarrow> safe_go good k (rollback cj c b e)"
  by (auto simp: rollback_def rollbackParentLink_def intro!: go_all_bind safe_cleanup safe_batch_scripts)

lemma safe_link: "cl_keys c = k \<Longrightarrow> safe_go good k (linkBatchToParent cj c b)"
  by (auto simp: linkBatchToParent_def intro!: safe_answer_JSON go_all_bind safe_cleanup safe_batch_scripts split: sum.splits)

lemma safe_run_enqueue_jobs: "cl_keys c = k \<Longrightarrow> safe_go good k (run_enqueue_jobs cj c bid jobs)"
  by (auto simp: run_enqueue_jobs_def intro!: safe_answer_JSON safe_enqueue_jobs)

lemma safe_enqueueBatchJobs: "cl_keys c = k \<Longrightarrow> safe_go good k (enqueueBatchJobs cj c b jobs)"
  by (auto simp: enqueueBatchJobs_def intro!: go_all_bind safe_run_enqueue_jobs safe_rollback split: option.splits)

lemma safe_autoflush: "cl_keys c = k \<Longrightarrow> safe_go good k (autoflush_chunks cj c b chunk start)"
  by (induction cj c b chunk start rule: autoflush_chunks.induct, subst autoflush_chunks.simps)
     (auto simp: Let_def enqueueBatchJobChunk_def intro!: go_all_bind safe_run_enqueue_jobs safe_rollback split: option.splits sum.splits)

lemma safe_propagate: "safe_go good k (propagateBatchCompletion n cj k child parent result)"
  by (induction n arbitrary: child parent result)
     (auto intro!: safe_answer_JSON safe_batch_complete go_all_bind split: sum.splits option.splits)

lemma safe_handleEmptyBatch: "cl_keys c = k \<Longrightarrow> safe_go good k (handleEmptyBatch n cj c b)"
  by (auto simp: handleEmptyBatch_def intro!: safe_answer_JSON safe_batch_complete safe_propagate split: sum.splits option.splits)

lemma safe_and_then: "safe_go good k p \<Longrightarrow> safe_go good k q \<Longrightarrow> safe_go good k (and_then p q)"
  by (auto simp: and_then_def intro!: go_all_bind)

lemma safe_finish: "cl_keys c = k \<Longrightarrow> safe_go good k (finish_batch n cj c b)"
  by (auto simp: finish_batch_def intro!: go_all_bind safe_handleEmptyBatch safe_rollback split: option.splits)

lemma safe_EnqueueBatch:
  assumes "cl_keys c = k"
  shows "safe_go good k (EnqueueBatch n cj c b)"
proof -
  have "safe_go good k (parent_missing c b)" "safe_go good k (enqueueBatchJobsAutoflush cj c b')" for b'
    using assms by (simp_all add: parent_missing_def safe_writes enqueueBatchJobsAutoflush_def safe_autoflush)
  then show ?thesis
    unfolding EnqueueBatch_def Let_def
    using assms by (auto intro!: safe_and_then safe_store safe_link safe_finish safe_enqueueBatchJobs split: sum.splits)
qed

lemma safe_CancelIteration: "cl_keys c = k \<Longrightarrow> safe_go good k (CancelIteration c jid)"
  by (auto simp: CancelIteration_def Cancel_def iteration_Load_def iteration_Save_def Let_def safe_writes
      split: sum.splits option.splits)

section \<open>Programs of clients\<close>

text \<open>Any sequence of client calls, each depending on the results of those before.\<close>

inductive client_program :: "keys \<Rightarrow> ('l, 'a) go \<Rightarrow> bool" for k where
  ended: "client_program k (Done x)"
| enqueue: "cl_keys c = k \<Longrightarrow> (\<And>r. client_program k (f r)) \<Longrightarrow> client_program k (go_bind (Enqueue c ty a opts) f)"
| bulk: "cl_keys c = k \<Longrightarrow> (\<And>r. client_program k (f r)) \<Longrightarrow> client_program k (go_bind (EnqueueBulk c ty as opts) f)"
| batch: "cl_keys c = k \<Longrightarrow> (\<And>r. client_program k (f r)) \<Longrightarrow> client_program k (go_bind (EnqueueBatch n cj c b) f)"
| cancel: "cl_keys c = k \<Longrightarrow> (\<And>r. client_program k (f r)) \<Longrightarrow> client_program k (go_bind (CancelIteration c jid) f)"

lemma safe_client_program: "client_program k p \<Longrightarrow> safe_go good k p"
  by (induction rule: client_program.induct)
     (simp_all add: go_all_bind safe_Enqueue safe_EnqueueBulk safe_EnqueueBatch safe_CancelIteration)

end
