(* ===== verification/RateScripts.thy ===== *)
theory RateScripts
  imports Complex_Main QueueScripts
begin

text \<open>
  The Lua scripts of the rate limiters, \<^verbatim>\<open>src/ratelimit/lua\<close>.

  Numbers of Lua are IEEE doubles.  The bucket, window and concurrent scripts compute with integers
  below \<open>2^53\<close> in size, which are exact; concatenating a number prints it with fourteen significant
  digits (\<open>lua_text\<close>).  The leaky and points scripts compute with fractions: a \<open>lua_numbers\<close> is the
  rounding of an exact result to a double, the text in which a double is sent to the server, the
  reading of a text, and the integer the server makes of a number that is not finite.  Every
  operation is the rounding of the exact one.
\<close>

section \<open>Numbers\<close>

record lua_numbers =
  rnd :: "rat \<Rightarrow> rat"
  num_text :: "rat \<Rightarrow> string"
  num_parse :: "string \<Rightarrow> rat option"
  non_finite :: int

text \<open>What the scripts rely on: rounding keeps order and integers, and texts read back.\<close>

definition doubles :: "lua_numbers \<Rightarrow> bool" where
  "doubles L \<longleftrightarrow> (\<forall>x y. x \<le> y \<longrightarrow> rnd L x \<le> rnd L y) \<and> (\<forall>x. rnd L (rnd L x) = rnd L x) \<and>
     (\<forall>i. \<bar>i\<bar> \<le> 2 ^ 53 \<longrightarrow> rnd L (of_int i) = of_int i) \<and> (\<forall>x. num_parse L (num_text L (rnd L x)) = Some (rnd L x))"

definition trunc_rat :: "rat \<Rightarrow> int" where
  "trunc_rat x = (if x < 0 then \<lceil>x\<rceil> else \<lfloor>x\<rfloor>)"

definition lua_number :: "lua_numbers \<Rightarrow> string \<Rightarrow> (rat \<Rightarrow> lua) \<Rightarrow> lua" where
  "lua_number L s cont = (case num_parse L s of Some x \<Rightarrow> cont x | None \<Rightarrow> LErr ''attempt to perform arithmetic on a nil value'')"

text \<open>\<^verbatim>\<open>%.14g\<close> of a natural number.\<close>

fun strip_zeros :: "string \<Rightarrow> string" where
  "strip_zeros s = rev (dropWhile (\<lambda>c. c = CHR ''0'') (rev s))"

definition lua_text :: "nat \<Rightarrow> string" where
  "lua_text n =
     (if n < 10 ^ 14 then string_of_nat n
      else
        (let len = length (string_of_nat n); p = 10 ^ (len - 14); q = n div p; r = n mod p;
             m = (if 2 * r > p \<or> (2 * r = p \<and> odd q) then q + 1 else q);
             (m, e) = (if m = 10 ^ 14 then (10 ^ 13, len) else (m, len - 1));
             ds = string_of_nat m; frac = strip_zeros (tl ds)
         in [hd ds] @ (if frac = [] then [] else ''.'' @ frac) @ ''e+'' @
            (if e < 10 then ''0'' else []) @ string_of_nat e))"

text \<open>The server's clock in microseconds.\<close>

definition with_time_us :: "(int \<Rightarrow> lua) \<Rightarrow> lua" where
  "with_time_us cont = LCall cTIME (\<lambda>t. tonumber (bulks t ! 0) (\<lambda>s. tonumber (bulks t ! 1) (\<lambda>us. cont (s * 1000000 + us))))"

definition with_time_ms :: "(int \<Rightarrow> lua) \<Rightarrow> lua" where
  "with_time_ms cont = LCall cTIME (\<lambda>t. tonumber (bulks t ! 0) (\<lambda>s. tonumber (bulks t ! 1) (\<lambda>us. cont (s * 1000 + us div 1000))))"

section \<open>Fixed and sliding windows\<close>

definition bucket :: "string list \<Rightarrow> string list \<Rightarrow> lua" where
  "bucket KEYS ARGV =
     tonumber (ARGV ! 0) (\<lambda>limit. tonumber (ARGV ! 1) (\<lambda>window_us. tonumber (ARGV ! 2) (\<lambda>ttl.
       with_time_us (\<lambda>now_us.
         let bucket_ts = now_us div window_us * window_us;
             bucket_key = KEYS ! 0 @ '':'' @ lua_text (nat bucket_ts)
         in LCall (cINCR bucket_key) (\<lambda>r.
              let current = reply_int r
              in LCall (cEXPIRE bucket_key ttl) (\<lambda>_.
                   if current > limit
                   then LCall (cDECR bucket_key) (\<lambda>_.
                          LRet (RArr [RInt 0, RInt (current - 1), RInt (bucket_ts + window_us - now_us)]))
                   else LRet (RArr [RInt 1, RInt current, RInt 0])))))))"

definition window :: "string list \<Rightarrow> string list \<Rightarrow> lua" where
  "window KEYS ARGV =
     tonumber (ARGV ! 0) (\<lambda>limit. tonumber (ARGV ! 1) (\<lambda>window_us. tonumber (ARGV ! 3) (\<lambda>ttl.
       with_time_us (\<lambda>now_us.
         LCall (cZREMRANGEBYSCORE (KEYS ! 0) (now_us - window_us)) (\<lambda>_.
           LCall (cZCARD (KEYS ! 0)) (\<lambda>r.
             let n = reply_int r
             in if n \<ge> limit
                then LCall (cZRANGE_FIRST (KEYS ! 0)) (\<lambda>oldest.
                       if length (bulks oldest) \<ge> 2
                       then tonumber (bulks oldest ! 1) (\<lambda>score.
                              LRet (RArr [RInt 0, RInt n, RInt (max 0 (score + window_us - now_us))]))
                       else LRet (RArr [RInt 0, RInt n, RInt window_us]))
                else LCall (cZADD (KEYS ! 0) [(now_us, ARGV ! 2)]) (\<lambda>_.
                       LCall (cEXPIRE (KEYS ! 0) ttl) (\<lambda>_. LRet (RArr [RInt 1, RInt (n + 1), RInt 0])))))))))"

section \<open>Leaky bucket and points\<close>

text \<open>The number in a field of \<^verbatim>\<open>HMGET\<close>, or what stands in for a missing one.\<close>

definition hash_number :: "lua_numbers \<Rightarrow> rreply \<Rightarrow> nat \<Rightarrow> rat \<Rightarrow> (rat \<Rightarrow> lua) \<Rightarrow> lua" where
  "hash_number L r i missing cont = (case r of
     RArr rs \<Rightarrow> (case rs ! i of RBulk s \<Rightarrow> lua_number L s cont | _ \<Rightarrow> cont missing)
   | _ \<Rightarrow> cont missing)"

text \<open>\<^verbatim>\<open>math.ceil((amount * time_us) / capacity)\<close> as an integer reply; a division by zero is not finite.\<close>

definition wait_us :: "lua_numbers \<Rightarrow> rat \<Rightarrow> int \<Rightarrow> int \<Rightarrow> int" where
  "wait_us L amount time_us capacity =
     (if capacity = 0 then non_finite L
      else \<lceil>rnd L (rnd L (amount * of_int time_us) / of_int capacity)\<rceil>)"

definition leaky :: "lua_numbers \<Rightarrow> string list \<Rightarrow> string list \<Rightarrow> lua" where
  "leaky L KEYS ARGV =
     tonumber (ARGV ! 0) (\<lambda>capacity. tonumber (ARGV ! 1) (\<lambda>drain_time_us. tonumber (ARGV ! 2) (\<lambda>ttl.
       with_time_us (\<lambda>now_us.
         LCall (cHMGET (KEYS ! 0) [''level'', ''last_drip'']) (\<lambda>state.
           hash_number L state 0 0 (\<lambda>level. hash_number L state 1 (of_int now_us) (\<lambda>last_drip.
             let elapsed_us = rnd L (of_int now_us - last_drip);
                 drained = rnd L (rnd L (elapsed_us * of_int capacity) / of_int drain_time_us);
                 level = max 0 (rnd L (level - drained))
             in if rnd L (level + 1) > of_int capacity
                then (let overfill = rnd L (rnd L (level + 1) - of_int capacity)
                      in LRet (RArr [RInt 0, RInt (trunc_rat level), RInt (wait_us L overfill drain_time_us capacity)]))
                else (let level = rnd L (level + 1)
                      in LCall (cHSET (KEYS ! 0) [(''level'', num_text L level), (''last_drip'', num_text L (of_int now_us))]) (\<lambda>_.
                         LCall (cEXPIRE (KEYS ! 0) ttl) (\<lambda>_.
                           LRet (RArr [RInt 1, RInt (trunc_rat level), RInt 0])))))))))))"

definition points_check :: "lua_numbers \<Rightarrow> string list \<Rightarrow> string list \<Rightarrow> lua" where
  "points_check L KEYS ARGV =
     tonumber (ARGV ! 0) (\<lambda>capacity. tonumber (ARGV ! 1) (\<lambda>refill_time_us. tonumber (ARGV ! 3) (\<lambda>ttl.
       case parse_int (ARGV ! 2) of None \<Rightarrow> LErr ''points cost must be positive'' | Some cost \<Rightarrow>
         if cost \<le> 0 then LErr ''points cost must be positive''
         else
           with_time_us (\<lambda>now_us.
             LCall (cHMGET (KEYS ! 0) [''points'', ''last_refill'']) (\<lambda>state.
               hash_number L state 0 (of_int capacity) (\<lambda>points. hash_number L state 1 (of_int now_us) (\<lambda>last_refill.
                 let elapsed_us = rnd L (of_int now_us - last_refill);
                     refilled = rnd L (rnd L (elapsed_us * of_int capacity) / of_int refill_time_us);
                     points = min (of_int capacity) (rnd L (points + refilled))
                 in if points < of_int cost
                    then (let needed = rnd L (of_int cost - points)
                          in LRet (RArr [RInt 0, RInt (trunc_rat points), RInt (wait_us L needed refill_time_us capacity)]))
                    else (let points = rnd L (points - of_int cost)
                          in LCall (cHSET (KEYS ! 0) [(''points'', num_text L points), (''last_refill'', num_text L (of_int now_us))]) (\<lambda>_.
                             LCall (cEXPIRE (KEYS ! 0) ttl) (\<lambda>_.
                               LRet (RArr [RInt 1, RInt (trunc_rat points), RInt 0])))))))))))"

definition points_adjust :: "lua_numbers \<Rightarrow> string list \<Rightarrow> string list \<Rightarrow> lua" where
  "points_adjust L KEYS ARGV =
     (case parse_int (ARGV ! 0) of None \<Rightarrow> LErr ''points adjustment must be numeric'' | Some diff \<Rightarrow>
       if (case parse_int (ARGV ! 1) of Some max_refund \<Rightarrow> diff > max_refund | None \<Rightarrow> False) then LErr ''points refund exceeds acquired estimate''
       else tonumber (ARGV ! 2) (\<lambda>capacity. tonumber (ARGV ! 3) (\<lambda>ttl.
         LCall (cHGET (KEYS ! 0) ''points'') (\<lambda>r.
           (\<lambda>cont. case r of RBulk s \<Rightarrow> lua_number L s cont | _ \<Rightarrow> cont 0) (\<lambda>current.
             let new_points = max 0 (min (of_int capacity) (rnd L (current + of_int diff)))
             in LCall (cHSET (KEYS ! 0) [(''points'', num_text L new_points)]) (\<lambda>_.
                LCall (cEXPIRE (KEYS ! 0) ttl) (\<lambda>_. LRet (RInt (trunc_rat new_points)))))))))"

section \<open>Concurrency slots\<close>

primrec push_slots :: "string \<Rightarrow> nat \<Rightarrow> lua \<Rightarrow> lua" where
  "push_slots slots_key 0 cont = cont"
| "push_slots slots_key (Suc n) cont = LCall (cRPUSH slots_key [''slot'']) (\<lambda>_. push_slots slots_key n cont)"

definition concurrent_init :: "string list \<Rightarrow> string list \<Rightarrow> lua" where
  "concurrent_init KEYS ARGV =
     tonumber (ARGV ! 0) (\<lambda>limit. tonumber (ARGV ! 1) (\<lambda>ttl.
       LCall (cEXISTS (KEYS ! 2)) (\<lambda>r.
         if reply_int r = 1
         then LCall (cLLEN (KEYS ! 0)) (\<lambda>n.
                lwhen (reply_int n > 0) (cEXPIRE (KEYS ! 0) ttl)
                  (LCall (cEXPIRE (KEYS ! 1) ttl) (\<lambda>_. LCall (cEXPIRE (KEYS ! 2) ttl) (\<lambda>_. LRet (RInt 0)))))
         else LCall (cSETNX (KEYS ! 2) ''1'') (\<lambda>r.
           if reply_int r = 0 then LRet (RInt 0)
           else LCall (cEXPIRE (KEYS ! 2) ttl) (\<lambda>_.
             LCall (cLLEN (KEYS ! 0)) (\<lambda>slots.
               LCall (cHLEN (KEYS ! 1)) (\<lambda>held.
                 let slots_to_add = limit - (reply_int slots + reply_int held);
                     finish = LCall (cEXPIRE (KEYS ! 1) ttl) (\<lambda>_. LRet (RInt (max slots_to_add 0)))
                 in if slots_to_add > 0
                    then push_slots (KEYS ! 0) (nat slots_to_add) (LCall (cEXPIRE (KEYS ! 0) ttl) (\<lambda>_. finish))
                    else finish)))))))"

definition concurrent_acquire :: "string list \<Rightarrow> string list \<Rightarrow> lua" where
  "concurrent_acquire KEYS ARGV =
     tonumber (ARGV ! 1) (\<lambda>ttl.
       with_time_ms (\<lambda>now_ms.
         LCall (cLPOP (KEYS ! 0)) (\<lambda>slot.
           if slot = RNil then LRet (RArr [RInt 0, RInt 0])
           else LCall (cHSET (KEYS ! 1) [(ARGV ! 0, string_of_int now_ms)]) (\<lambda>_.
             LCall (cEXPIRE (KEYS ! 0) ttl) (\<lambda>_.
               LCall (cEXPIRE (KEYS ! 1) ttl) (\<lambda>_.
                 LCall (cHLEN (KEYS ! 1)) (\<lambda>n. LRet (RArr [RInt 1, n]))))))))"

fun reclaim_locks :: "string \<Rightarrow> string \<Rightarrow> int \<Rightarrow> string list \<Rightarrow> int \<Rightarrow> (int \<Rightarrow> lua) \<Rightarrow> lua" where
  "reclaim_locks slots_key locks_key threshold (lock_id # stamp # rest) reclaimed cont =
     (case parse_int stamp of
        Some acquired_at \<Rightarrow>
          if acquired_at < threshold
          then LCall (cHDEL locks_key lock_id) (\<lambda>_. LCall (cRPUSH slots_key [''slot'']) (\<lambda>_.
                 reclaim_locks slots_key locks_key threshold rest (reclaimed + 1) cont))
          else reclaim_locks slots_key locks_key threshold rest reclaimed cont
      | None \<Rightarrow> reclaim_locks slots_key locks_key threshold rest reclaimed cont)"
| "reclaim_locks slots_key locks_key threshold _ reclaimed cont = cont reclaimed"

definition concurrent_reclaim :: "string list \<Rightarrow> string list \<Rightarrow> lua" where
  "concurrent_reclaim KEYS ARGV =
     tonumber (ARGV ! 0) (\<lambda>lock_timeout_ms. tonumber (ARGV ! 1) (\<lambda>ttl.
       with_time_ms (\<lambda>now_ms.
         LCall (cHGETALL (KEYS ! 1)) (\<lambda>locks.
           reclaim_locks (KEYS ! 0) (KEYS ! 1) (now_ms - lock_timeout_ms) (bulks locks) 0 (\<lambda>reclaimed.
             if reclaimed > 0
             then LCall (cHINCRBY (KEYS ! 2) ''reclaimed'' reclaimed) (\<lambda>_.
                  LCall (cEXPIRE (KEYS ! 0) ttl) (\<lambda>_.
                  LCall (cEXPIRE (KEYS ! 1) ttl) (\<lambda>_.
                  LCall (cEXPIRE (KEYS ! 2) ttl) (\<lambda>_. LRet (RInt reclaimed)))))
             else LRet (RInt reclaimed))))))"

definition concurrent_release :: "string list \<Rightarrow> string list \<Rightarrow> lua" where
  "concurrent_release KEYS ARGV =
     tonumber (ARGV ! 1) (\<lambda>ttl.
       LCall (cHDEL (KEYS ! 1) (ARGV ! 0)) (\<lambda>deleted.
         if reply_int deleted = 0 then LRet (RInt 0)
         else LCall (cRPUSH (KEYS ! 0) [''slot'']) (\<lambda>_.
              LCall (cEXPIRE (KEYS ! 0) ttl) (\<lambda>_.
              LCall (cEXPIRE (KEYS ! 1) ttl) (\<lambda>_. LRet (RInt 1))))))"

end
