(* ===== verification/RateLimit.thy ===== *)
theory RateLimit
  imports RateScripts Middleware ScriptCache Fetcher
begin

text \<open>
  The rate limiters, \<^verbatim>\<open>src/ratelimit\<close>: fixed window (\<^verbatim>\<open>bucket.go\<close>), sliding window (\<^verbatim>\<open>window.go\<close>), leaky
  bucket (\<^verbatim>\<open>leaky.go\<close>), points (\<^verbatim>\<open>points.go\<close>), concurrency slots (\<^verbatim>\<open>concurrent.go\<close>) and no limit
  (\<^verbatim>\<open>unlimited.go\<close>).

  A loop that waits for capacity is given fuel, one per round; \<open>None\<close> is a loop that has not ended.
  Durations are 64-bit: a retry time in microseconds is scaled with wrap-around.
\<close>

section \<open>Rounds of a waiting limiter\<close>

datatype Policy = PolicyRaise | PolicySkip

definition Microseconds :: "int \<Rightarrow> int" where
  "Microseconds d = d sdiv 1000"

definition at_least_one :: "int \<Rightarrow> int" where
  "at_least_one n = (if n < 1 then 1 else n)"

text \<open>The lifetime of a limiter's key: twice its period, in whole seconds.\<close>

definition ttl_seconds :: "int \<Rightarrow> int" where
  "ttl_seconds period_us = at_least_one (i64 (period_us * 2) sdiv 1000000)"

text \<open>
  What follows the script's reply in a round: the decoded values decide between a lease, a waiting
  time, an error and another round after a pause of at most \<open>cap\<close>.
\<close>

definition limiter_round :: "string \<Rightarrow> string \<Rightarrow> int \<Rightarrow> Policy \<Rightarrow> int option \<Rightarrow> int \<Rightarrow> answer \<Rightarrow>
    ('l, 'l acquired) go \<Rightarrow> ('l, 'l acquired) go" where
  "limiter_round name typ limit policy cap deadline r again = (case r of
     Inl e \<Rightarrow> Done (Some (Inl e))
   | Inr result \<Rightarrow> (case script_Ints result 3 of
       Inl e \<Rightarrow> Done (Some (Inl (Wrap (typ @ '' limiter '' @ name) e)))
     | Inr vals \<Rightarrow>
         (let retryIn = i64 (vals ! 2 * 1000)
          in if vals ! 0 = 1 then Done (Some (Inr (Some noopLease_Release, 0)))
             else if policy = PolicySkip then Done (Some (Inr (None, retryIn)))
             else Now (\<lambda>now.
               if now + retryIn > deadline
               then Done (Some (Inl (OverLimitError name typ limit (vals ! 1) retryIn)))
               else (let sleepTime = (case cap of Some c \<Rightarrow> if retryIn > c then c else retryIn | None \<Rightarrow> retryIn)
                     in Wait sleepTime (\<lambda>ticked. if ticked then again else Done (Some (Inl CtxErr))))))))"

definition half_second :: int where
  "half_second = 500 * Millisecond"

section \<open>Fixed window\<close>

record BucketLimiter =
  bk_name :: string
  bk_limit :: int
  bk_interval :: int
  bk_waitTimeout :: int
  bk_policy :: Policy
  bk_keyPrefix :: string

definition default_wait :: "int \<Rightarrow> int" where
  "default_wait d = (if d = 0 then 5 * Second else d)"

definition default_prefix :: "string \<Rightarrow> string \<Rightarrow> string" where
  "default_prefix def p = (if p = [] then def else p)"

definition Bucket :: "BucketLimiter \<Rightarrow> BucketLimiter" where
  "Bucket cfg = cfg\<lparr>bk_waitTimeout := default_wait (bk_waitTimeout cfg),
     bk_keyPrefix := default_prefix ''senna:ratelimit:bucket'' (bk_keyPrefix cfg)\<rparr>"

definition bucket_window_us :: "BucketLimiter \<Rightarrow> int" where
  "bucket_window_us l = at_least_one (Microseconds (bk_interval l))"

primrec bucket_rounds :: "nat \<Rightarrow> BucketLimiter \<Rightarrow> int \<Rightarrow> ('l, 'l acquired) go" where
  "bucket_rounds 0 l deadline = Done None"
| "bucket_rounds (Suc n) l deadline =
     Eval (bucket [bk_keyPrefix l @ '':'' @ bk_name l]
         [string_of_int (bk_limit l), string_of_int (bucket_window_us l), string_of_int (ttl_seconds (bucket_window_us l))])
       (\<lambda>r. limiter_round (bk_name l) ''bucket'' (bk_limit l) (bk_policy l) None deadline r (bucket_rounds n l deadline))"

definition bucket_Acquire :: "nat \<Rightarrow> BucketLimiter \<Rightarrow> ('l, 'l acquired) go" where
  "bucket_Acquire n l = Now (\<lambda>now. bucket_rounds n l (now + bk_waitTimeout l))"

definition bucket_acquirer :: "nat \<Rightarrow> BucketLimiter \<Rightarrow> 'l acquirer" where
  "bucket_acquirer n l = \<lparr>aq_Acquire = bucket_Acquire n l, aq_Name = bk_name l\<rparr>"

definition bucket_WithinLimit :: "nat \<Rightarrow> BucketLimiter \<Rightarrow> 'a \<Rightarrow> ('l, 'a \<times> hres) go \<Rightarrow> ('l, 'a \<times> hres) go" where
  "bucket_WithinLimit n l x fn = runWithinLimit (bucket_acquirer n l) ''bucket'' (bk_limit l) x fn"

text \<open>\<^verbatim>\<open>Get(...).Int()\<close>: the value must be a decimal integer.\<close>

definition bucket_Remaining :: "BucketLimiter \<Rightarrow> ('l, goerr + int) go" where
  "bucket_Remaining l = redisNow (\<lambda>now. case now of
     Inl e \<Rightarrow> Done (Inl e)
   | Inr now \<Rightarrow>
       (let nowUs = now div 1000;
            windowUs = bucket_window_us l;
            bucketTs = nowUs sdiv windowUs * windowUs
        in Cmd (cGET (bk_keyPrefix l @ '':'' @ bk_name l @ '':'' @ string_of_int bucketTs)) (\<lambda>r. Done (case r of
             Inl e \<Rightarrow> if is_nil e then Inr (bk_limit l) else Inl e
           | Inr v \<Rightarrow> (case parse_i64 (reply_str v) of
               None \<Rightarrow> Inl (Plain ''strconv.Atoi: invalid syntax'') | Some n \<Rightarrow> Inr (bk_limit l - n))))))"

section \<open>Sliding window\<close>

record WindowLimiter =
  wl_name :: string
  wl_limit :: int
  wl_interval :: int
  wl_waitTimeout :: int
  wl_policy :: Policy
  wl_keyPrefix :: string

definition Window :: "WindowLimiter \<Rightarrow> WindowLimiter" where
  "Window cfg = cfg\<lparr>wl_waitTimeout := default_wait (wl_waitTimeout cfg),
     wl_keyPrefix := default_prefix ''senna:ratelimit:window'' (wl_keyPrefix cfg)\<rparr>"

definition window_us_of :: "WindowLimiter \<Rightarrow> int" where
  "window_us_of l = at_least_one (Microseconds (wl_interval l))"

primrec window_rounds :: "nat \<Rightarrow> WindowLimiter \<Rightarrow> int \<Rightarrow> ('l, 'l acquired) go" where
  "window_rounds 0 l deadline = Done None"
| "window_rounds (Suc n) l deadline = Uuid (\<lambda>member.
     Eval (window [wl_keyPrefix l @ '':'' @ wl_name l]
         [string_of_int (wl_limit l), string_of_int (window_us_of l), member, string_of_int (ttl_seconds (window_us_of l))])
       (\<lambda>r. limiter_round (wl_name l) ''window'' (wl_limit l) (wl_policy l) (Some half_second) deadline r
          (window_rounds n l deadline)))"

definition window_Acquire :: "nat \<Rightarrow> WindowLimiter \<Rightarrow> ('l, 'l acquired) go" where
  "window_Acquire n l = Now (\<lambda>now. window_rounds n l (now + wl_waitTimeout l))"

definition window_acquirer :: "nat \<Rightarrow> WindowLimiter \<Rightarrow> 'l acquirer" where
  "window_acquirer n l = \<lparr>aq_Acquire = window_Acquire n l, aq_Name = wl_name l\<rparr>"

definition window_WithinLimit :: "nat \<Rightarrow> WindowLimiter \<Rightarrow> 'a \<Rightarrow> ('l, 'a \<times> hres) go \<Rightarrow> ('l, 'a \<times> hres) go" where
  "window_WithinLimit n l x fn = runWithinLimit (window_acquirer n l) ''window'' (wl_limit l) x fn"

text \<open>\<^verbatim>\<open>ZCOUNT\<close> over all scores is the size of the set.\<close>

definition window_Remaining :: "WindowLimiter \<Rightarrow> ('l, goerr + int) go" where
  "window_Remaining l = redisNow (\<lambda>now. case now of
     Inl e \<Rightarrow> Done (Inl e)
   | Inr now \<Rightarrow>
       (let key = wl_keyPrefix l @ '':'' @ wl_name l
        in Cmd (cZREMRANGEBYSCORE key (now div 1000 - window_us_of l)) (\<lambda>r. case r of
             Inl e \<Rightarrow> Done (Inl e)
           | Inr _ \<Rightarrow> Cmd (cZCARD key) (\<lambda>r. Done (case r of
               Inl e \<Rightarrow> if is_nil e then Inr (wl_limit l) else Inl e
             | Inr n \<Rightarrow> Inr (wl_limit l - reply_int n)))))) "

section \<open>Leaky bucket\<close>

record LeakyLimiter =
  lk_name :: string
  lk_capacity :: int
  lk_drainTime :: int
  lk_waitTimeout :: int
  lk_policy :: Policy
  lk_keyPrefix :: string

definition Leaky :: "LeakyLimiter \<Rightarrow> LeakyLimiter" where
  "Leaky cfg = cfg\<lparr>lk_waitTimeout := default_wait (lk_waitTimeout cfg),
     lk_keyPrefix := default_prefix ''senna:ratelimit:leaky'' (lk_keyPrefix cfg)\<rparr>"

definition drain_time_us :: "LeakyLimiter \<Rightarrow> int" where
  "drain_time_us l = at_least_one (Microseconds (lk_drainTime l))"

primrec leaky_rounds :: "nat \<Rightarrow> lua_numbers \<Rightarrow> LeakyLimiter \<Rightarrow> int \<Rightarrow> ('l, 'l acquired) go" where
  "leaky_rounds 0 L l deadline = Done None"
| "leaky_rounds (Suc n) L l deadline =
     Eval (leaky L [lk_keyPrefix l @ '':'' @ lk_name l]
         [string_of_int (lk_capacity l), string_of_int (drain_time_us l), string_of_int (ttl_seconds (drain_time_us l))])
       (\<lambda>r. limiter_round (lk_name l) ''leaky'' (lk_capacity l) (lk_policy l) (Some half_second) deadline r
          (leaky_rounds n L l deadline))"

definition leaky_Acquire :: "nat \<Rightarrow> lua_numbers \<Rightarrow> LeakyLimiter \<Rightarrow> ('l, 'l acquired) go" where
  "leaky_Acquire n L l = Now (\<lambda>now. leaky_rounds n L l (now + lk_waitTimeout l))"

definition leaky_acquirer :: "nat \<Rightarrow> lua_numbers \<Rightarrow> LeakyLimiter \<Rightarrow> 'l acquirer" where
  "leaky_acquirer n L l = \<lparr>aq_Acquire = leaky_Acquire n L l, aq_Name = lk_name l\<rparr>"

definition leaky_WithinLimit :: "nat \<Rightarrow> lua_numbers \<Rightarrow> LeakyLimiter \<Rightarrow> 'a \<Rightarrow> ('l, 'a \<times> hres) go \<Rightarrow> ('l, 'a \<times> hres) go" where
  "leaky_WithinLimit n L l x fn = runWithinLimit (leaky_acquirer n L l) ''leaky'' (lk_capacity l) x fn"

text \<open>
  Reading the state back.  \<open>ParseFloat\<close> is Go's reading of a number, \<open>None\<close> a text it refuses or a
  value that is not finite; \<open>R\<close> is the rounding of \<^verbatim>\<open>float64\<close> arithmetic.  The fields are read in order,
  and the time only when it is there.
\<close>

definition read_balance :: "(string \<Rightarrow> rat option) \<Rightarrow> rreply \<Rightarrow> rat \<Rightarrow> string \<Rightarrow> string \<Rightarrow> goerr + rat \<times> int" where
  "read_balance ParseFloat state missing level_error time_error = (case state of
     RArr [a, b] \<Rightarrow>
       (case (case go_string a of None \<Rightarrow> Inr missing
              | Some s \<Rightarrow> (case ParseFloat s of None \<Rightarrow> Inl (Plain level_error) | Some x \<Rightarrow> Inr x)) of
          Inl e \<Rightarrow> Inl e
        | Inr level \<Rightarrow>
            (case go_string b of
               None \<Rightarrow> Inr (level, 0)
             | Some s \<Rightarrow> (case parse_int s of
                 Some t \<Rightarrow> if in_i64 t then Inr (level, t) else Inl (Plain time_error)
               | None \<Rightarrow> Inl (Plain time_error))))
   | _ \<Rightarrow> Inr (missing, 0))"

definition leaky_Level :: "(string \<Rightarrow> rat option) \<Rightarrow> (rat \<Rightarrow> rat) \<Rightarrow> LeakyLimiter \<Rightarrow> ('l, goerr + rat) go" where
  "leaky_Level ParseFloat R l = redisNow (\<lambda>now. case now of
     Inl e \<Rightarrow> Done (Inl e)
   | Inr now \<Rightarrow>
       Cmd (cHMGET (lk_keyPrefix l @ '':'' @ lk_name l) [''level'', ''last_drip'']) (\<lambda>r. Done (case r of
         Inl e \<Rightarrow> if is_nil e then Inr 0 else Inl e
       | Inr state \<Rightarrow>
           (case read_balance ParseFloat state 0 ''parse leaky limiter level'' ''parse leaky limiter last drip'' of
              Inl e \<Rightarrow> Inl e
            | Inr (level, lastDripUs) \<Rightarrow>
                (let nowUs = now div 1000;
                     lastDripUs = (if lastDripUs = 0 then nowUs else lastDripUs);
                     drained = R (R (R (of_int (nowUs - lastDripUs)) * R (of_int (lk_capacity l))) / R (of_int (drain_time_us l)))
                 in Inr (max 0 (R (level - drained))))))))"

section \<open>Points\<close>

record PointsLimiter =
  pt_name :: string
  pt_capacity :: int
  pt_refillTime :: int
  pt_waitTimeout :: int
  pt_policy :: Policy
  pt_keyPrefix :: string

definition Points :: "PointsLimiter \<Rightarrow> PointsLimiter" where
  "Points cfg = cfg\<lparr>pt_waitTimeout := default_wait (pt_waitTimeout cfg),
     pt_keyPrefix := default_prefix ''senna:ratelimit:points'' (pt_keyPrefix cfg)\<rparr>"

definition refill_time_us :: "PointsLimiter \<Rightarrow> int" where
  "refill_time_us l = at_least_one (Microseconds (pt_refillTime l))"

definition ErrInvalidPointsUsage :: goerr where
  "ErrInvalidPointsUsage = Plain ''invalid points usage''"

primrec points_rounds :: "nat \<Rightarrow> lua_numbers \<Rightarrow> PointsLimiter \<Rightarrow> int \<Rightarrow> int \<Rightarrow> ('l, 'l acquired) go" where
  "points_rounds 0 L l cost deadline = Done None"
| "points_rounds (Suc n) L l cost deadline =
     Eval (points_check L [pt_keyPrefix l @ '':'' @ pt_name l]
         [string_of_int (pt_capacity l), string_of_int (refill_time_us l), string_of_int cost,
          string_of_int (ttl_seconds (refill_time_us l))])
       (\<lambda>r. limiter_round (pt_name l) ''points'' (pt_capacity l) (pt_policy l) (Some half_second) deadline r
          (points_rounds n L l cost deadline))"

definition AcquirePoints :: "nat \<Rightarrow> lua_numbers \<Rightarrow> PointsLimiter \<Rightarrow> int \<Rightarrow> ('l, 'l acquired) go" where
  "AcquirePoints n L l cost =
     (if cost \<le> 0
      then Done (Some (Inl (Wrap (''points limiter '' @ pt_name l @ '': cost must be positive'') ErrInvalidPointsUsage)))
      else Now (\<lambda>now. points_rounds n L l cost (now + pt_waitTimeout l)))"

definition points_Acquire :: "nat \<Rightarrow> lua_numbers \<Rightarrow> PointsLimiter \<Rightarrow> ('l, 'l acquired) go" where
  "points_Acquire n L l = AcquirePoints n L l 1"

definition points_acquirer :: "nat \<Rightarrow> lua_numbers \<Rightarrow> PointsLimiter \<Rightarrow> 'l acquirer" where
  "points_acquirer n L l = \<lparr>aq_Acquire = points_Acquire n L l, aq_Name = pt_name l\<rparr>"

definition WithinLimitCost :: "nat \<Rightarrow> lua_numbers \<Rightarrow> PointsLimiter \<Rightarrow> int \<Rightarrow> 'a \<Rightarrow> ('l, 'a \<times> hres) go \<Rightarrow> ('l, 'a \<times> hres) go" where
  "WithinLimitCost n L l cost x fn = go_bind (AcquirePoints n L l cost) (\<lambda>acquired. case acquired of
     None \<Rightarrow> Done (x, HRunning)
   | Some (Inl e) \<Rightarrow> Done (x, HErr e)
   | Some (Inr (_, waitTime)) \<Rightarrow>
       if waitTime > 0 then Done (x, HErr (OverLimitError (pt_name l) ''points'' (pt_capacity l) 0 waitTime)) else fn)"

definition points_WithinLimit :: "nat \<Rightarrow> lua_numbers \<Rightarrow> PointsLimiter \<Rightarrow> 'a \<Rightarrow> ('l, 'a \<times> hres) go \<Rightarrow> ('l, 'a \<times> hres) go" where
  "points_WithinLimit n L l x fn = WithinLimitCost n L l 1 x fn"

definition adjust :: "lua_numbers \<Rightarrow> PointsLimiter \<Rightarrow> int \<Rightarrow> int \<Rightarrow> ('l, goerr option) go" where
  "adjust L l diff maxRefund =
     Eval (points_adjust L [pt_keyPrefix l @ '':'' @ pt_name l]
         [string_of_int diff, string_of_int maxRefund, string_of_int (pt_capacity l),
          string_of_int (ttl_seconds (refill_time_us l))])
       (\<lambda>r. Done (case r of Inl e \<Rightarrow> Some e | Inr _ \<Rightarrow> None))"

text \<open>A handle is the limiter and the estimate.\<close>

definition PointsUsed :: "lua_numbers \<Rightarrow> PointsLimiter \<Rightarrow> int \<Rightarrow> int \<Rightarrow> ('l, goerr option) go" where
  "PointsUsed L l estimate actual =
     (if actual < 0
      then Done (Some (Wrap (''points limiter '' @ pt_name l @ '': actual usage must be non-negative'') ErrInvalidPointsUsage))
      else (let diff = estimate - actual in if diff = 0 then Done None else adjust L l diff estimate))"

definition WithinLimitEstimate :: "nat \<Rightarrow> lua_numbers \<Rightarrow> PointsLimiter \<Rightarrow> int \<Rightarrow> 'a \<Rightarrow>
    ((int \<Rightarrow> ('l, goerr option) go) \<Rightarrow> ('l, 'a \<times> hres) go) \<Rightarrow> ('l, 'a \<times> hres) go" where
  "WithinLimitEstimate n L l estimate x fn = WithinLimitCost n L l estimate x (fn (PointsUsed L l estimate))"

definition AvailablePoints :: "(string \<Rightarrow> rat option) \<Rightarrow> (rat \<Rightarrow> rat) \<Rightarrow> PointsLimiter \<Rightarrow> ('l, goerr + rat) go" where
  "AvailablePoints ParseFloat R l = redisNow (\<lambda>now. case now of
     Inl e \<Rightarrow> Done (Inl e)
   | Inr now \<Rightarrow>
       Cmd (cHMGET (pt_keyPrefix l @ '':'' @ pt_name l) [''points'', ''last_refill'']) (\<lambda>r. Done (case r of
         Inl e \<Rightarrow> if is_nil e then Inr (R (of_int (pt_capacity l))) else Inl e
       | Inr state \<Rightarrow>
           (case read_balance ParseFloat state (R (of_int (pt_capacity l))) ''parse points limiter balance''
                   ''parse points limiter last refill'' of
              Inl e \<Rightarrow> Inl e
            | Inr (points, lastRefillUs) \<Rightarrow>
                (let nowUs = now div 1000;
                     lastRefillUs = (if lastRefillUs = 0 then nowUs else lastRefillUs);
                     refilled = R (R (R (of_int (nowUs - lastRefillUs)) * R (of_int (pt_capacity l))) / R (of_int (refill_time_us l)))
                 in Inr (min (R (of_int (pt_capacity l))) (R (points + refilled))))))))"

section \<open>Concurrency slots\<close>

text \<open>\<open>cn_initialized\<close> is the flag of one process; a run that initializes returns the limiter with it set.\<close>

record ConcurrentLimiter =
  cn_name :: string
  cn_limit :: int
  cn_lockTimeout :: int
  cn_waitTimeout :: int
  cn_policy :: Policy
  cn_keyPrefix :: string
  cn_initialized :: bool

definition Concurrent :: "ConcurrentLimiter \<Rightarrow> ConcurrentLimiter" where
  "Concurrent cfg = cfg\<lparr>cn_lockTimeout := (if cn_lockTimeout cfg = 0 then 30 * Second else cn_lockTimeout cfg),
     cn_waitTimeout := default_wait (cn_waitTimeout cfg),
     cn_keyPrefix := default_prefix ''senna:ratelimit:concurrent'' (cn_keyPrefix cfg), cn_initialized := False\<rparr>"

definition slotsKey :: "ConcurrentLimiter \<Rightarrow> string" where
  "slotsKey l = cn_keyPrefix l @ '':'' @ cn_name l @ '':slots''"

definition locksKey :: "ConcurrentLimiter \<Rightarrow> string" where
  "locksKey l = cn_keyPrefix l @ '':'' @ cn_name l @ '':locks''"

definition initKey :: "ConcurrentLimiter \<Rightarrow> string" where
  "initKey l = cn_keyPrefix l @ '':'' @ cn_name l @ '':init''"

definition metricsKey :: "ConcurrentLimiter \<Rightarrow> string" where
  "metricsKey l = cn_keyPrefix l @ '':'' @ cn_name l @ '':metrics''"

definition generateLockID :: "int \<Rightarrow> string \<Rightarrow> string" where
  "generateLockID pid uuid = string_of_int pid @ '':'' @ uuid"

definition Milliseconds :: "int \<Rightarrow> int" where
  "Milliseconds d = d sdiv 1000000"

definition ttlSeconds :: "ConcurrentLimiter \<Rightarrow> int" where
  "ttlSeconds l = at_least_one (i64 (Milliseconds (cn_lockTimeout l) * 3) sdiv 1000)"

definition ensureInitialized :: "ConcurrentLimiter \<Rightarrow> ('l, ConcurrentLimiter \<times> goerr option) go" where
  "ensureInitialized l =
     (if cn_initialized l then Done (l, None)
      else Eval (concurrent_init [slotsKey l, locksKey l, initKey l] [string_of_int (cn_limit l), string_of_int (ttlSeconds l)])
        (\<lambda>r. Done (case r of Inl e \<Rightarrow> (l, Some e) | Inr _ \<Rightarrow> (l\<lparr>cn_initialized := True\<rparr>, None))))"

definition reclaim :: "ConcurrentLimiter \<Rightarrow> ('l, goerr + int) go" where
  "reclaim l =
     Eval (concurrent_reclaim [slotsKey l, locksKey l, metricsKey l]
         [string_of_int (Milliseconds (cn_lockTimeout l)), string_of_int (ttlSeconds l)])
       (\<lambda>r. Done (case r of
          Inl e \<Rightarrow> Inl e
        | Inr x \<Rightarrow> (case script_Int x of
            Inl e \<Rightarrow> Inl (Wrap (''concurrent limiter '' @ cn_name l @ '' reclaim'') e) | Inr n \<Rightarrow> Inr n)))"

definition concurrent_release_call :: "ConcurrentLimiter \<Rightarrow> string \<Rightarrow> ('l, goerr option) go" where
  "concurrent_release_call l lockID =
     Eval (concurrent_release [slotsKey l, locksKey l] [lockID, string_of_int (ttlSeconds l)])
       (\<lambda>r. Done (case r of Inl e \<Rightarrow> Some e | Inr _ \<Rightarrow> None))"

text \<open>A lease remembers the outcome of its first release.\<close>

record concurrentLease =
  le_lockID :: string
  le_outcome :: "goerr option option"

definition lease_Release :: "ConcurrentLimiter \<Rightarrow> concurrentLease \<Rightarrow> ('l, goerr option \<times> concurrentLease) go" where
  "lease_Release l le =
     (if le_lockID le = [] then Done (None, le)
      else (case le_outcome le of
              Some err \<Rightarrow> Done (err, le)
            | None \<Rightarrow> go_bind (concurrent_release_call l (le_lockID le)) (\<lambda>err. Done (err, le\<lparr>le_outcome := Some err\<rparr>))))"

primrec concurrent_rounds :: "nat \<Rightarrow> ConcurrentLimiter \<Rightarrow> string \<Rightarrow> int \<Rightarrow> ('l, 'l acquired) go" where
  "concurrent_rounds 0 l lockID deadline = Done None"
| "concurrent_rounds (Suc n) l lockID deadline = go_bind (reclaim l) (\<lambda>r. case r of
     Inl e \<Rightarrow> Done (Some (Inl (Wrap ''reclaim expired concurrent limiter slots'' e)))
   | Inr _ \<Rightarrow>
       Eval (concurrent_acquire [slotsKey l, locksKey l] [lockID, string_of_int (ttlSeconds l)]) (\<lambda>r. case r of
         Inl e \<Rightarrow> Done (Some (Inl e))
       | Inr result \<Rightarrow> (case script_Ints result 1 of
           Inl e \<Rightarrow> Done (Some (Inl (Wrap (''concurrent limiter '' @ cn_name l) e)))
         | Inr vals \<Rightarrow>
             if vals ! 0 = 1 then Done (Some (Inr (Some
                 (go_bind (lease_Release l \<lparr>le_lockID = lockID, le_outcome = None\<rparr>) (\<lambda>(err, _). Done err)), 0)))
             else if cn_policy l = PolicySkip then Done (Some (Inr (None, cn_waitTimeout l)))
             else Now (\<lambda>now.
               if now > deadline
               then Done (Some (Inl (OverLimitError (cn_name l) ''concurrent'' (cn_limit l) (cn_limit l) (cn_waitTimeout l))))
               else Wait (100 * Millisecond) (\<lambda>ticked.
                 if ticked then concurrent_rounds n l lockID deadline else Done (Some (Inl CtxErr)))))))"

definition concurrent_Acquire :: "nat \<Rightarrow> int \<Rightarrow> ConcurrentLimiter \<Rightarrow> ('l, 'l acquired \<times> ConcurrentLimiter) go" where
  "concurrent_Acquire n pid l = go_bind (ensureInitialized l) (\<lambda>(l, err). case err of
     Some e \<Rightarrow> Done (Some (Inl e), l)
   | None \<Rightarrow> Now (\<lambda>now. Uuid (\<lambda>uuid.
       go_bind (concurrent_rounds n l (generateLockID pid uuid) (now + cn_waitTimeout l)) (\<lambda>r. Done (r, l)))))"

definition concurrent_acquirer :: "nat \<Rightarrow> int \<Rightarrow> ConcurrentLimiter \<Rightarrow> 'l acquirer" where
  "concurrent_acquirer n pid l =
     \<lparr>aq_Acquire = go_bind (concurrent_Acquire n pid l) (\<lambda>(r, _). Done r), aq_Name = cn_name l\<rparr>"

definition concurrent_WithinLimit :: "nat \<Rightarrow> int \<Rightarrow> ConcurrentLimiter \<Rightarrow> 'a \<Rightarrow> ('l, 'a \<times> hres) go \<Rightarrow> ('l, 'a \<times> hres) go" where
  "concurrent_WithinLimit n pid l x fn = runWithinLimit (concurrent_acquirer n pid l) ''concurrent'' (cn_limit l) x fn"

definition Held :: "ConcurrentLimiter \<Rightarrow> ('l, goerr + int) go" where
  "Held l = Cmd (cHLEN (locksKey l)) (\<lambda>r. Done (case r of
     Inl e \<Rightarrow> if is_nil e then Inr 0 else Inl e | Inr n \<Rightarrow> Inr (reply_int n)))"

section \<open>No limit\<close>

definition Unlimited :: "string \<Rightarrow> 'l acquirer" where
  "Unlimited name = \<lparr>aq_Acquire = Done (Some (Inr (Some noopLease_Release, 0))), aq_Name = name\<rparr>"

definition unlimited_WithinLimit :: "'a \<Rightarrow> ('l, 'a \<times> hres) go \<Rightarrow> ('l, 'a \<times> hres) go" where
  "unlimited_WithinLimit x fn = fn"

end
