(* ===== verification/ScriptLogic.thy ===== *)
theory ScriptLogic
  imports GoProg QueueScripts
begin

text \<open>
  Weakest preconditions of scripts: \<open>wp I p d\<close> holds when every run of \<open>p\<close> from \<open>d\<close>, on a server that
  enumerates collections in any order, ends in a state with \<open>I\<close>, whether the script returns or fails.
\<close>

definition may :: "rcmd \<Rightarrow> db \<Rightarrow> rreply \<Rightarrow> db \<Rightarrow> bool" where
  "may c d r d' \<longleftrightarrow> (case c of
     cHGETALL k \<Rightarrow> d' = d \<and>
       (if hashy d k then \<exists>ps. r = RArr (flat_pairs ps) \<and> mset ps = mset (hsh d k) else r = wrongtype)
   | cSMEMBERS k \<Rightarrow> d' = d \<and>
       (if setty d k then \<exists>ms. r = RArr (map RBulk ms) \<and> mset ms = mset (sts d k) else r = wrongtype)
   | _ \<Rightarrow> exec c d = (r, d'))"

primrec wp :: "(db \<Rightarrow> bool) \<Rightarrow> lua \<Rightarrow> db \<Rightarrow> bool" where
  "wp I (LRet r) d = I d"
| "wp I (LErr e) d = I d"
| "wp I (LCall c f) d = (\<forall>r d'. may c d r d' \<longrightarrow> (case r of RErr _ \<Rightarrow> I d' | _ \<Rightarrow> wp I (f r) d'))"

lemma may_exec: "\<not> enum_cmd c \<Longrightarrow> may c d r d' \<longleftrightarrow> exec c d = (r, d')"
  by (cases c) (simp_all add: may_def)

lemma wp_LCallI:
  assumes "\<And>r d'. may c d r d' \<Longrightarrow> \<forall>e. r \<noteq> RErr e \<Longrightarrow> wp I (f r) d'" "\<And>e d'. may c d (RErr e) d' \<Longrightarrow> I d'"
  shows "wp I (LCall c f) d"
  using assms by (auto split: rreply.split)

lemma wp_exec:
  assumes "\<not> enum_cmd c" "\<And>r e. exec c d = (r, e) \<Longrightarrow> if \<exists>m. r = RErr m then I e else wp I (f r) e"
  shows "wp I (LCall c f) d"
  using assms by (intro wp_LCallI) (fastforce simp: may_exec simp del: exec.simps)+

lemma wp_tonumber: "(\<And>i. wp I (f i) d) \<Longrightarrow> I d \<Longrightarrow> wp I (tonumber s f) d"
  by (auto simp: tonumber_def split: option.splits)

context redis_server
begin

lemma may_view:
  assumes "call c s = (r, s')"
  shows "may c (view s) r (view s')"
proof (cases "enum_cmd c")
  case True
  then show ?thesis
    using assms hgetall smembers unfolding enum_cmd_iff by (auto simp: may_def)
qed (use assms command may_exec in simp)

lemma wp_sound: "wp I p (view s) \<Longrightarrow> run_lua call p s = (x, s') \<Longrightarrow> I (view s')"
proof (induction p arbitrary: s)
  case (LCall c f)
  obtain r s1 where c: "call c s = (r, s1)"
    by (cases "call c s")
  have "case r of RErr _ \<Rightarrow> I (view s1) | _ \<Rightarrow> wp I (f r) (view s1)"
    using LCall.prems(1) may_view [OF c] by simp
  then show ?case
    using LCall.prems(2) LCall.IH [OF rangeI, of r s1] c by (cases r) simp_all
qed auto

lemma wp_preserves:
  assumes "\<And>d. I d \<Longrightarrow> wp I p d"
  shows "preserves (run_lua call p) (\<lambda>s. I (view s))"
  unfolding preserves_def
proof (intro allI impI)
  fix s
  assume "I (view s)"
  then show "I (view (snd (run_lua call p s)))"
    using wp_sound [of I p s] assms by (cases "run_lua call p s") auto
qed

lemma pool_invariant_wp:
  assumes "(pool_step call elapse)\<^sup>*\<^sup>* (ps, s) (ps', s')" "procs_all P Q ps" "I (view s)"
    and "\<And>x d. P x \<Longrightarrow> I d \<Longrightarrow> wp I x d" "\<And>c. Q c \<Longrightarrow> sound_cmd exec I c"
    and "\<And>a b. elapse a b \<Longrightarrow> I (view a) \<Longrightarrow> I (view b)"
  shows "I (view s')"
  using pool_invariant [where I = "\<lambda>s. I (view s)" and P = P and Q = Q, OF assms(1,2)] assms(3-6)
    wp_preserves sound_command by blast

end

end
