(* ===== verification/LimiterBounds.thy ===== *)
theory LimiterBounds
  imports RateLimit ScriptLogic
begin

text \<open>
  What the limiters guarantee.  Concurrency slots: free slots and held locks never exceed the limit,
  on any server, for any interleaving of limiter calls with lost and repeated requests, and whatever
  keys expire.
\<close>

section \<open>Slots and locks\<close>

definition fits :: "string \<Rightarrow> string \<Rightarrow> nat \<Rightarrow> db \<Rightarrow> bool" where
  "fits S H n d \<longleftrightarrow> 0 \<le> clock_us d \<and> distinct (map fst (hsh d H)) \<and> length (lst d S) + length (hsh d H) \<le> n"

lemma fits_mono: "fits S H n d \<Longrightarrow> n \<le> m \<Longrightarrow> fits S H m d"
  by (simp add: fits_def)

lemma fits_same: "same_at S d e \<Longrightarrow> same_at H d e \<Longrightarrow> clock_us e = clock_us d \<Longrightarrow> fits S H n d \<Longrightarrow> fits S H n e"
  by (simp add: fits_def same_at_def lst_def hsh_def)

lemma fits_frame: "S \<notin> set (writes c) \<Longrightarrow> H \<notin> set (writes c) \<Longrightarrow> fits S H n d \<Longrightarrow> exec c d = (r, e) \<Longrightarrow> fits S H n e"
  using fits_same [of S d e H n] exec_frame [of S c d] exec_frame [of H c d] exec_clock [of c d] by simp

lemma fits_drop: "fits S H n d \<Longrightarrow> fits S H n (drop_key x d)"
  by (auto simp: fits_def redis_simps)

lemma fits_expire: "fits S H n d \<Longrightarrow> exec (cEXPIRE x t) d = (r, e) \<Longrightarrow> fits S H n e"
  by (auto simp: expire_in_def fits_drop split: if_splits) (simp add: fits_def lst_def hsh_def)

lemma fits_tick: "fits S H n d \<Longrightarrow> 0 \<le> t \<Longrightarrow> fits S H n (tick t d)"
  by (auto simp: fits_def tick_def lst_def hsh_def Let_def split: option.splits rval.splits)

lemma fits_sound:
  assumes "S \<notin> set (writes c)" "H \<notin> set (writes c)"
  shows "sound_cmd exec (fits S H n) c"
proof -
  have "preserves (exec c) (fits S H n)"
    using fits_frame [OF assms] unfolding preserves_def by (metis prod.collapse)
  moreover have "ans_ok c (go_reply (fst (exec c d)))" if "fits S H n d" for d
    using that ans_ok_reply by (cases "c = cTIME") (auto simp: ans_ok_def go_reply_def fits_def)
  ultimately show ?thesis
    by (simp add: sound_cmd_def)
qed

lemma with_not:
  "\<not> listy d k \<Longrightarrow> with_list d k f = (wrongtype, d)" "\<not> hashy d k \<Longrightarrow> with_hash d k g = (wrongtype, d)"
  by (auto simp: with_list_def with_hash_def listy_def hashy_def rtype_def split: option.splits rval.splits)

lemma fits_pop:
  assumes "fits S H n d" "S \<noteq> H" "exec (cLPOP S) d = (r, e)"
  shows "r = RNil \<and> fits S H n e \<or> (\<exists>m. n = Suc m \<and> fits S H m e) \<or> (\<exists>m. r = RErr m \<and> fits S H n e)"
proof (cases "listy d S")
  case True
  then show ?thesis
    using assms by (cases "lst d S"; cases n) (auto simp: with_list_ok fits_def lst_put hsh_put)
qed (use assms in \<open>auto simp: with_not wrongtype_def\<close>)

lemma fits_push:
  assumes "fits S H n d" "S \<noteq> H" "exec (cRPUSH S [x]) d = (r, e)"
  shows "fits S H (Suc n) e \<and> hsh e H = hsh d H"
proof (cases "listy d S")
  case True
  then show ?thesis
    using assms by (auto simp: with_list_ok fits_def lst_put hsh_put)
qed (use assms in \<open>auto simp: with_not fits_def\<close>)

lemma length_update_le: "length (AList.update k v h) \<le> Suc (length h)"
  by (induction h) auto

lemma length_delete:
  "map_of h k \<noteq> None \<Longrightarrow> Suc (length (AList.delete k h)) \<le> length h" "length (AList.delete k h) \<le> length h"
  by (induction h) (auto simp: AList.delete_eq intro: le_SucI)

lemma fits_lock:
  assumes "fits S H n d" "S \<noteq> H" "exec (cHSET H [p]) d = (r, e)"
  shows "fits S H (Suc n) e"
proof (cases "hashy d H")
  case True
  then show ?thesis
    using assms length_update_le [of "fst p" "snd p" "hsh d H"]
    by (auto simp: with_hash_ok fits_def lst_put hsh_put hset1_def distinct_update)
qed (use assms in \<open>auto simp: with_not fits_def\<close>)

lemma fits_unlock:
  assumes "fits S H n d" "S \<noteq> H" "exec (cHDEL H f) d = (r, e)"
  shows "if r = RInt 1 then \<exists>m. n = Suc m \<and> fits S H m e \<and> hsh e H = AList.delete f (hsh d H)
    else fits S H n e \<and> (r = RInt 0 \<and> map_of (hsh d H) f = None \<or> r = wrongtype)"
proof (cases "hashy d H")
  case True
  then have e: "e = put H (VHash (AList.delete f (hsh d H))) d" "r = RInt (case map_of (hsh d H) f of None \<Rightarrow> 0 | Some _ \<Rightarrow> 1)"
    using assms by (simp_all add: with_hash_ok)
  show ?thesis
  proof (cases "map_of (hsh d H) f")
    case None
    then show ?thesis
      using assms e length_delete(2) [of f "hsh d H"] by (auto simp: fits_def lst_put hsh_put distinct_delete)
  next
    case (Some v)
    then have "Suc (length (AList.delete f (hsh d H))) \<le> length (hsh d H)"
      by (intro length_delete(1)) simp
    then show ?thesis
      using assms e Some by (cases n) (auto simp: fits_def lst_put hsh_put distinct_delete)
  qed
qed (use assms in \<open>auto simp: with_not fits_def wrongtype_def\<close>)

lemma fits_sizes:
  assumes "exec (cLLEN S) d = (r, e)"
  shows "e = d \<and> (r = RInt (int (length (lst d S))) \<or> r = wrongtype)"
  using assms by (cases "listy d S") (auto simp: with_list_ok with_not)

lemma fits_held:
  assumes "exec (cHLEN H) d = (r, e)"
  shows "e = d \<and> (r = RInt (int (length (hsh d H))) \<or> r = wrongtype)"
  using assms by (cases "hashy d H") (auto simp: with_hash_ok with_not)

section \<open>The scripts keep the bound\<close>

lemma wp_frame:
  assumes "S \<notin> set (writes c)" "H \<notin> set (writes c)" "\<not> enum_cmd c" "fits S H n d" "n \<le> N"
    and "\<And>r d'. fits S H n d' \<Longrightarrow> wp (fits S H N) (f r) d'"
  shows "wp (fits S H N) (LCall c f) d"
proof (rule wp_exec)
  fix r e
  assume "exec c d = (r, e)"
  then have "fits S H n e"
    using fits_frame assms by blast
  then show "if \<exists>m. r = RErr m then fits S H N e else wp (fits S H N) (f r) e"
    using assms(5,6) fits_mono by auto
qed (use assms in simp)

lemma wp_expire:
  assumes "fits S H n d" "n \<le> N" "\<And>r d'. fits S H n d' \<Longrightarrow> wp (fits S H N) (f r) d'"
  shows "wp (fits S H N) (LCall (cEXPIRE x t) f) d"
proof (rule wp_exec)
  fix r e
  assume "exec (cEXPIRE x t) d = (r, e)"
  then have "fits S H n e"
    using fits_expire assms(1) by blast
  then show "if \<exists>m. r = RErr m then fits S H N e else wp (fits S H N) (f r) e"
    using assms(2,3) fits_mono by auto
qed simp

lemma wp_time:
  assumes "fits S H n d" "n \<le> N" "\<And>i d'. fits S H n d' \<Longrightarrow> wp (fits S H N) (f i) d'"
  shows "wp (fits S H N) (with_time_ms f) d"
  unfolding with_time_ms_def
  using assms by (intro wp_frame [of _ _ _ n] wp_tonumber) (auto intro: fits_mono)

lemma wp_push_slots:
  assumes "fits S H n d" "S \<noteq> H" "n + k \<le> N" "\<And>d'. fits S H (n + k) d' \<Longrightarrow> wp (fits S H N) p d'"
  shows "wp (fits S H N) (push_slots S k p) d"
  using assms
proof (induction k arbitrary: n d)
  case (Suc k)
  show ?case
    unfolding push_slots.simps
  proof (rule wp_exec)
    fix r e
    assume "exec (cRPUSH S [''slot'']) d = (r, e)"
    then have "fits S H (Suc n) e"
      using fits_push Suc.prems(1,2) by blast
    then show "if \<exists>m. r = RErr m then fits S H N e else wp (fits S H N) (push_slots S k p) e"
      using Suc.IH [of "Suc n" e] Suc.prems fits_mono [of S H "Suc n" e N] by simp
  qed simp
qed simp

lemma wp_acquire:
  assumes "fits S H N d" "S \<noteq> H"
  shows "wp (fits S H N) (concurrent_acquire [S, H] [lockID, ttl]) d"
proof -
  have held: "wp (fits S H N) (LCall (cHLEN H) (\<lambda>n. LRet (RArr [RInt 1, n]))) d" if "fits S H N d" for d
    using that by (intro wp_frame [of _ _ _ N]) auto
  have lock: "wp (fits S H N) (LCall (cHSET H [p]) f) d"
    if "fits S H m d" "Suc m = N" "\<And>r d'. fits S H N d' \<Longrightarrow> wp (fits S H N) (f r) d'" for p f m d
    using that fits_lock [OF that(1) assms(2)] by (intro wp_exec) (auto simp del: exec.simps)
  have pop: "wp (fits S H N) (LCall (cLPOP S) f) d"
    if "fits S H N d" "\<And>d'. fits S H N d' \<Longrightarrow> wp (fits S H N) (f RNil) d'"
      "\<And>r m d'. r \<noteq> RNil \<Longrightarrow> Suc m = N \<Longrightarrow> fits S H m d' \<Longrightarrow> wp (fits S H N) (f r) d'" for f d
  proof (rule wp_exec)
    fix r e
    assume "exec (cLPOP S) d = (r, e)"
    from fits_pop [OF that(1) assms(2) this]
    have "r = RNil \<and> fits S H N e \<or> (\<exists>m. Suc m = N \<and> fits S H m e) \<or> (\<exists>m. r = RErr m) \<and> fits S H N e"
      by auto
    then show "if \<exists>m. r = RErr m then fits S H N e else wp (fits S H N) (f r) e"
      using that(2) [of e] that(3) [of r _ e] fits_mono [of S H _ e N] by (cases "r = RNil") (auto intro: le_SucI)
  qed simp
  have tail: "wp (fits S H N) (LCall (cHSET H [p]) (\<lambda>_. LCall (cEXPIRE S t) (\<lambda>_. LCall (cEXPIRE H t) (\<lambda>_.
      LCall (cHLEN H) (\<lambda>n. LRet (RArr [RInt 1, n])))))) d" if "fits S H m d" "Suc m = N" for p t m d
    using that by (intro lock [of m] wp_expire [of _ _ N] held) auto
  show ?thesis
    unfolding concurrent_acquire_def
  proof (rule wp_tonumber)
    fix t
    show "wp (fits S H N) (with_time_ms (\<lambda>now_ms. LCall (cLPOP ([S, H] ! 0)) (\<lambda>slot.
        if slot = RNil then LRet (RArr [RInt 0, RInt 0])
        else LCall (cHSET ([S, H] ! 1) [([lockID, ttl] ! 0, string_of_int now_ms)]) (\<lambda>_. LCall (cEXPIRE ([S, H] ! 0) t) (\<lambda>_.
          LCall (cEXPIRE ([S, H] ! 1) t) (\<lambda>_. LCall (cHLEN ([S, H] ! 1)) (\<lambda>n. LRet (RArr [RInt 1, n])))))))) d"
      using assms(1) tail by (intro wp_time [of _ _ N]) (auto simp del: wp.simps(3) intro!: pop)
  qed (rule assms(1))
qed

lemma wp_release:
  assumes "fits S H N d" "S \<noteq> H"
  shows "wp (fits S H N) (concurrent_release [S, H] [lockID, ttl]) d"
proof -
  have finish: "wp (fits S H N) (LCall (cEXPIRE S t) (\<lambda>_. LCall (cEXPIRE H t) (\<lambda>_. LRet (RInt 1)))) d" if "fits S H N d" for t d
    using that by (intro wp_expire [of _ _ N]) auto
  have push: "wp (fits S H N) (LCall (cRPUSH S [''slot'']) (\<lambda>_. LCall (cEXPIRE S t) (\<lambda>_. LCall (cEXPIRE H t) (\<lambda>_. LRet (RInt 1))))) d"
    if "fits S H m d" "Suc m = N" for t m d
    using fits_push [OF that(1) assms(2)] finish that(2) by (intro wp_exec) (auto simp del: exec.simps wp.simps(3))
  have "wp (fits S H N) (LCall (cHDEL H lockID) (\<lambda>deleted. if reply_int deleted = 0 then LRet (RInt 0)
      else LCall (cRPUSH S [''slot'']) (\<lambda>_. LCall (cEXPIRE S t) (\<lambda>_. LCall (cEXPIRE H t) (\<lambda>_. LRet (RInt 1)))))) d" for t
  proof (rule wp_exec)
    fix r e
    assume "exec (cHDEL H lockID) d = (r, e)"
    from fits_unlock [OF assms this] push show "if \<exists>m. r = RErr m then fits S H N e else wp (fits S H N)
        (if reply_int r = 0 then LRet (RInt 0)
         else LCall (cRPUSH S [''slot'']) (\<lambda>_. LCall (cEXPIRE S t) (\<lambda>_. LCall (cEXPIRE H t) (\<lambda>_. LRet (RInt 1))))) e"
      by (auto simp del: wp.simps(3) simp: wrongtype_def reply_int_def split: if_splits)
  qed simp
  then show ?thesis
    unfolding concurrent_release_def nth_Cons_0 nth_Cons_Suc One_nat_def by (intro wp_tonumber assms(1))
qed

lemma wp_fill:
  assumes "fits S H (nat limit) d" "S \<noteq> H" "k = limit - int (length (lst d S) + length (hsh d H))"
    and finish: "\<And>d. fits S H (nat limit) d \<Longrightarrow> wp (fits S H (nat limit)) p d"
  shows "wp (fits S H (nat limit)) (if k > 0 then push_slots S (nat k) (LCall (cEXPIRE S t) (\<lambda>_. p)) else p) d"
proof (cases "k > 0")
  case True
  let ?n = "length (lst d S) + length (hsh d H)"
  have exact: "fits S H ?n d" and room: "?n + nat k = nat limit"
    using assms(1,3) True by (simp_all add: fits_def)
  have "wp (fits S H (nat limit)) (push_slots S (nat k) (LCall (cEXPIRE S t) (\<lambda>_. p))) d"
    using room finish by (intro wp_push_slots [OF exact assms(2)] wp_expire [of _ _ "nat limit"]) auto
  then show ?thesis
    using True by simp
qed (use assms(1) finish in simp)

lemma wp_sizes:
  assumes "fits S H N d"
    and "wp (fits S H N) (f (RInt (int (length (lst d S)))) (RInt (int (length (hsh d H))))) d"
  shows "wp (fits S H N) (LCall (cLLEN S) (\<lambda>slots. LCall (cHLEN H) (f slots))) d"
proof -
  have "wp (fits S H N) (LCall (cHLEN H) (f (RInt (int (length (lst d S)))))) d"
    using assms fits_held by (intro wp_exec) (fastforce simp: wrongtype_def simp del: exec.simps)+
  then show ?thesis
    using assms(1) fits_sizes by (intro wp_exec) (fastforce simp: wrongtype_def simp del: exec.simps wp.simps(3))+
qed

lemma tonumber_int: "tonumber (string_of_int i) f = f i"
  by (simp add: tonumber_def)

lemma wp_init:
  assumes "fits S H (nat limit) d" "S \<noteq> H" "I \<noteq> S" "I \<noteq> H"
  shows "wp (fits S H (nat limit)) (concurrent_init [S, H, I] [string_of_int limit, ttl]) d"
proof -
  let ?N = "nat limit"
  let ?finish = "\<lambda>t k. LCall (cEXPIRE H t) (\<lambda>_. LRet (RInt (max k 0)))"
  let ?refresh = "\<lambda>t. LCall (cLLEN S) (\<lambda>n. lwhen (reply_int n > 0) (cEXPIRE S t)
      (LCall (cEXPIRE H t) (\<lambda>_. LCall (cEXPIRE I t) (\<lambda>_. LRet (RInt 0)))))"
  let ?size = "\<lambda>t. LCall (cLLEN S) (\<lambda>slots. LCall (cHLEN H) (\<lambda>held. let slots_to_add = limit - (reply_int slots + reply_int held) in
      if slots_to_add > 0 then push_slots S (nat slots_to_add) (LCall (cEXPIRE S t) (\<lambda>_. ?finish t slots_to_add)) else ?finish t slots_to_add))"
  have finish: "wp (fits S H ?N) (?finish t k) d" if "fits S H ?N d" for t k d
    using that by (intro wp_expire [of _ _ ?N]) auto
  have refresh: "wp (fits S H ?N) (?refresh t) d" if "fits S H ?N d" for t d
    using that by (intro wp_frame [of _ _ _ ?N]) (auto simp: lwhen_def simp del: wp.simps(3) intro!: wp_expire [of _ _ ?N])
  have size: "wp (fits S H ?N) (?size t) d" if "fits S H ?N d" for t d
    using that finish assms(2) unfolding Let_def
    by (intro wp_sizes wp_fill) (auto simp: reply_int_def simp del: wp.simps(3))
  have claim: "wp (fits S H ?N) (LCall (cSETNX I v) (\<lambda>r. if reply_int r = 0 then LRet (RInt 0) else LCall (cEXPIRE I t) (\<lambda>_. ?size t))) d"
    if "fits S H ?N d" for v t d
    using that assms(3,4) size by (intro wp_frame [of _ _ _ ?N]) (auto simp del: wp.simps(3) intro!: wp_expire [of _ _ ?N])
  have "wp (fits S H ?N) (LCall (cEXISTS I) (\<lambda>r. if reply_int r = 1 then ?refresh t
      else LCall (cSETNX I ''1'') (\<lambda>r. if reply_int r = 0 then LRet (RInt 0) else LCall (cEXPIRE I t) (\<lambda>_. ?size t)))) d" for t
    using assms(1) claim refresh by (intro wp_frame [of _ _ _ ?N]) (auto simp del: wp.simps(3))
  then show ?thesis
    unfolding concurrent_init_def nth_Cons_0 nth_Cons_Suc One_nat_def numeral_2_eq_2 tonumber_int Let_def
    by (intro wp_tonumber assms(1))
qed

lemma bulks_pairs: "bulks (RArr (flat_pairs ps)) = concat (map (\<lambda>(f, v). [f, v]) ps)"
  by (induction ps rule: flat_pairs.induct) (auto simp: bulks_def reply_str_def)

lemma wp_reclaim_locks:
  assumes "fits S H N d" "S \<noteq> H" "distinct (map fst ps)" "fst ` set ps \<subseteq> dom (map_of (hsh d H))"
    and "\<And>n d'. fits S H N d' \<Longrightarrow> wp (fits S H N) (cont n) d'"
  shows "wp (fits S H N) (reclaim_locks S H t (concat (map (\<lambda>(f, v). [f, v]) ps)) n cont) d"
  using assms(1,3,4)
proof (induction ps arbitrary: d n)
  case (Cons p ps)
  obtain f v where p: "p = (f, v)"
    by fastforce
  let ?rest = "\<lambda>n. reclaim_locks S H t (concat (map (\<lambda>(f, v). [f, v]) ps)) n cont"
  have skip: "wp (fits S H N) (?rest n) d"
    using Cons by simp
  have restock: "wp (fits S H N) (LCall (cRPUSH S [''slot'']) (\<lambda>_. ?rest (n + 1))) e"
    if "fits S H m e" "N = Suc m" "hsh e H = AList.delete f (hsh d H)" for m e
  proof (rule wp_exec)
    fix r e'
    assume "exec (cRPUSH S [''slot'']) e = (r, e')"
    from fits_push [OF that(1) assms(2) this] that(2,3)
    have "fits S H N e'" "fst ` set ps \<subseteq> dom (map_of (hsh e' H))"
      using Cons.prems(2,3) p by (auto simp: AList.delete_conv) (force simp: dom_def)+
    then show "if \<exists>m. r = RErr m then fits S H N e' else wp (fits S H N) (?rest (n + 1)) e'"
      using Cons.IH Cons.prems(2) by simp
  qed simp
  have "wp (fits S H N) (LCall (cHDEL H f) (\<lambda>_. LCall (cRPUSH S [''slot'']) (\<lambda>_. ?rest (n + 1)))) d"
  proof (rule wp_exec)
    fix r e
    assume "exec (cHDEL H f) d = (r, e)"
    from fits_unlock [OF Cons.prems(1) assms(2) this] Cons.prems(3) p restock
    show "if \<exists>m. r = RErr m then fits S H N e else wp (fits S H N) (LCall (cRPUSH S [''slot'']) (\<lambda>_. ?rest (n + 1))) e"
      by (auto simp del: wp.simps(3) simp: wrongtype_def split: if_splits)
  qed simp
  with skip show ?case
    by (simp del: wp.simps(3) add: p split: option.split)
qed (use assms(5) in simp)

lemma wp_reclaim:
  assumes "fits S H N d" "S \<noteq> H" "M \<noteq> S" "M \<noteq> H"
  shows "wp (fits S H N) (concurrent_reclaim [S, H, M] [timeout, ttl]) d"
proof -
  let ?finish = "\<lambda>t n. if n > 0 then LCall (cHINCRBY M ''reclaimed'' n) (\<lambda>_. LCall (cEXPIRE S t) (\<lambda>_.
      LCall (cEXPIRE H t) (\<lambda>_. LCall (cEXPIRE M t) (\<lambda>_. LRet (RInt n))))) else LRet (RInt n)"
  have finish: "wp (fits S H N) (?finish t n) d" if "fits S H N d" for t n d
    using that assms(3,4) by (auto simp del: wp.simps(3) intro!: wp_frame [of _ _ _ N] wp_expire [of _ _ N])
  have "wp (fits S H N) (LCall (cHGETALL H) (\<lambda>locks. reclaim_locks S H u (bulks locks) 0 (?finish t))) d" if "fits S H N d" for u t d
  proof (rule wp_LCallI)
    fix r d'
    assume r: "may (cHGETALL H) d r d'" "\<forall>e. r \<noteq> RErr e"
    then obtain ps where ps: "r = RArr (flat_pairs ps)" "mset ps = mset (hsh d H)" "d' = d"
      by (auto simp: may_def wrongtype_def split: if_splits)
    have "fst ` set ps \<subseteq> dom (map_of (hsh d H))"
      using mset_eq_setD [OF ps(2)] by (simp add: dom_map_of_conv_image_fst)
    moreover have "distinct (map fst ps)"
      using that ps(2) mset_eq_imp_distinct_iff [of "map fst ps" "map fst (hsh d H)"] by (simp add: fits_def)
    ultimately show "wp (fits S H N) (reclaim_locks S H u (bulks r) 0 (?finish t)) d'"
      unfolding ps(1,3) bulks_pairs using that assms(2) finish by (intro wp_reclaim_locks)
  qed (use that in \<open>auto simp: may_def split: if_splits\<close>)
  then show ?thesis
    unfolding concurrent_reclaim_def nth_Cons_0 nth_Cons_Suc One_nat_def numeral_2_eq_2
    by (intro wp_tonumber wp_time [OF assms(1) order_refl] assms(1))
qed

section \<open>Every user of a concurrency limiter keeps the bound\<close>

text \<open>A script that leaves both keys alone, and the four scripts of the limiter itself.\<close>

definition apart_cmd :: "ConcurrentLimiter \<Rightarrow> rcmd \<Rightarrow> bool" where
  "apart_cmd l c \<longleftrightarrow> slotsKey l \<notin> set (writes c) \<and> locksKey l \<notin> set (writes c)"

definition slot_script :: "ConcurrentLimiter \<Rightarrow> lua \<Rightarrow> bool" where
  "slot_script l p \<longleftrightarrow> lua_all (apart_cmd l) p
    \<or> (\<exists>ttl. p = concurrent_init [slotsKey l, locksKey l, initKey l] [string_of_int (cn_limit l), ttl])
    \<or> (\<exists>timeout ttl. p = concurrent_reclaim [slotsKey l, locksKey l, metricsKey l] [timeout, ttl])
    \<or> (\<exists>lockID ttl. p = concurrent_acquire [slotsKey l, locksKey l] [lockID, ttl])
    \<or> (\<exists>lockID ttl. p = concurrent_release [slotsKey l, locksKey l] [lockID, ttl])"

abbreviation slot_user :: "ConcurrentLimiter \<Rightarrow> ('l, 'a) go \<Rightarrow> bool" where
  "slot_user l \<equiv> go_all (slot_script l) (apart_cmd l)"

lemma limiter_keys_distinct:
  "slotsKey l \<noteq> locksKey l" "initKey l \<noteq> slotsKey l" "initKey l \<noteq> locksKey l"
  "metricsKey l \<noteq> slotsKey l" "metricsKey l \<noteq> locksKey l"
  by (simp_all add: slotsKey_def locksKey_def initKey_def metricsKey_def)

lemma wp_apart:
  assumes "lua_all (apart_cmd l) p" "fits (slotsKey l) (locksKey l) N d"
  shows "wp (fits (slotsKey l) (locksKey l) N) p d"
  using assms
proof (induction p arbitrary: d)
  case (LCall c f)
  show ?case
  proof (cases "enum_cmd c")
    case True
    with LCall show ?thesis
      by (intro wp_LCallI) (auto simp: may_def enum_cmd_iff)
  next
    case False
    with LCall show ?thesis
      by (intro wp_frame [of _ _ _ N]) (auto simp: apart_cmd_def)
  qed
qed auto

lemma wp_slot_script:
  assumes "slot_script l p" "fits (slotsKey l) (locksKey l) (nat (cn_limit l)) d"
  shows "wp (fits (slotsKey l) (locksKey l) (nat (cn_limit l))) p d"
  using assms unfolding slot_script_def
  by (elim disjE exE) (simp_all only: wp_apart wp_init wp_reclaim wp_acquire wp_release limiter_keys_distinct not_False_eq_True)

lemma slot_user_scripts [simp]:
  "slot_script l (concurrent_init [slotsKey l, locksKey l, initKey l] [string_of_int (cn_limit l), ttl])"
  "slot_script l (concurrent_reclaim [slotsKey l, locksKey l, metricsKey l] [timeout, ttl])"
  "slot_script l (concurrent_acquire [slotsKey l, locksKey l] [lockID, ttl])"
  "slot_script l (concurrent_release [slotsKey l, locksKey l] [lockID, ttl])"
  by (auto simp: slot_script_def)

lemma slot_user_release: "slot_user l (lease_Release l le)"
  by (auto simp: lease_Release_def concurrent_release_call_def split: option.split)

definition released_by :: "ConcurrentLimiter \<Rightarrow> 'l acquired \<Rightarrow> bool" where
  "released_by l a \<longleftrightarrow> (\<forall>release w. a = Some (Inr (Some release, w)) \<longrightarrow> slot_user l release)"

lemma slot_user_rounds: "go_post (slot_script l) (apart_cmd l) (released_by l) (concurrent_rounds n l lockID deadline)"
proof (induction n)
  case (Suc n)
  have "slot_user l (go_bind (lease_Release l le) (\<lambda>(err, _). Done err))" for le
    using slot_user_release by (intro go_all_bind) (auto split: prod.split)
  with Suc show ?case
    by (auto simp: reclaim_def released_by_def split: sum.split)
qed (simp add: released_by_def)

definition same_limiter :: "ConcurrentLimiter \<Rightarrow> ConcurrentLimiter \<Rightarrow> bool" where
  "same_limiter l l' \<longleftrightarrow> cn_name l' = cn_name l \<and> cn_keyPrefix l' = cn_keyPrefix l \<and> cn_limit l' = cn_limit l"

lemma same_limiter_user: "same_limiter l l' \<Longrightarrow> slot_script l' = slot_script l \<and> apart_cmd l' = apart_cmd l"
  by (auto simp: same_limiter_def slot_script_def [abs_def] apart_cmd_def [abs_def] slotsKey_def locksKey_def initKey_def metricsKey_def fun_eq_iff)

lemma slot_user_Acquire:
  assumes "same_limiter l l'"
  shows "go_post (slot_script l) (apart_cmd l) (\<lambda>(r, _). released_by l r) (concurrent_Acquire n pid l')"
proof -
  have init: "go_post (slot_script l') (apart_cmd l') (\<lambda>(k, err). same_limiter l' k) (ensureInitialized l')"
    by (simp add: ensureInitialized_def same_limiter_def split: sum.split)
  have "go_post (slot_script l') (apart_cmd l') (\<lambda>(r, _). released_by l' r)
      (go_bind (concurrent_rounds n k lockID deadline) (\<lambda>r. Done (r, k)))" if "same_limiter l' k" for k lockID deadline
    using slot_user_rounds [of k n lockID deadline] same_limiter_user [OF that]
    by (intro go_post_bind [where R = "released_by k"]) (auto simp: released_by_def)
  then have "go_post (slot_script l') (apart_cmd l') (\<lambda>(r, _). released_by l' r) (concurrent_Acquire n pid l')"
    unfolding concurrent_Acquire_def
    by (intro go_post_bind [OF init]) (auto simp: released_by_def split: option.split)
  then show ?thesis
    using same_limiter_user [OF assms] by (simp add: released_by_def [abs_def])
qed

lemma slot_user_WithinLimit:
  assumes "same_limiter l l'" "slot_user l fn"
  shows "slot_user l (concurrent_WithinLimit n pid l' x fn)"
proof -
  have "slot_user l (releasing_lease release fn)" if "slot_user l release" for release
    using that assms(2) unfolding releasing_lease_def
    by (auto intro!: go_all_bind split: prod.split option.split)
  then show ?thesis
    unfolding concurrent_WithinLimit_def runWithinLimit_def concurrent_acquirer_def using assms(2)
    by (auto simp: released_by_def intro!: go_post_all [OF go_post_bind [OF slot_user_Acquire [OF assms(1)], where S = "released_by l"]]
        split: option.split sum.split)
qed

text \<open>
  C2: A concurrency limiter never has more holders than its limit.  Any number of goroutines in any
  number of processes call \<^verbatim>\<open>WithinLimit\<close> for the same limiter, each with its own time-outs and its own
  initialization flag, around work that leaves the limiter's two keys alone.  Requests may be lost,
  repeated or left unanswered, locks may be reclaimed while their holder still runs, keys may expire
  at any time, and the steps interleave in any order: the number of locks recorded never exceeds the
  limit.
\<close>

theorem concurrent_limit_kept:
  fixes ps :: "('x, 'b \<times> hres) procs"
  assumes server: "redis_server call view"
    and procs: "\<forall>(c, ts)\<in>set ps. \<forall>t\<in>set ts. \<exists>n pid l' x fn. same_limiter l l'
      \<and> go_all (lua_all (apart_cmd l)) (apart_cmd l) fn \<and> t = concurrent_WithinLimit n pid l' x fn"
    and start: "0 \<le> clock_us (view s)" "lst (view s) (slotsKey l) = []" "hsh (view s) (locksKey l) = []"
    and time: "\<And>a b. elapse a b \<Longrightarrow> \<exists>t\<ge>0. view b = tick t (view a)"
    and run: "(pool_step call elapse)\<^sup>*\<^sup>* (ps, s) (ps', s')"
  shows "length (lst (view s') (slotsKey l)) + length (hsh (view s') (locksKey l)) \<le> nat (cn_limit l)"
proof -
  let ?I = "fits (slotsKey l) (locksKey l) (nat (cn_limit l))"
  have "procs_all (slot_script l) (apart_cmd l) ps"
    unfolding procs_all_def
  proof safe
    fix c ts t
    assume "(c, ts) \<in> set ps" "t \<in> set ts"
    then obtain n pid l' and x :: 'b and fn where "same_limiter l l'" "t = concurrent_WithinLimit n pid l' x fn"
      and "go_all (lua_all (apart_cmd l)) (apart_cmd l) fn"
      using procs by fastforce
    moreover from this(3) have "slot_user l fn"
      by (rule go_all_mono) (auto simp: slot_script_def)
    ultimately show "slot_user l t"
      by (simp add: slot_user_WithinLimit)
  qed
  then have "?I (view s')"
    by (rule redis_server.pool_invariant_wp [OF server run])
       (use start time wp_slot_script in \<open>auto simp: fits_def [of _ _ _ "view s"] apart_cmd_def
         dest!: time intro: fits_tick fits_sound\<close>)
  then show ?thesis
    by (simp add: fits_def)
qed

theorem concurrent_limit_kept_witness:
  "length (lst (tick 5 empty_db) (slotsKey \<lparr>cn_name = ''api'', cn_limit = 2, cn_lockTimeout = 1, cn_waitTimeout = 1,
     cn_policy = PolicyRaise, cn_keyPrefix = ''p'', cn_initialized = False\<rparr>))
   + length (hsh (tick 5 empty_db) (locksKey \<lparr>cn_name = ''api'', cn_limit = 2, cn_lockTimeout = 1, cn_waitTimeout = 1,
     cn_policy = PolicyRaise, cn_keyPrefix = ''p'', cn_initialized = False\<rparr>)) \<le> 2"
proof -
  define l where "l = \<lparr>cn_name = ''api'', cn_limit = 2, cn_lockTimeout = 1, cn_waitTimeout = 1,
     cn_policy = PolicyRaise, cn_keyPrefix = ''p'', cn_initialized = False\<rparr>"
  define ps :: "(unit, unit \<times> hres) procs" where
    "ps = replicate 3 ((), replicate 4 (concurrent_WithinLimit 5 1 l () (Done ((), HOk))))"
  have "same_limiter l l"
    by (simp add: same_limiter_def)
  from this have "\<exists>n pid l' x fn. same_limiter l l' \<and> go_all (lua_all (apart_cmd l)) (apart_cmd l) fn
      \<and> concurrent_WithinLimit 5 1 l () (Done ((), HOk)) = (concurrent_WithinLimit n pid l' x fn :: (unit, unit \<times> hres) go)"
    by (intro exI [of _ 5] exI [of _ 1] exI [of _ l] exI [of _ "()"] exI [of _ "Done ((), HOk)"]) simp
  then have procs: "\<forall>(c, ts)\<in>set ps. \<forall>t\<in>set ts. \<exists>n pid l' x fn. same_limiter l l'
      \<and> go_all (lua_all (apart_cmd l)) (apart_cmd l) fn \<and> t = concurrent_WithinLimit n pid l' x fn"
    by (simp add: ps_def)
  have "length (lst (tick 5 empty_db) (slotsKey l)) + length (hsh (tick 5 empty_db) (locksKey l)) \<le> nat (cn_limit l)"
  proof (rule concurrent_limit_kept [OF ref.redis_server_axioms procs])
    show "(pool_step exec (\<lambda>a b. b = tick 5 a))\<^sup>*\<^sup>* (ps, empty_db) (ps, tick 5 empty_db)"
      by (intro r_into_rtranclp pool_step.tick) simp
  qed (auto simp: empty_db_def lst_def hsh_def intro: exI [of _ 5])
  then show ?thesis
    by (simp add: l_def)
qed

end
