(* ===== verification/BalanceBounds.thy ===== *)
theory BalanceBounds
  imports LimiterBounds
begin

text \<open>
  The stored level of a leaky bucket and the stored balance of a points limiter stay between zero and
  the capacity, on any server, for any interleaving of limiter calls with lost and repeated requests,
  and for any rounding that a double can do.
\<close>

section \<open>A number kept in a field\<close>

definition level_ok :: "lua_numbers \<Rightarrow> string \<Rightarrow> string \<Rightarrow> int \<Rightarrow> db \<Rightarrow> bool" where
  "level_ok L k f capacity d \<longleftrightarrow> 0 \<le> clock_us d \<and>
     (\<forall>s. map_of (hsh d k) f = Some s \<longrightarrow> (\<exists>x. num_parse L s = Some x \<and> 0 \<le> x \<and> x \<le> of_int capacity))"

lemma level_frame: "k \<notin> set (writes c) \<Longrightarrow> level_ok L k f n d \<Longrightarrow> exec c d = (r, e) \<Longrightarrow> level_ok L k f n e"
  using exec_frame [of k c d] exec_clock [of c d] by (simp add: level_ok_def same_at_def hsh_def)

lemma level_expire: "level_ok L k f n d \<Longrightarrow> exec (cEXPIRE x t) d = (r, e) \<Longrightarrow> level_ok L k f n e"
  by (auto simp: expire_in_def level_ok_def redis_simps split: if_splits) (simp_all add: hsh_def)

lemma level_tick: "level_ok L k f n d \<Longrightarrow> 0 \<le> t \<Longrightarrow> level_ok L k f n (tick t d)"
  by (auto simp: level_ok_def tick_def hsh_def Let_def split: option.splits rval.splits)

lemma level_sound:
  assumes "k \<notin> set (writes c)"
  shows "sound_cmd exec (level_ok L k f n) c"
proof -
  have "preserves (exec c) (level_ok L k f n)"
    using level_frame [OF assms] unfolding preserves_def by (metis prod.collapse)
  moreover have "ans_ok c (go_reply (fst (exec c d)))" if "level_ok L k f n d" for d
    using that ans_ok_reply by (cases "c = cTIME") (auto simp: ans_ok_def go_reply_def level_ok_def)
  ultimately show ?thesis
    by (simp add: sound_cmd_def)
qed

lemma level_write:
  assumes "level_ok L k f n d" "exec (cHSET k ((f, num_text L x) # ps)) d = (r, e)" "f \<notin> fst ` set ps"
    and "num_parse L (num_text L x) = Some x" "0 \<le> x" "x \<le> of_int n"
  shows "level_ok L k f n e"
proof (cases "hashy d k")
  case True
  have "map_of (foldl hset1 h ps) f = map_of h f" for h
    using assms(3) by (induction ps arbitrary: h) (auto simp: hset1_def update_conv')
  then show ?thesis
    using assms True by (auto simp: with_hash_ok level_ok_def hsh_put hset1_def update_conv')
qed (use assms in \<open>auto simp: with_not\<close>)

lemma wp_level_frame:
  assumes "k \<notin> set (writes c)" "\<not> enum_cmd c" "level_ok L k f n d"
    and "\<And>r d'. level_ok L k f n d' \<Longrightarrow> wp (level_ok L k f n) (g r) d'"
  shows "wp (level_ok L k f n) (LCall c g) d"
proof (rule wp_exec)
  fix r e
  assume "exec c d = (r, e)"
  then have "level_ok L k f n e"
    using level_frame assms by blast
  then show "if \<exists>m. r = RErr m then level_ok L k f n e else wp (level_ok L k f n) (g r) e"
    using assms(4) by auto
qed (use assms in simp)

lemma wp_level_expire:
  assumes "level_ok L k f n d" "\<And>r d'. level_ok L k f n d' \<Longrightarrow> wp (level_ok L k f n) (g r) d'"
  shows "wp (level_ok L k f n) (LCall (cEXPIRE x t) g) d"
proof (rule wp_exec)
  fix r e
  assume "exec (cEXPIRE x t) d = (r, e)"
  then have "level_ok L k f n e"
    using level_expire assms(1) by blast
  then show "if \<exists>m. r = RErr m then level_ok L k f n e else wp (level_ok L k f n) (g r) e"
    using assms(2) by auto
qed simp

lemma wp_level_write:
  assumes "level_ok L k f n d" "f \<notin> fst ` set ps" "num_parse L (num_text L x) = Some x" "0 \<le> x" "x \<le> of_int n"
    and "\<And>r d'. level_ok L k f n d' \<Longrightarrow> wp (level_ok L k f n) (g r) d'"
  shows "wp (level_ok L k f n) (LCall (cHSET k ((f, num_text L x) # ps)) g) d"
proof (rule wp_exec)
  fix r e
  assume "exec (cHSET k ((f, num_text L x) # ps)) d = (r, e)"
  then have "level_ok L k f n e"
    using level_write assms(1-5) by blast
  then show "if \<exists>m. r = RErr m then level_ok L k f n e else wp (level_ok L k f n) (g r) e"
    using assms(6) by auto
qed simp

lemma wp_level_time:
  assumes "level_ok L k f n d" "\<And>i d'. level_ok L k f n d' \<Longrightarrow> wp (level_ok L k f n) (g i) d'"
  shows "wp (level_ok L k f n) (with_time_us g) d"
  unfolding with_time_us_def using assms by (intro wp_level_frame wp_tonumber) auto

lemma wp_lua_number: "(\<And>x. wp I (g x) d) \<Longrightarrow> I d \<Longrightarrow> wp I (lua_number L s g) d"
  by (simp add: lua_number_def split: option.split)

lemma wp_hash_number: "(\<And>x. wp I (g x) d) \<Longrightarrow> I d \<Longrightarrow> wp I (hash_number L r i m g) d"
  unfolding hash_number_def by (auto intro: wp_lua_number split: rreply.split)

lemma wp_reply_number:
  "(\<And>s. wp I (g s) d) \<Longrightarrow> wp I p d \<Longrightarrow> wp I (case r of RBulk s \<Rightarrow> g s | _ \<Rightarrow> p) d"
  by (simp split: rreply.split)

section \<open>The scripts\<close>

lemma doubles_rounded: "doubles L \<Longrightarrow> num_parse L (num_text L (rnd L x)) = Some (rnd L x)"
  by (simp add: doubles_def)

lemma doubles_int: "doubles L \<Longrightarrow> \<bar>i\<bar> \<le> 2 ^ 53 \<Longrightarrow> rnd L (of_int i) = of_int i"
  by (simp add: doubles_def)

lemma doubles_mono: "doubles L \<Longrightarrow> x \<le> y \<Longrightarrow> rnd L x \<le> rnd L y"
  by (simp add: doubles_def)

lemma doubles_nonneg: "doubles L \<Longrightarrow> 0 \<le> x \<Longrightarrow> 0 \<le> rnd L x"
  using doubles_mono [of L 0 x] doubles_int [of L 0] by simp

lemma wp_leaky:
  assumes L: "doubles L" and ok: "level_ok L k ''level'' c d"
  shows "wp (level_ok L k ''level'' c) (leaky L [k] [string_of_int c, drain, ttl]) d"
proof -
  note wp.simps(3) [simp del]
  have "0 \<le> rnd L (max 0 x + 1)" for x
    using L by (intro doubles_nonneg) auto
  then show ?thesis
    unfolding leaky_def Let_def using ok L
    by (auto simp: tonumber_int doubles_rounded intro!: wp_tonumber wp_level_time wp_level_frame [where c = "cHMGET _ _"] wp_hash_number wp_level_write wp_level_expire)
qed

lemma wp_points_check:
  assumes L: "doubles L" "\<bar>c\<bar> \<le> 2 ^ 53" and ok: "level_ok L k ''points'' c d"
  shows "wp (level_ok L k ''points'' c) (points_check L [k] [string_of_int c, refill, cost, ttl]) d"
proof -
  note wp.simps(3) [simp del]
  have "0 \<le> rnd L (p - of_int i)" "rnd L (p - of_int i) \<le> of_int c" if "0 < i" "of_int i \<le> p" "p \<le> of_int c" for p and i :: int
    using that L doubles_mono [of L "p - of_int i" "of_int c"] doubles_int [of L c] by (auto intro!: doubles_nonneg)
  then show ?thesis
    unfolding points_check_def Let_def using ok L
    by (auto simp: tonumber_int doubles_rounded not_less not_le intro!: wp_tonumber wp_level_time wp_level_frame [where c = "cHMGET _ _"] wp_hash_number wp_level_write
        wp_level_expire split: option.split)
qed

lemma wp_points_adjust:
  assumes L: "doubles L" "0 \<le> c" "c \<le> 2 ^ 53" and ok: "level_ok L k ''points'' c d"
  shows "wp (level_ok L k ''points'' c) (points_adjust L [k] [diff, most, string_of_int c, ttl]) d"
proof -
  note wp.simps(3) [simp del]
  have "num_parse L (num_text L (of_int i)) = Some (of_int i)" if "i \<in> {0, c}" for i
    using that L doubles_rounded [of L "of_int i"] doubles_int [of L i] by auto
  from this [of 0] this [of c] have "num_parse L (num_text L (max 0 (min (of_int c) (rnd L x)))) = Some (max 0 (min (of_int c) (rnd L x)))" for x
    using doubles_rounded [OF L(1), of x] by (auto simp: max_def min_def)
  then show ?thesis
    unfolding points_adjust_def Let_def using ok L
    by (auto simp: tonumber_int intro!: wp_tonumber wp_level_frame [where c = "cHGET _ _"] wp_reply_number wp_lua_number wp_level_write wp_level_expire split: option.split)
qed

section \<open>Every user of the limiters keeps the bound\<close>

definition spares :: "string \<Rightarrow> rcmd \<Rightarrow> bool" where
  "spares k c \<longleftrightarrow> k \<notin> set (writes c)"

lemma wp_spares:
  assumes "lua_all (spares k) p" "level_ok L k f n d"
  shows "wp (level_ok L k f n) p d"
  using assms
proof (induction p arbitrary: d)
  case (LCall c g)
  show ?case
  proof (cases "enum_cmd c")
    case True
    with LCall show ?thesis
      by (intro wp_LCallI) (auto simp: may_def enum_cmd_iff)
  next
    case False
    with LCall show ?thesis
      by (intro wp_level_frame) (auto simp: spares_def)
  qed
qed auto

definition leaky_script :: "lua_numbers \<Rightarrow> string \<Rightarrow> int \<Rightarrow> lua \<Rightarrow> bool" where
  "leaky_script L k c p \<longleftrightarrow> lua_all (spares k) p \<or> (\<exists>drain ttl. p = leaky L [k] [string_of_int c, drain, ttl])"

definition points_script :: "lua_numbers \<Rightarrow> string \<Rightarrow> int \<Rightarrow> lua \<Rightarrow> bool" where
  "points_script L k c p \<longleftrightarrow> lua_all (spares k) p
    \<or> (\<exists>refill cost ttl. p = points_check L [k] [string_of_int c, refill, cost, ttl])
    \<or> (\<exists>diff most ttl. p = points_adjust L [k] [diff, most, string_of_int c, ttl])"

abbreviation points_user :: "lua_numbers \<Rightarrow> string \<Rightarrow> int \<Rightarrow> ('l, 'a) go \<Rightarrow> bool" where
  "points_user L k c \<equiv> go_all (points_script L k c) (spares k)"

abbreviation lk_key :: "LeakyLimiter \<Rightarrow> string" where
  "lk_key l \<equiv> lk_keyPrefix l @ CHR '':'' # lk_name l"

abbreviation pt_key :: "PointsLimiter \<Rightarrow> string" where
  "pt_key l \<equiv> pt_keyPrefix l @ CHR '':'' # pt_name l"

lemma limiter_scripts [simp]:
  "leaky_script L k c (leaky L [k] [string_of_int c, drain, ttl])"
  "points_script L k c (points_check L [k] [string_of_int c, refill, cost, ttl])"
  "points_script L k c (points_adjust L [k] [diff, most, string_of_int c, ttl])"
  by (simp_all only: leaky_script_def points_script_def) blast+

definition no_lease :: "'l acquired \<Rightarrow> bool" where
  "no_lease a \<longleftrightarrow> (\<forall>release w. a = Some (Inr (Some release, w)) \<longrightarrow> release = Done None)"

lemma limiter_round_user:
  assumes "go_post P Q no_lease again"
  shows "go_post P Q no_lease (limiter_round name ty n pol step deadline r again)"
  using assms unfolding limiter_round_def by (auto simp: no_lease_def noopLease_Release_def Let_def split: sum.split option.split)

lemma leaky_user_rounds:
  "go_post (leaky_script L (lk_key l) (lk_capacity l)) Q no_lease (leaky_rounds n L l deadline)"
  by (induction n) (simp_all add: no_lease_def [of None] limiter_round_user)

lemma points_user_rounds:
  "go_post (points_script L (pt_key l) (pt_capacity l)) Q no_lease (points_rounds n L l cost deadline)"
  by (induction n) (simp_all add: no_lease_def [of None] limiter_round_user)

lemma leaky_user_WithinLimit:
  assumes "go_all (leaky_script L (lk_key l) (lk_capacity l)) Q fn"
  shows "go_all (leaky_script L (lk_key l) (lk_capacity l)) Q (leaky_WithinLimit n L l x fn)"
proof -
  let ?P = "leaky_script L (lk_key l) (lk_capacity l)"
  have "go_post ?P Q no_lease (leaky_Acquire n L l)"
    by (simp add: leaky_Acquire_def leaky_user_rounds)
  moreover have "go_all ?P Q (releasing_lease (Done None) fn)"
    using assms unfolding releasing_lease_def by (auto intro!: go_all_bind split: prod.split option.split)
  ultimately show ?thesis
    unfolding leaky_WithinLimit_def runWithinLimit_def leaky_acquirer_def using assms
    by (auto simp: no_lease_def intro!: go_post_all [where R = no_lease] split: option.split sum.split)
qed

lemma points_user_Cost:
  assumes "points_user L (pt_key l) (pt_capacity l) fn"
  shows "points_user L (pt_key l) (pt_capacity l) (WithinLimitCost n L l cost x fn)"
proof -
  have "points_user L (pt_key l) (pt_capacity l) (AcquirePoints n L l cost)"
    by (auto simp: AcquirePoints_def intro!: go_post_go_all [OF points_user_rounds])
  then show ?thesis
    unfolding WithinLimitCost_def using assms by (auto intro!: go_all_bind split: option.split sum.split)
qed

lemma points_user_Used: "points_user L (pt_key l) (pt_capacity l) (PointsUsed L l estimate actual)"
  by (auto simp: PointsUsed_def adjust_def Let_def)

definition balance_within :: "lua_numbers \<Rightarrow> int \<Rightarrow> string option \<Rightarrow> bool" where
  "balance_within L capacity v = (case v of None \<Rightarrow> True | Some s \<Rightarrow>
     (case num_parse L s of None \<Rightarrow> False | Some x \<Rightarrow> 0 \<le> x \<and> x \<le> of_int capacity))"

lemma level_ok_within: "level_ok L k f n d \<longleftrightarrow> 0 \<le> clock_us d \<and> balance_within L n (map_of (hsh d k) f)"
  by (auto simp: level_ok_def balance_within_def split: option.split)

text \<open>
  C23: A leaky bucket never overflows.  Any number of goroutines in any number of processes call
  \<^verbatim>\<open>WithinLimit\<close> for limiters with the same key and capacity, around work that leaves the key alone;
  requests may be lost or repeated, keys may expire, the steps interleave in any order, and the
  doubles of the script may round as they like: the level stored on the server is always a number
  between zero and the capacity.
\<close>

theorem leaky_level_bounded:
  fixes ps :: "('x, 'b \<times> hres) procs"
  assumes server: "redis_server call view" and L: "doubles L"
    and procs: "\<forall>(c, ts)\<in>set ps. \<forall>t\<in>set ts. \<exists>n l x fn. lk_key l = k \<and> lk_capacity l = capacity
      \<and> go_all (lua_all (spares k)) (spares k) fn \<and> t = leaky_WithinLimit n L l x fn"
    and start: "0 \<le> clock_us (view s)" "balance_within L capacity (map_of (hsh (view s) k) ''level'')"
    and time: "\<And>a b. elapse a b \<Longrightarrow> \<exists>t\<ge>0. view b = tick t (view a)"
    and run: "(pool_step call elapse)\<^sup>*\<^sup>* (ps, s) (ps', s')"
  shows "balance_within L capacity (map_of (hsh (view s') k) ''level'')"
proof -
  have "procs_all (leaky_script L k capacity) (spares k) ps"
    unfolding procs_all_def
  proof safe
    fix c ts t
    assume "(c, ts) \<in> set ps" "t \<in> set ts"
    then obtain n l and x :: 'b and fn where l: "lk_key l = k" "lk_capacity l = capacity" "t = leaky_WithinLimit n L l x fn"
      and "go_all (lua_all (spares k)) (spares k) fn"
      using procs by fastforce
    from this(4) have "go_all (leaky_script L k capacity) (spares k) fn"
      by (rule go_all_mono) (auto simp: leaky_script_def)
    then show "go_all (leaky_script L k capacity) (spares k) t"
      using leaky_user_WithinLimit [of L l "spares k" fn n x] l by simp
  qed
  then have "level_ok L k ''level'' capacity (view s')"
    by (rule redis_server.pool_invariant_wp [OF server run])
       (use start in \<open>auto simp: level_ok_within [of _ _ _ _ "view s"] leaky_script_def spares_def
         dest!: time intro: level_tick level_sound wp_leaky [OF L] wp_spares\<close>)
  then show ?thesis
    by (simp add: level_ok_within)
qed

text \<open>
  C24: Points are neither overdrawn nor overfilled.  Any number of goroutines in any number of
  processes run work within an estimate and report the points it used, any number of times and with
  any amounts, for limiters with the same key and capacity; requests may be lost or repeated, keys
  may expire, and the steps interleave in any order: the balance stored on the server is always a
  number between zero and the capacity.
\<close>

theorem points_balance_bounded:
  fixes ps :: "('x, 'b \<times> hres) procs"
  assumes server: "redis_server call view" and L: "doubles L" and capacity: "0 \<le> capacity" "capacity \<le> 2 ^ 53"
    and procs: "\<forall>(c, ts)\<in>set ps. \<forall>t\<in>set ts. \<exists>n l estimate x fn. pt_key l = k \<and> pt_capacity l = capacity
      \<and> (\<forall>report. (\<forall>a. points_user L k capacity (report a)) \<longrightarrow> points_user L k capacity (fn report))
      \<and> t = WithinLimitEstimate n L l estimate x fn"
    and start: "0 \<le> clock_us (view s)" "balance_within L capacity (map_of (hsh (view s) k) ''points'')"
    and time: "\<And>a b. elapse a b \<Longrightarrow> \<exists>t\<ge>0. view b = tick t (view a)"
    and run: "(pool_step call elapse)\<^sup>*\<^sup>* (ps, s) (ps', s')"
  shows "balance_within L capacity (map_of (hsh (view s') k) ''points'')"
proof -
  have "procs_all (points_script L k capacity) (spares k) ps"
    unfolding procs_all_def
  proof safe
    fix c ts t
    assume "(c, ts) \<in> set ps" "t \<in> set ts"
    then obtain n l estimate and x :: 'b and fn where l: "pt_key l = k" "pt_capacity l = capacity"
      "t = WithinLimitEstimate n L l estimate x fn"
      and "\<forall>report. (\<forall>a. points_user L k capacity (report a)) \<longrightarrow> points_user L k capacity (fn report)"
      using procs by fastforce
    from this(4) [rule_format, of "PointsUsed L l estimate"] have "points_user L k capacity (fn (PointsUsed L l estimate))"
      using points_user_Used [of L l estimate] l by auto
    then show "points_user L k capacity t"
      using points_user_Cost [of L l "fn (PointsUsed L l estimate)" n estimate x] l by (simp add: WithinLimitEstimate_def)
  qed
  then have "level_ok L k ''points'' capacity (view s')"
    by (rule redis_server.pool_invariant_wp [OF server run])
       (use start capacity in \<open>auto simp: level_ok_within [of _ _ _ _ "view s"] points_script_def spares_def
         dest!: time intro: level_tick level_sound wp_points_check [OF L] wp_points_adjust [OF L] wp_spares\<close>)
  then show ?thesis
    by (simp add: level_ok_within)
qed

section \<open>Examples\<close>

definition whole_numbers :: lua_numbers where
  "whole_numbers = \<lparr>rnd = (\<lambda>x. of_int \<lfloor>x\<rfloor>), num_text = (\<lambda>x. string_of_int \<lfloor>x\<rfloor>),
     num_parse = (\<lambda>s. map_option of_int (parse_int s)), non_finite = 0\<rparr>"

lemma doubles_whole_numbers: "doubles whole_numbers"
  by (auto simp: doubles_def whole_numbers_def intro: floor_mono)

theorem leaky_level_bounded_witness:
  "balance_within whole_numbers 3 (map_of (hsh (tick 5 empty_db) ''p:api'') ''level'')"
proof -
  define l where "l = \<lparr>lk_name = ''api'', lk_capacity = 3, lk_drainTime = Second, lk_waitTimeout = 1,
     lk_policy = PolicyRaise, lk_keyPrefix = ''p''\<rparr>"
  define ps :: "(unit, unit \<times> hres) procs" where
    "ps = replicate 3 ((), replicate 4 (leaky_WithinLimit 5 whole_numbers l () (Done ((), HOk))))"
  have "\<exists>n l' x fn. lk_key l' = ''p:api'' \<and> lk_capacity l' = 3 \<and> go_all (lua_all (spares ''p:api'')) (spares ''p:api'') fn
      \<and> leaky_WithinLimit 5 whole_numbers l () (Done ((), HOk)) = (leaky_WithinLimit n whole_numbers l' x fn :: (unit, unit \<times> hres) go)"
    by (intro exI [of _ 5] exI [of _ l] exI [of _ "()"] exI [of _ "Done ((), HOk)"]) (simp add: l_def)
  then have procs: "\<forall>(c, ts)\<in>set ps. \<forall>t\<in>set ts. \<exists>n l x fn. lk_key l = ''p:api'' \<and> lk_capacity l = 3
      \<and> go_all (lua_all (spares ''p:api'')) (spares ''p:api'') fn \<and> t = leaky_WithinLimit n whole_numbers l x fn"
    by (simp add: ps_def)
  show ?thesis
  proof (rule leaky_level_bounded [OF ref.redis_server_axioms doubles_whole_numbers procs])
    show "(pool_step exec (\<lambda>a b. b = tick 5 a))\<^sup>*\<^sup>* (ps, empty_db) (ps, tick 5 empty_db)"
      by (intro r_into_rtranclp pool_step.tick) simp
  qed (auto simp: empty_db_def hsh_def balance_within_def intro: exI [of _ 5])
qed

theorem points_balance_bounded_witness:
  "balance_within whole_numbers 3 (map_of (hsh (tick 5 empty_db) ''p:api'') ''points'')"
proof -
  define l where "l = \<lparr>pt_name = ''api'', pt_capacity = 3, pt_refillTime = Second, pt_waitTimeout = 1,
     pt_policy = PolicyRaise, pt_keyPrefix = ''p''\<rparr>"
  define fn :: "(int \<Rightarrow> (unit, goerr option) go) \<Rightarrow> (unit, unit \<times> hres) go" where
    "fn report = go_bind (report 1) (\<lambda>_. Done ((), HOk))" for report
  define ps :: "(unit, unit \<times> hres) procs" where
    "ps = replicate 3 ((), replicate 4 (WithinLimitEstimate 5 whole_numbers l 2 () fn))"
  have "\<exists>n l' e x fn'. pt_key l' = ''p:api'' \<and> pt_capacity l' = 3
      \<and> (\<forall>report. (\<forall>a. points_user whole_numbers ''p:api'' 3 (report a)) \<longrightarrow> points_user whole_numbers ''p:api'' 3 (fn' report))
      \<and> WithinLimitEstimate 5 whole_numbers l 2 () fn = (WithinLimitEstimate n whole_numbers l' e x fn' :: (unit, unit \<times> hres) go)"
    by (intro exI [of _ 5] exI [of _ l] exI [of _ 2] exI [of _ "()"] exI [of _ fn]) (auto simp: l_def fn_def intro: go_all_bind)
  then have procs: "\<forall>(c, ts)\<in>set ps. \<forall>t\<in>set ts. \<exists>n l e x fn. pt_key l = ''p:api'' \<and> pt_capacity l = 3
      \<and> (\<forall>report. (\<forall>a. points_user whole_numbers ''p:api'' 3 (report a)) \<longrightarrow> points_user whole_numbers ''p:api'' 3 (fn report))
      \<and> t = WithinLimitEstimate n whole_numbers l e x fn"
    by (simp add: ps_def)
  show ?thesis
  proof (rule points_balance_bounded [OF ref.redis_server_axioms doubles_whole_numbers _ _ procs])
    show "(pool_step exec (\<lambda>a b. b = tick 5 a))\<^sup>*\<^sup>* (ps, empty_db) (ps, tick 5 empty_db)"
      by (intro r_into_rtranclp pool_step.tick) simp
  qed (auto simp: empty_db_def hsh_def balance_within_def intro: exI [of _ 5])
qed

text \<open>
  A refund after the balance has expired.  A missing balance means the full capacity to
  \<^verbatim>\<open>points_check.lua\<close> and no points to \<^verbatim>\<open>points_adjust.lua\<close>, so refunding one point of a hundred then
  leaves one point instead of a hundred.
\<close>

lemma refund_after_expiry:
  assumes "doubles L"
  shows "map_of (hsh (snd (run_lua exec (points_adjust L [''k''] [string_of_int 1, string_of_int 5, string_of_int 100, string_of_int 60]) empty_db)) ''k'') ''points''
      = Some (num_text L 1)"
    and "\<exists>wait d. run_lua exec (points_check L [''k''] [string_of_int 100, string_of_int 1000000, string_of_int 2, string_of_int 60]) empty_db
      = (Inr (RArr [RInt 1, RInt 98, RInt wait]), d)"
proof -
  have ints: "rnd L 0 = 0" "rnd L 1 = 1" "rnd L 100 = 100" "rnd L 98 = 98"
    using doubles_int [OF assms, of 0] doubles_int [OF assms, of 1] doubles_int [OF assms, of 100] doubles_int [OF assms, of 98] by simp_all
  show "map_of (hsh (snd (run_lua exec (points_adjust L [''k''] [string_of_int 1, string_of_int 5, string_of_int 100, string_of_int 60]) empty_db)) ''k'') ''points''
      = Some (num_text L 1)"
    by (simp add: points_adjust_def tonumber_int with_hash_ok hashy_def empty_db_def redis_simps rtype_def hsh_def bulk_def ints hset1_def
        expire_in_def has_key_def put_def)
  have "trunc_rat 98 = 98"
    by (simp add: trunc_rat_def)
  then show "\<exists>wait d. run_lua exec (points_check L [''k''] [string_of_int 100, string_of_int 1000000, string_of_int 2, string_of_int 60]) empty_db
      = (Inr (RArr [RInt 1, RInt 98, RInt wait]), d)"
    by (simp add: points_check_def tonumber_int with_time_us_def with_hash_ok hashy_def empty_db_def rtype_def hsh_def bulk_def ints Let_def
        hash_number_def expire_in_def has_key_def put_def)
qed

end
