(* ===== verification/QueueGuarantees.thy ===== *)
theory QueueGuarantees
  imports Conservation
begin

text \<open>
  What the queue scripts guarantee, on any server with Redis's command semantics: a failed move
  changes nothing, jobs leave a queue in the order they entered it, a finalization record that the
  server does not vouch for is removed, a sequential queue is worked by one worker at a time, exactly
  the due jobs are promoted, exactly the orphans are requeued, and of any number of claims of one
  unique key or one periodic slot exactly one enqueues.
\<close>

section \<open>All or nothing\<close>

text \<open>The requests that move, finish or add a job, with the keys the callers give them.\<close>

inductive moves_job :: "keys \<Rightarrow> lua \<Rightarrow> bool" for k where
  ack: "moves_job k (ack_job [InFlight k w, Finalization k j] [p, jid])"
| ack_unique: "moves_job k (ack_job [InFlight k w, Finalization k j, Unique k u] [p, jid])"
| retry: "moves_job k (retry_job [InFlight k w, Retry k, Finalization k j] [p, string_of_int score, p'])"
| dead: "moves_job k (move_to_dead_job [InFlight k w, Dead k, Finalization k j] [p, string_of_int score, p', jid])"
| dead_unique: "moves_job k (move_to_dead_job [InFlight k w, Dead k, Finalization k j, Unique k u] [p, string_of_int score, p', jid])"
| requeue: "moves_job k (requeue_job [InFlight k w, Queue k q] [p, p'])"
| enqueue: "moves_job k (enqueue_now [Queues k, Queue k q] [q, p])"
| unique_now: "0 < ttl \<Longrightarrow> moves_job k (enqueue_unique_now [Unique k u, Queues k, Queue k q] [jid, string_of_int ttl, q, p])"
| unique_at: "0 < ttl \<Longrightarrow> moves_job k (enqueue_unique_at [Unique k u, Scheduled k] [jid, string_of_int ttl, string_of_int score, p])"

lemma moves_job_all_or_nothing: "moves_job k p \<Longrightarrow> all_or_nothing p"
proof (induction rule: moves_job.induct)
  case (dead w j p score p' jid)
  show ?case
    using move_to_dead_job_all_or_nothing [of "InFlight k w" "Dead k" "Finalization k j" "Unique k []" "[]"] by simp
next
  case (dead_unique w j u p score p' jid)
  show ?case
    using move_to_dead_job_all_or_nothing [of "InFlight k w" "Dead k" "Finalization k j" "Unique k u" "[Unique k u]"] by simp
next
  case (enqueue q p)
  show ?case
    using enqueue_now_all_or_nothing [of "Queue k []" q "Queues k" p] by simp
next
  case (unique_now ttl u q jid p)
  then show ?case
    using claiming_all_or_nothing(1) [of "Queue k []" q "Queues k" "Unique k u" ttl jid p] by simp
qed (simp_all add: ack_job_all_or_nothing retry_job_all_or_nothing requeue_job_all_or_nothing unique_at_all_or_nothing)

lemma moves_job_enum_free: "moves_job k p \<Longrightarrow> enum_free p"
  by (induction rule: moves_job.induct) simp_all

text \<open>
  C3: Moving a job is all-or-nothing.  On any server, when a script that acknowledges, retries, buries,
  requeues or enqueues a job reports an error, no key has changed: the job is still where it was, and it
  is in one place.
\<close>

theorem moves_all_or_nothing:
  assumes "redis_server call view" "moves_job k p" "run_lua call p s = (Inl e, s')"
  shows "view s' = view s"
  using redis_server.run_lua_view [OF assms(1) moves_job_enum_free [OF assms(2)] assms(3)]
    moves_job_all_or_nothing [OF assms(2)] by (simp add: all_or_nothing_def)

theorem moves_all_or_nothing_witness:
  "\<exists>e. run_lua exec (retry_job [InFlight (keys_New []) ''w'', Retry (keys_New []), Finalization (keys_New []) ''j'']
        [''p'', string_of_int 5, ''q'']) (put (Retry (keys_New [])) (VStr ''x'') empty_db)
      = (Inl e, put (Retry (keys_New [])) (VStr ''x'') empty_db)"
proof -
  let ?k = "keys_New []"
  let ?p = "retry_job [InFlight ?k ''w'', Retry ?k, Finalization ?k ''j''] [''p'', string_of_int 5, ''q'']"
  let ?d = "put (Retry ?k) (VStr ''x'') empty_db"
  obtain e d' where "run_lua exec ?p ?d = (Inl e, d')"
    by (simp add: retry_job_def redis_simps empty_db_def key_views)
  moreover from this have "d' = ?d"
    by (rule moves_all_or_nothing [OF ref.redis_server_axioms moves_job.retry])
  ultimately show ?thesis by blast
qed

lemma empty_views:
  "lst empty_db x = []" "sts empty_db x = []" "zst empty_db x = []" "hsh empty_db x = []" "str empty_db x = None"
  "listy empty_db x" "setty empty_db x" "zsetty empty_db x" "hashy empty_db x" "stringy empty_db x"
  "clock_us empty_db = 0" "expires empty_db x = None"
  by (simp_all add: empty_db_def key_views key_kinds rtype_def)

section \<open>Trust in finalization records\<close>

lemma same_fields_without: "same_fields (table_without f j) j' \<Longrightarrow> table_field j' f = None"
proof -
  have "table_field (table_without f j) f = None"
    by (cases j) (auto simp: table_field_def table_without_def map_of_eq_None_iff split: option.splits)
  then show "same_fields (table_without f j) j' \<Longrightarrow> table_field j' f = None"
    by (simp add: same_fields_def)
qed

lemma stripped_vouched:
  assumes "cjson_lib cj" "stripped cj pre p d = Some t" "cj_decode cj t = Some job" "is_table job"
    "table_field job ''finalization'' \<noteq> None"
  shows "vouched pre t job d"
proof -
  obtain old where old: "cj_decode cj p = Some old"
    using assms(2,3) by (auto simp: stripped_def split: option.splits)
  show ?thesis
  proof (cases "is_table old \<and> table_field old ''finalization'' \<noteq> None \<and> \<not> vouched pre p old d")
    case True
    then have "cj_encode cj (table_without ''finalization'' old) = Some t"
      using assms(2) old by (simp add: stripped_def)
    then obtain j' where "cj_decode cj t = Some j'" "same_fields (table_without ''finalization'' old) j'"
      using cjson_lib.decode_encode [OF assms(1), of "table_without ''finalization'' old" t] True by auto
    then show ?thesis
      using same_fields_without assms(3,5) by fastforce
  next
    case False
    then show ?thesis
      using assms(2-5) old by (auto simp: stripped_def split: if_splits)
  qed
qed

lemma fetch_job_reply:
  assumes "run_lua exec (fetch_job cj [q, fl] [pre]) d = (Inr (RArr [RBulk ''job'', RBulk t]), d')" "q \<noteq> fl"
  obtains p where "stripped cj pre p d = Some t" "p \<in> set (lst d q)"
proof -
  have types: "listy d q" "listy d fl"
    using assms by (auto simp: fetch_job_def redis_simps split: if_splits)
  show ?thesis
  proof (cases "lst d q" rule: rev_cases)
    case Nil
    then show ?thesis
      using assms run_fetch_job_empty [OF types] by simp
  next
    case (snoc xs p)
    then show ?thesis
      using assms run_fetch_job [OF types assms(2) snoc] that [of p] by (auto split: option.splits)
  qed
qed

lemma sequential_fetch_reply:
  assumes "run_lua exec (sequential_fetch cj [q, fl, lock] [w, string_of_int ttl, pre]) d = (Inr (RArr [RBulk ''job'', RBulk t]), d')"
    and "q \<noteq> fl" "lock \<noteq> fl" "0 < ttl"
  obtains xs p where "stripped cj pre p d = Some t" "lst d q = xs @ [p]" "str d lock \<in> {None, Some w}"
    "d' = set_str lock w (Some (clock_us d + ttl * 1000)) (put fl (VList (t # lst d fl)) (put q (VList xs) d))"
proof -
  have lists: "listy d q" "listy d fl"
    using assms(1) by (auto simp: sequential_fetch_def redis_simps split: if_splits)
  have "stringy d lock"
    using assms(1) lists by (intro ccontr [of "stringy d lock"]) (simp add: sequential_fetch_def redis_simps with_str_not wrongtype_def)
  note types = lists this
  have lock: "str d lock \<in> {None, Some w}"
  proof (rule ccontr)
    assume "str d lock \<notin> {None, Some w}"
    then obtain w' where "str d lock = Some w'" "w' \<noteq> w"
      by auto
    then show False
      using assms(1) run_sequential_fetch_locked [OF types(1,2)] by simp
  qed
  show ?thesis
  proof (cases "lst d q" rule: rev_cases)
    case Nil
    then show ?thesis
      using assms run_sequential_fetch_empty [OF types lock] by simp
  next
    case (snoc xs p)
    then show ?thesis
      using assms(1) run_sequential_fetch [OF types(1,2) assms(2) types(3) lock snoc assms(3,4)] lock that [of p xs]
      by (auto split: option.splits)
  qed
qed

text \<open>
  C4: A finalization record is trusted only when the server vouches for it.  Whatever payload a client
  puts into a queue, when a fetch, parallel or sequential, hands a worker a payload with a finalization
  field, the server held exactly this payload under the finalization key of the job it names, a key
  that only a worker that finished the job writes; any other finalization field is gone.
\<close>

theorem fetched_finalization_vouched:
  assumes "cjson_lib cj" "redis_server call view" "0 < ttl"
    and fetch: "p = fetch_job cj [Queue k q, InFlight k w] [Finalization k []]
      \<or> p = sequential_fetch cj [Queue k q, InFlight k w, SequentialLock k q] [w, string_of_int ttl, Finalization k []]"
    and run: "run_lua call p s = (Inr (RArr [RBulk ''job'', RBulk t]), s')"
    and carried: "cj_decode cj t = Some job" "is_table job" "table_field job ''finalization'' \<noteq> None"
  shows "\<exists>jid. nonempty_str_field job ''jid'' = Some jid \<and> str (view s) (Finalization k jid) = Some t"
proof -
  have "run_lua exec p (view s) = (Inr (RArr [RBulk ''job'', RBulk t]), view s')"
    using redis_server.run_lua_view [OF assms(2) _ run] fetch by auto
  then have "\<exists>p. stripped cj (Finalization k []) p (view s) = Some t"
    using fetch assms(3) by (auto elim: fetch_job_reply sequential_fetch_reply)
  then have "vouched (Finalization k []) t job (view s)"
    using stripped_vouched [OF assms(1) _ carried] by blast
  then show ?thesis
    by (auto simp: vouched_def split: option.splits bool.splits)
qed

text \<open>A payload with a finalization record that the server vouches for.\<close>

definition vouched_payload :: string where
  "vouched_payload = json_print (JObj [(''jid'', JStr ''a''), (''finalization'', JObj [])])"

theorem fetched_finalization_vouched_witness:
  "\<exists>d. fst (run_lua exec (fetch_job std_cjson [Queue (keys_New []) ''q'', InFlight (keys_New []) ''w''] [Finalization (keys_New []) []]) d)
       = Inr (RArr [RBulk ''job'', RBulk vouched_payload])
     \<and> str d (Finalization (keys_New []) ''a'') = Some vouched_payload"
proof -
  let ?k = "keys_New []"
  let ?p = "fetch_job std_cjson [Queue ?k ''q'', InFlight ?k ''w''] [Finalization ?k []]"
  let ?d = "set_str (Finalization ?k ''a'') vouched_payload None (put (Queue ?k ''q'') (VList [vouched_payload]) empty_db)"
  let ?j = "JObj [(''jid'', JStr ''a''), (''finalization'', JObj [])]"
  have parse: "cj_decode std_cjson vouched_payload = Some ?j"
    by (simp add: std_cjson_def vouched_payload_def json_parse_print del: json_print.simps)
  have "stripped std_cjson (Finalization ?k []) vouched_payload ?d = Some vouched_payload"
    using parse by (simp add: stripped_def vouched_def table_field_def nonempty_str_field_def is_table_def redis_simps)
  then have run: "fst (run_lua exec ?p ?d) = Inr (RArr [RBulk ''job'', RBulk vouched_payload])"
    using run_fetch_job [of ?d "Queue ?k ''q''" "InFlight ?k ''w''" "[]" vouched_payload std_cjson "Finalization ?k []"]
    by (simp add: redis_simps empty_views)
  moreover have "\<exists>jid. nonempty_str_field ?j ''jid'' = Some jid \<and> str ?d (Finalization ?k jid) = Some vouched_payload"
    using run prod.collapse [of "run_lua exec ?p ?d"]
    by (intro fetched_finalization_vouched [OF std.cjson_lib_axioms ref.redis_server_axioms, of 1 ?p ?k "''q''" "''w''" ?d _ "snd (run_lua exec ?p ?d)"])
       (auto simp: parse is_table_def table_field_def)
  ultimately show ?thesis
    by (auto simp: nonempty_str_field_def table_field_def)
qed

section \<open>Sequential queues\<close>

lemma tick_keeps: "expires d x = Some dl \<Longrightarrow> t < dl \<Longrightarrow> same_at x d (tick t d)"
  by (simp add: tick_def Let_def same_at_def)

text \<open>
  C5: A sequential queue is worked by one worker at a time.  After worker \<open>w\<close> fetched a job from a
  sequential queue, and for as long as the lock key is not written by others and its time to live has
  not run out, every fetch by another worker answers that the queue is locked and changes nothing,
  however many jobs wait; and no other worker's release removes the lock.
\<close>

theorem sequential_exclusion:
  assumes "redis_server call view" "0 < ttl" "w' \<noteq> w"
    and fetched: "run_lua call (sequential_fetch cj [Queue k q, InFlight k w, SequentialLock k q]
        [w, string_of_int ttl, Finalization k []]) s = (Inr (RArr [RBulk ''job'', RBulk t]), s1)"
    and meanwhile: "same_at (SequentialLock k q) (view s1) d" "u < clock_us (view s) + ttl * 1000" "view s2 = tick u d"
    and types: "listy (view s2) (Queue k q)" "listy (view s2) (InFlight k w')"
  shows "(\<forall>x s3. run_lua call (sequential_fetch cj [Queue k q, InFlight k w', SequentialLock k q]
        [w', string_of_int ttl', Finalization k []]) s2 = (x, s3)
      \<longrightarrow> x = Inr (RArr [RBulk ''locked'', RBulk []]) \<and> view s3 = view s2)
    \<and> (\<forall>y s4. run_lua call (release_sequential_lock [SequentialLock k q] [w']) s2 = (y, s4)
      \<longrightarrow> y = Inr (RInt 0) \<and> view s4 = view s2)"
proof -
  note to_ref = redis_server.run_lua_view [OF assms(1)]
  let ?lock = "SequentialLock k q"
  have "run_lua exec (sequential_fetch cj [Queue k q, InFlight k w, ?lock] [w, string_of_int ttl, Finalization k []]) (view s)
      = (Inr (RArr [RBulk ''job'', RBulk t]), view s1)"
    using to_ref [OF _ fetched] by simp
  then have "data (view s1) ?lock = Some (VStr w)" "expires (view s1) ?lock = Some (clock_us (view s) + ttl * 1000)"
    by (rule sequential_fetch_reply; use assms(2) in \<open>simp add: set_str_def\<close>)+
  then have "same_at ?lock d (view s2)" and d: "data d ?lock = Some (VStr w)"
    using meanwhile tick_keeps [of d ?lock _ u] by (auto simp: same_at_def)
  then have held: "str (view s2) ?lock = Some w" "stringy (view s2) ?lock"
    by (auto simp: same_at_def str_def stringy_def rtype_def)
  show ?thesis
    using to_ref run_sequential_fetch_locked [OF types held(1)] run_release_sequential_lock [OF held(2)] held(1) assms(3)
    by (auto dest!: to_ref [rotated])
qed

theorem sequential_exclusion_witness:
  "\<exists>s1. snd (run_lua exec (sequential_fetch std_cjson [Queue (keys_New []) ''q'', InFlight (keys_New []) ''w'', SequentialLock (keys_New []) ''q'']
        [''w'', string_of_int 30, Finalization (keys_New []) []]) (put (Queue (keys_New []) ''q'') (VList [''x'', ''y'']) empty_db)) = s1
     \<and> run_lua exec (sequential_fetch std_cjson [Queue (keys_New []) ''q'', InFlight (keys_New []) ''v'', SequentialLock (keys_New []) ''q'']
        [''v'', string_of_int 30, Finalization (keys_New []) []]) (tick 29000 s1) = (Inr (RArr [RBulk ''locked'', RBulk []]), tick 29000 s1)"
proof -
  let ?k = "keys_New []"
  let ?d = "put (Queue ?k ''q'') (VList [''x'', ''y'']) empty_db"
  let ?f = "\<lambda>w. sequential_fetch std_cjson [Queue ?k ''q'', InFlight ?k w, SequentialLock ?k ''q''] [w, string_of_int 30, Finalization ?k []]"
  let ?s1 = "snd (run_lua exec (?f ''w'') ?d)"
  have "stripped std_cjson (Finalization ?k []) ''y'' ?d = Some ''y''"
    unfolding stripped_def std_cjson_def by code_simp
  then have run: "run_lua exec (?f ''w'') ?d = (Inr (RArr [RBulk ''job'', RBulk ''y'']), ?s1)"
    and s1: "?s1 = set_str (SequentialLock ?k ''q'') ''w'' (Some (clock_us ?d + 30 * 1000))
      (put (InFlight ?k ''w'') (VList [''y'']) (put (Queue ?k ''q'') (VList [''x'']) ?d))"
    using run_sequential_fetch [of ?d "Queue ?k ''q''" "InFlight ?k ''w''" "SequentialLock ?k ''q''" "''w''" "[''x'']" "''y''" 30
        std_cjson "Finalization ?k []"]
    by (simp_all add: redis_simps empty_views)
  have types: "listy (tick 29000 ?s1) (Queue ?k ''q'')" "listy (tick 29000 ?s1) (InFlight ?k ''v'')"
    unfolding s1 by (simp_all add: tick_def put_def set_str_def empty_db_def key_kinds rtype_def)
  have "run_lua exec (?f ''v'') (tick 29000 ?s1) = (Inr (RArr [RBulk ''locked'', RBulk []]), tick 29000 ?s1)"
  proof -
    obtain x s3 where x: "run_lua exec (?f ''v'') (tick 29000 ?s1) = (x, s3)"
      by fastforce
    have "0 < (30::int)" "''v'' \<noteq> ''w''" "29000 < clock_us ?d + 30 * 1000"
      by (simp_all add: empty_views)
    note conjunct1 [OF sequential_exclusion [where call = exec and view = "\<lambda>d. d" and s = ?d and d = ?s1 and u = 29000 and ttl' = 30,
        OF ref.redis_server_axioms this(1,2) run same_at_refl this(3) refl types], rule_format, OF x]
    with x show ?thesis
      by (simp only:)
  qed
  then show ?thesis
    by blast
qed

section \<open>Promotion and requeueing\<close>

lemma sched_targets_queue:
  "map snd (filter (\<lambda>t. Queue k (fst t) = Queue k q) (sched_targets cj items)) = filter (\<lambda>p. sched_target cj p = Some q) items"
  by (induction items) (auto split: option.splits)

lemma orphan_targets_queue:
  "map (fst \<circ> snd) (filter (\<lambda>t. Queue k (fst t) = Queue k q) (orphan_targets cj items)) =
     filter (\<lambda>p. map_option fst (orphan_target cj p) = Some q) items"
  by (induction items) (auto simp: orphan_target_def split: option.splits if_splits)

lemma pushed_kinds:
  assumes "setty d (Queues k)" "\<And>q. listy d (Queue k q)" "zsetty d z" "z \<noteq> Queues k" "\<And>q. z \<noteq> Queue k q"
  shows "setty (fold (push_target (Queues k) (Queue k [])) ts d) (Queues k) \<and> (\<forall>q. listy (fold (push_target (Queues k) (Queue k [])) ts d) (Queue k q))
    \<and> zsetty (fold (push_target (Queues k) (Queue k [])) ts d) z"
  using assms(1-3)
proof (induction ts arbitrary: d)
  case (Cons t ts)
  have "zsetty (push_target (Queues k) (Queue k []) t d) z"
    using Cons.prems(3) assms(4) assms(5) [of "fst t"] by (auto simp: push_target_def Let_def redis_simps)
  then show ?case
    using Cons.prems Cons.IH [of "push_target (Queues k) (Queue k []) t d"] by (simp add: push_target_kinds)
qed auto

lemma promotion:
  assumes "z = Scheduled k \<or> z = Retry k" "0 \<le> limit"
    and types: "zsetty d z" "setty d (Queues k)" "\<And>q. listy d (Queue k q)"
  shows "\<exists>d'. run_lua exec (enqueue_scheduled cj [z, Queues k] [string_of_int limit, Queue k []]) d =
      (Inr (RInt (int (length (filter (\<lambda>p. sched_target cj p \<noteq> None) (due z (nat limit) d))))), d')
    \<and> zst d' z = filter (\<lambda>e. snd e \<notin> set (due z (nat limit) d)) (zst d z)
    \<and> (\<forall>q. lst d' (Queue k q) = rev (filter (\<lambda>p. sched_target cj p = Some q) (due z (nat limit) d)) @ lst d (Queue k q))
    \<and> zsetty d' z \<and> setty d' (Queues k) \<and> (\<forall>q. listy d' (Queue k q))"
proof -
  let ?items = "due z (nat limit) d"
  let ?ts = "sched_targets cj ?items"
  let ?d1 = "fold (zrem1 z) ?items d"
  let ?d' = "fold (push_target (Queues k) (Queue k [])) ?ts ?d1"
  have z: "z \<noteq> Queues k" "\<And>q. z \<noteq> Queue k q"
    using assms(1) by auto
  have "length ?ts = length (filter (\<lambda>p. sched_target cj p \<noteq> None) ?items)"
    by (induction ?items) (auto simp: sched_targets_def List.map_filter_def)
  then have run: "run_lua exec (enqueue_scheduled cj [z, Queues k] [string_of_int limit, Queue k []]) d =
      (Inr (RInt (int (length (filter (\<lambda>p. sched_target cj p \<noteq> None) ?items)))), ?d')"
    using run_enqueue_scheduled [of d z cj limit "Queues k" "Queue k []"] types assms(2) z by (auto simp: Let_def)
  have same: "data ?d1 x = data d x" if "x \<noteq> z" for x
    using that by (rule data_fold_zrem1)
  have "data ?d1 (Queues k) = data d (Queues k)" "data ?d1 (Queue k q) = data d (Queue k q)" for q
    using z z(2) [of q] by (auto intro!: same)
  then have kinds: "setty ?d1 (Queues k)" "listy ?d1 (Queue k q)" "lst ?d1 (Queue k q) = lst d (Queue k q)" for q
    using types by (simp_all add: setty_def listy_def rtype_def lst_def)
  have "zsetty e z \<Longrightarrow> zsetty (fold (zrem1 z) items e) z" for items e
    by (induction items arbitrary: e) (auto simp: zrem1_other)
  with types(1) have "zsetty ?d1 z"
    by blast
  then have "setty ?d' (Queues k) \<and> (\<forall>q. listy ?d' (Queue k q)) \<and> zsetty ?d' z"
    using kinds pushed_kinds z by blast
  moreover have "zst ?d' z = filter (\<lambda>e. snd e \<notin> set ?items) (zst d z)"
    using zst_fold_push_target [of z "Queues k" ?ts "Queue k []"] z by (metis (full_types) zst_fold_zrem1 key_prefixes(1))
  moreover have "lst ?d' (Queue k q) = rev (filter (\<lambda>p. sched_target cj p = Some q) ?items) @ lst d (Queue k q)" for q
    using lst_fold_push_target [of "Queues k" "Queue k q" _ "Queue k []" ?ts] sched_targets_queue [of k q cj ?items] kinds by simp
  ultimately show ?thesis
    using run by blast
qed

text \<open>
  C6: Exactly the due jobs are promoted.  One run of the scheduler's script on the scheduled or the
  retry set takes out the entries that are due by the server's clock, the earliest first and at most
  \<open>limit\<close> of them, and puts each payload that names a queue on top of that queue, once; entries that
  are not due stay, every queue keeps what it had, and the reply is the number of jobs promoted.
\<close>

theorem due_jobs_promoted:
  assumes "redis_server call view" "z = Scheduled k \<or> z = Retry k" "0 \<le> limit"
    and types: "zsetty (view s) z" "setty (view s) (Queues k)" "\<And>q. listy (view s) (Queue k q)"
    and run: "run_lua call (enqueue_scheduled cj [z, Queues k] [string_of_int limit, Queue k []]) s = (x, s')"
  shows "let items = due z (nat limit) (view s)
    in x = Inr (RInt (int (length (filter (\<lambda>p. sched_target cj p \<noteq> None) items))))
      \<and> zst (view s') z = filter (\<lambda>e. snd e \<notin> set items) (zst (view s) z)
      \<and> (\<forall>q. lst (view s') (Queue k q) = rev (filter (\<lambda>p. sched_target cj p = Some q) items) @ lst (view s) (Queue k q))"
proof -
  have "run_lua exec (enqueue_scheduled cj [z, Queues k] [string_of_int limit, Queue k []]) (view s) = (x, view s')"
    using redis_server.run_lua_view [OF assms(1) _ run] by simp
  then show ?thesis
    using promotion [OF assms(2,3) types, of cj] by (auto simp: Let_def)
qed

text \<open>A payload that names its queue.\<close>

definition queued_payload :: "string \<Rightarrow> string" where
  "queued_payload q = json_print (JObj [(''jid'', JStr ''a''), (''class'', JStr ''c''), (''queue'', JStr q)])"

lemma queued_payload_targets:
  "sched_target std_cjson (queued_payload q) = Some q"
  "orphan_target std_cjson (queued_payload q) = Some (q, queued_payload q, ''a'', False)"
proof -
  have "cj_decode std_cjson (queued_payload q) = Some (JObj [(''jid'', JStr ''a''), (''class'', JStr ''c''), (''queue'', JStr q)])"
    by (simp add: std_cjson_def queued_payload_def json_parse_print del: json_print.simps)
  then show "sched_target std_cjson (queued_payload q) = Some q"
    "orphan_target std_cjson (queued_payload q) = Some (q, queued_payload q, ''a'', False)"
    by (simp_all add: sched_target_def orphan_target_def target_queue_def is_table_def table_field_def nonempty_str_field_def)
qed

theorem due_jobs_promoted_witness:
  "\<exists>d'. run_lua exec (enqueue_scheduled std_cjson [Scheduled (keys_New []), Queues (keys_New [])] [string_of_int 10, Queue (keys_New []) []])
       (put (Scheduled (keys_New [])) (VZset [(-3, queued_payload ''q''), (8, ''later'')]) empty_db) = (Inr (RInt 1), d')
     \<and> lst d' (Queue (keys_New []) ''q'') = [queued_payload ''q''] \<and> zst d' (Scheduled (keys_New [])) = [(8, ''later'')]"
proof -
  let ?k = "keys_New []"
  let ?d = "put (Scheduled ?k) (VZset [(-3, queued_payload ''q''), (8, ''later'')]) empty_db"
  let ?p = "enqueue_scheduled std_cjson [Scheduled ?k, Queues ?k] [string_of_int 10, Queue ?k []]"
  obtain x d' where run: "run_lua exec ?p ?d = (x, d')"
    by fastforce
  have due: "due (Scheduled ?k) (nat 10) ?d = [queued_payload ''q'']"
    by (simp add: due_def redis_simps empty_views)
  have "''later'' \<noteq> queued_payload ''q''"
    by code_simp
  then show ?thesis
    using due_jobs_promoted [where call = exec and view = "\<lambda>d. d" and s = ?d and limit = 10, OF ref.redis_server_axioms disjI1 [OF refl] _ _ _ _ run]
      queued_payload_targets(1) [of "''q''"] run unfolding due Let_def
    by (simp add: redis_simps empty_views)
qed

text \<open>
  C7: Exactly the orphans are requeued.  When the reaper's script takes over the in-flight list of a
  worker that is gone, every payload on it that names a job goes on top of the queue it names, once, the
  list is gone, and every queue keeps what it had; the reply is the number of jobs requeued.
\<close>

theorem orphans_requeued:
  assumes "redis_server call view" "listy (view s) (InFlight k w)"
    and types: "setty (view s) (Queues k)" "\<And>q. listy (view s) (Queue k q)"
    and run: "run_lua call (requeue_orphaned cj [InFlight k w, Queues k] [Queue k [], Finalization k []]) s = (x, s')"
  shows "let orphans = lst (view s) (InFlight k w)
    in x = Inr (RInt (int (length (filter (\<lambda>p. orphan_target cj p \<noteq> None) orphans))))
      \<and> lst (view s') (InFlight k w) = []
      \<and> (\<forall>q. lst (view s') (Queue k q) =
           rev (filter (\<lambda>p. map_option fst (orphan_target cj p) = Some q) orphans) @ lst (view s) (Queue k q))"
proof -
  let ?fl = "InFlight k w"
  let ?items = "lst (view s) ?fl"
  let ?ts = "orphan_targets cj ?items"
  let ?push = "push_orphan (Queues k) (Queue k []) (Finalization k [])"
  have ref: "run_lua exec (requeue_orphaned cj [?fl, Queues k] [Queue k [], Finalization k []]) (view s) = (x, view s')"
    using redis_server.run_lua_view [OF assms(1) _ run] by simp
  have count: "length ?ts = length (filter (\<lambda>p. orphan_target cj p \<noteq> None) ?items)"
    by (induction ?items) (auto simp: orphan_targets_def List.map_filter_def)
  show ?thesis
  proof (cases "rtype (view s) ?fl = ''none''")
    case True
    then show ?thesis
      using ref run_requeue_orphaned_none [OF True] by (auto simp: key_views rtype_def split: option.splits rval.splits)
  next
    case False
    then have list: "rtype (view s) ?fl = ''list''"
      using list_type_cases [OF assms(2)] by blast
    show ?thesis
    proof (cases "?items = []")
      case True
      then have "x = Inr (RInt 0)" "view s' = drop_key ?fl (view s)"
        using ref list types(1) assms(2) by (auto simp: requeue_orphaned_def status_def redis_simps bulks_def)
      then show ?thesis
        using True by (simp add: redis_simps)
    next
      case ne: False
      then have x: "x = Inr (RInt (int (length ?ts)))" and s': "view s' = drop_key ?fl (fold ?push ?ts (view s))"
        using ref run_requeue_orphaned [OF list ne types(1), of "Finalization k []" "Queue k []" cj] types(2) by (auto simp: Let_def)
      have "lst (view s') (Queue k q) =
          rev (filter (\<lambda>p. map_option fst (orphan_target cj p) = Some q) ?items) @ lst (view s) (Queue k q)" for q
        unfolding s' using lst_fold_push_orphan [of "Queues k" "Queue k q" "view s" "Finalization k []" "Queue k []" ?ts]
          orphan_targets_queue [of k q cj ?items] types(2) by (simp add: redis_simps)
      moreover have "lst (view s') ?fl = []"
        unfolding s' by (simp add: redis_simps)
      ultimately show ?thesis
        using x count by (simp add: Let_def)
    qed
  qed
qed

theorem orphans_requeued_witness:
  "\<exists>d'. run_lua exec (requeue_orphaned std_cjson [InFlight (keys_New []) ''w'', Queues (keys_New [])] [Queue (keys_New []) [], Finalization (keys_New []) []])
       (put (InFlight (keys_New []) ''w'') (VList [queued_payload ''q'']) empty_db) = (Inr (RInt 1), d')
     \<and> lst d' (Queue (keys_New []) ''q'') = [queued_payload ''q''] \<and> lst d' (InFlight (keys_New []) ''w'') = []"
proof -
  let ?k = "keys_New []"
  let ?d = "put (InFlight ?k ''w'') (VList [queued_payload ''q'']) empty_db"
  let ?p = "requeue_orphaned std_cjson [InFlight ?k ''w'', Queues ?k] [Queue ?k [], Finalization ?k []]"
  obtain x d' where run: "run_lua exec ?p ?d = (x, d')"
    by fastforce
  have "lst ?d (InFlight ?k ''w'') = [queued_payload ''q'']"
    by (simp add: redis_simps)
  moreover have "Ex Not"
    by (rule exI [of _ False]) simp
  ultimately show ?thesis
    using orphans_requeued [where call = exec and view = "\<lambda>d. d" and s = ?d, OF ref.redis_server_axioms _ _ _ run]
      queued_payload_targets(2) [of "''q''"] run unfolding Let_def
    by (simp add: redis_simps empty_views)
qed

section \<open>Claims\<close>

text \<open>Scripts run one after the other, each at its own time.\<close>

primrec run_at :: "(int \<times> lua) list \<Rightarrow> db \<Rightarrow> db" where
  "run_at [] d = d"
| "run_at (x # xs) d = run_at xs (snd (run_lua exec (snd x) (tick (fst x) d)))"

text \<open>
  What the claiming scripts share: while the key \<open>u\<close> is there, the script changes nothing; otherwise it
  stores the key for \<open>T\<close> microseconds and enqueues.
\<close>

definition queue_ready :: "keys \<Rightarrow> string \<Rightarrow> db \<Rightarrow> bool" where
  "queue_ready k q d \<longleftrightarrow> setty d (Queues k) \<and> listy d (Queue k q) \<and> expires d (Queues k) = None \<and> expires d (Queue k q) = None"

locale claiming =
  fixes script :: "'a \<Rightarrow> lua" and value_of payload_of :: "'a \<Rightarrow> string"
    and k :: keys and u q :: string and T :: int
  assumes claim: "stringy d u \<Longrightarrow> setty d (Queues k) \<Longrightarrow> listy d (Queue k q) \<Longrightarrow>
      run_lua exec (script a) d =
        (if str d u \<noteq> None then (Inr (RInt 0), d)
         else (Inr (RInt 1), push_target (Queues k) (Queue k []) (q, payload_of a) (set_str u (value_of a) (Some (clock_us d + T)) d)))"
    and keys: "u \<noteq> Queues k" "u \<noteq> Queue k q"
begin

lemma ready_tick: "queue_ready k q d \<Longrightarrow> queue_ready k q (tick t d) \<and> lst (tick t d) (Queue k q) = lst d (Queue k q)"
  by (simp add: queue_ready_def tick_def Let_def key_kinds rtype_def lst_def)

lemma held_refuses:
  assumes "queue_ready k q d" "data d u = Some (VStr v)" "expires d u = Some dl" "\<forall>(t, a)\<in>set xs. t < dl"
  shows "lst (run_at (map (\<lambda>(t, a). (t, script a)) xs) d) (Queue k q) = lst d (Queue k q)"
  using assms
proof (induction xs arbitrary: d)
  case (Cons x xs)
  obtain t a where x: "x = (t, a)"
    by fastforce
  then have same: "same_at u d (tick t d)"
    using Cons.prems(3,4) by (intro tick_keeps) auto
  then have held: "data (tick t d) u = Some (VStr v)" "expires (tick t d) u = Some dl"
    using Cons.prems(2,3) by (simp_all add: same_at_def)
  have "snd (run_lua exec (script a) (tick t d)) = tick t d"
    using claim [of "tick t d" a] ready_tick [OF Cons.prems(1), of t] held(1)
    by (auto simp: queue_ready_def str_def stringy_def rtype_def)
  then show ?case
    using Cons.IH [of "tick t d"] Cons.prems(1,4) held ready_tick [of d t] by (simp add: x)
qed simp

lemma claimed_once:
  assumes "queue_ready k q d" "str (tick t d) u = None" "stringy (tick t d) u" "\<forall>(t', a)\<in>set xs. t' < t + T"
  shows "lst (run_at (map (\<lambda>(t, a). (t, script a)) ((t, a) # xs)) d) (Queue k q) = payload_of a # lst d (Queue k q)"
proof -
  let ?d = "set_str u (value_of a) (Some (t + T)) (tick t d)"
  let ?e = "push_target (Queues k) (Queue k []) (q, payload_of a) ?d"
  have r: "queue_ready k q (tick t d)"
    using ready_tick [OF assms(1)] by blast
  have "snd (run_lua exec (script a) (tick t d)) = ?e"
    using claim [of "tick t d" a] r assms(2,3) by (simp add: queue_ready_def tick_def Let_def)
  moreover have "queue_ready k q ?e" "lst ?e (Queue k q) = payload_of a # lst d (Queue k q)" "data ?e u = Some (VStr (value_of a))" "expires ?e u = Some (t + T)"
    using r keys ready_tick [OF assms(1), of t]
    by (auto simp: queue_ready_def push_target_def Let_def redis_simps) (simp_all add: put_def set_str_def)
  ultimately show ?thesis
    using held_refuses [of ?e "value_of a" "t + T" xs] assms(4) by (simp add: case_prod_beta)
qed

end

interpretation uniquely: claiming "\<lambda>(jid, p). enqueue_unique_now [Unique k u, Queues k, Queue k q] [jid, string_of_int (1 + int n), q, p]"
    fst snd k "Unique k u" q "(1 + int n) * 1000" for k u q n
proof
  fix d and a :: "string \<times> string"
  assume "stringy d (Unique k u)" "setty d (Queues k)" "listy d (Queue k q)"
  then show "run_lua exec (case a of (jid, p) \<Rightarrow> enqueue_unique_now [Unique k u, Queues k, Queue k q] [jid, string_of_int (1 + int n), q, p]) d =
      (if str d (Unique k u) \<noteq> None then (Inr (RInt 0), d)
       else (Inr (RInt 1), push_target (Queues k) (Queue k []) (q, snd a)
         (set_str (Unique k u) (fst a) (Some (clock_us d + (1 + int n) * 1000)) d)))"
    using run_enqueue_unique_now [of d "Unique k u" "Queues k" "Queue k []" q "1 + int n" "fst a" "snd a"]
    by (simp add: case_prod_beta)
qed simp_all

lemma slot_keys: "PeriodicLock k u @ x \<noteq> Queues k" "PeriodicLock k u @ x \<noteq> Queue k q" "Queue k q \<noteq> PeriodicLock k u @ x"
  by (simp_all add: key_defs)

interpretation slotwise: claiming "\<lambda>(v, p). periodic_enqueue [PeriodicLock k u @ x, Queues k, Queue k q] [v, string_of_int (1 + int n), q, p]"
    fst snd k "PeriodicLock k u @ x" q "(1 + int n) * 1000000" for k u x q n
proof
  fix d and a :: "string \<times> string"
  assume "stringy d (PeriodicLock k u @ x)" "setty d (Queues k)" "listy d (Queue k q)"
  then show "run_lua exec (case a of (v, p) \<Rightarrow> periodic_enqueue [PeriodicLock k u @ x, Queues k, Queue k q] [v, string_of_int (1 + int n), q, p]) d =
      (if str d (PeriodicLock k u @ x) \<noteq> None then (Inr (RInt 0), d)
       else (Inr (RInt 1), push_target (Queues k) (Queue k []) (q, snd a)
         (set_str (PeriodicLock k u @ x) (fst a) (Some (clock_us d + (1 + int n) * 1000000)) d)))"
    using run_periodic_enqueue [of d "PeriodicLock k u @ x" "Queues k" "Queue k []" q "1 + int n" "fst a" "snd a"]
    by (simp add: case_prod_beta slot_keys)
qed (simp_all add: slot_keys)

text \<open>
  C8: A unique job is enqueued once.  Of any number of attempts to enqueue a job under one unique key,
  by any clients with any job ids and payloads, made before the first one's time to live has run out,
  exactly the first reaches the queue; the others change nothing.
\<close>

theorem unique_enqueued_once:
  assumes "0 < ttl" "queue_ready k q d" "stringy (tick t d) (Unique k u)" "str (tick t d) (Unique k u) = None"
    and "\<forall>(t', a)\<in>set later. t' < t + ttl * 1000"
  shows "lst (run_at (map (\<lambda>(t, jid, p). (t, enqueue_unique_now [Unique k u, Queues k, Queue k q] [jid, string_of_int ttl, q, p]))
      ((t, jid, p) # later)) d) (Queue k q) = p # lst d (Queue k q)"
proof -
  have "1 + int (nat (ttl - 1)) = ttl"
    using assms(1) by simp
  then show ?thesis
    using uniquely.claimed_once [of k q d t u later "nat (ttl - 1)" "(jid, p)"] assms by (simp add: case_prod_beta')
qed

theorem unique_enqueued_once_witness:
  "lst (run_at (map (\<lambda>(t, jid, p). (t, enqueue_unique_now [Unique (keys_New []) ''u'', Queues (keys_New []), Queue (keys_New []) ''q'']
       [jid, string_of_int 60000, ''q'', p])) [(5, ''a'', ''first''), (6, ''b'', ''second''), (60000004, ''c'', ''third'')]) empty_db)
     (Queue (keys_New []) ''q'') = [''first'']"
proof -
  have "queue_ready (keys_New []) ''q'' empty_db" "stringy (tick 5 empty_db) x" "str (tick 5 empty_db) x = None" for x
    by (simp_all add: queue_ready_def empty_views) (simp_all add: empty_db_def tick_def key_kinds key_views rtype_def)
  then show ?thesis
    using unique_enqueued_once [of 60000 "keys_New []" "''q''" empty_db 5 "''u''" "[(6, ''b'', ''second''), (60000004, ''c'', ''third'')]" "''a''" "''first''"]
    by (simp add: empty_views)
qed

end
