(* ===== verification/WindowBounds.thy ===== *)
theory WindowBounds
  imports LimiterBounds QueueGuarantees
begin

text \<open>
  What the window limiters guarantee: a fixed window grants exactly the first \<open>limit\<close> requests of the
  window, and no interval of the length of a sliding window sees more than \<open>limit\<close> grants.  The
  lifetime of a limiter's key always covers its period, so that expiry never forgets a grant.
\<close>

section \<open>Requests in sequence\<close>

text \<open>Scripts run one after the other, each at its own time, and their results.\<close>

primrec run_log :: "(int \<times> lua) list \<Rightarrow> db \<Rightarrow> (string + rreply) list" where
  "run_log [] d = []"
| "run_log (x # xs) d = (case run_lua exec (snd x) (tick (fst x) d) of (r, d') \<Rightarrow> r # run_log xs d')"

lemma clock_tick [simp]: "clock_us (tick t d) = t"
  by (simp add: tick_def Let_def)

lemma run_time_us:
  assumes "0 \<le> clock_us d"
  shows "run_lua exec (with_time_us f) d = run_lua exec (f (clock_us d)) d"
proof -
  have "clock_us d div 1000000 * 1000000 + clock_us d mod 1000000 = clock_us d"
    by simp
  then show ?thesis
    by (simp add: with_time_us_def tonumber_int)
qed

text \<open>The lifetime of a limiter's key, in microseconds, is at least its period.\<close>

lemma ttl_covers:
  assumes "1 \<le> period" "in_i64 (period * 2)"
  shows "period \<le> ttl_seconds period * 1000000" "0 < ttl_seconds period"
proof -
  have "ttl_seconds period = at_least_one (period * 2 div 1000000)"
    using assms by (simp add: ttl_seconds_def i64_id sdiv_nonneg)
  then show "period \<le> ttl_seconds period * 1000000" "0 < ttl_seconds period"
    using assms(1) by (auto simp: at_least_one_def)
qed

section \<open>Fixed window\<close>

text \<open>The request of a round of \<^verbatim>\<open>Acquire\<close>.\<close>

definition bucket_request :: "BucketLimiter \<Rightarrow> lua" where
  "bucket_request l = bucket [bk_keyPrefix l @ '':'' @ bk_name l]
     [string_of_int (bk_limit l), string_of_int (bucket_window_us l), string_of_int (ttl_seconds (bucket_window_us l))]"

lemma bucket_rounds_request:
  "bucket_rounds (Suc n) l deadline = Eval (bucket_request l)
     (\<lambda>r. limiter_round (bk_name l) ''bucket'' (bk_limit l) (bk_policy l) None deadline r (bucket_rounds n l deadline))"
  by (simp add: bucket_request_def)

definition bucket_key :: "BucketLimiter \<Rightarrow> int \<Rightarrow> string" where
  "bucket_key l b = bk_keyPrefix l @ '':'' @ bk_name l @ '':'' @ lua_text (nat (b * bucket_window_us l))"

lemma run_bucket:
  fixes l :: BucketLimiter and b :: int
  defines "W \<equiv> bucket_window_us l" and "key \<equiv> bucket_key l b"
  assumes now: "0 \<le> clock_us d" "clock_us d div W = b"
    and W: "1 \<le> W" "in_i64 (W * 2)" and n: "bk_limit l < 2 ^ 63 - 1"
    and count: "data d key = None \<and> c = 0 \<or> data d key = Some (VStr (string_of_int (int c)))" "int c \<le> max 0 (bk_limit l)"
  shows "\<exists>d'. run_lua exec (bucket_request l) d =
      (Inr (if int c < bk_limit l then RArr [RInt 1, RInt (int c + 1), RInt 0]
            else RArr [RInt 0, RInt (int c), RInt (b * W + W - clock_us d)]), d')
    \<and> clock_us d' = clock_us d \<and> expires d' key = Some (clock_us d + ttl_seconds W * 1000000)
    \<and> data d' key = Some (VStr (string_of_int (if int c < bk_limit l then int c + 1 else int c)))"
proof -
  have i64: "in_i64 (int c + 1)" "in_i64 (int c)"
    using n count(2) by (auto simp: in_i64_def)
  let ?d1 = "put key (VStr (string_of_int (int c + 1))) d"
  have incr: "exec (cINCR key) d = (RInt (int c + 1), ?d1)"
    using i64 count(1) by (auto simp: incr_by_def with_str_def add_counter_def)
  let ?d2 = "?d1\<lparr>expires := (expires ?d1)(key \<mapsto> clock_us d + ttl_seconds W * 1000000)\<rparr>"
  have expire: "exec (cEXPIRE key (ttl_seconds W)) ?d1 = (RInt 1, ?d2)"
    using ttl_covers(2) [OF W] by (simp add: expire_in_def has_key_def)
  have decr: "exec (cDECR key) ?d2 = (RInt (int c), put key (VStr (string_of_int (int c))) ?d2)"
    using i64 by (simp add: incr_by_def with_str_def add_counter_def)
  have run: "run_lua exec (bucket_request l) d =
      run_lua exec (LCall (cINCR key) (\<lambda>r. LCall (cEXPIRE key (ttl_seconds W)) (\<lambda>_.
        if reply_int r > bk_limit l
        then LCall (cDECR key) (\<lambda>_. LRet (RArr [RInt 0, RInt (reply_int r - 1), RInt (b * W + W - clock_us d)]))
        else LRet (RArr [RInt 1, RInt (reply_int r), RInt 0])))) d"
    using now by (simp add: bucket_request_def bucket_def tonumber_int run_time_us Let_def W_def key_def bucket_key_def
        del: run_lua.simps cong: if_cong)
  show ?thesis
    unfolding run using incr expire decr by (simp add: put_def del: exec.simps)
qed

lemma in_window: "0 < W \<Longrightarrow> (t::int) div W = b \<Longrightarrow> b * W \<le> t \<and> t < b * W + W"
  using div_mult_mod_eq [of t W] pos_mod_bound [of W t] pos_mod_sign [of W t] by (elim subst) linarith

lemma bucket_log:
  fixes l :: BucketLimiter and b :: int
  defines "W \<equiv> bucket_window_us l" and "key \<equiv> bucket_key l b" and "n \<equiv> nat (bk_limit l)"
  assumes W: "1 \<le> W" "in_i64 (W * 2)" and limit: "bk_limit l < 2 ^ 63 - 1" and b: "0 \<le> b"
    and times: "sorted ts" "\<forall>t\<in>set ts. t div W = b"
    and start: "ts \<noteq> [] \<Longrightarrow> data (tick (hd ts) d) key = None \<and> c = 0 \<or> data (tick (hd ts) d) key = Some (VStr (string_of_int (int c)))" "c \<le> n"
  shows "run_log (map (\<lambda>t. (t, bucket_request l)) ts) d =
    map (\<lambda>(i, t). Inr (if i < n then RArr [RInt 1, RInt (int i + 1), RInt 0] else RArr [RInt 0, RInt (int n), RInt (b * W + W - t)]))
      (enumerate c ts)"
  using times start
proof (induction ts arbitrary: d c)
  case (Cons t ts)
  have t: "t div W = b" "0 \<le> t" and W0: "0 < W"
    using Cons.prems(2) b W(1) by (auto simp: pos_imp_zdiv_nonneg_iff)
  have count: "int c < bk_limit l \<longleftrightarrow> c < n" "int c \<le> max 0 (bk_limit l)" "\<not> c < n \<Longrightarrow> c = n"
    using Cons.prems(4) by (auto simp: n_def)
  obtain d' where run: "run_lua exec (bucket_request l) (tick t d) =
        (Inr (if c < n then RArr [RInt 1, RInt (int c + 1), RInt 0] else RArr [RInt 0, RInt (int c), RInt (b * W + W - t)]), d')"
    and d': "expires d' key = Some (t + ttl_seconds W * 1000000)"
      "data d' key = Some (VStr (string_of_int (int (if c < n then Suc c else c))))"
    using run_bucket [of "tick t d" l b c] Cons.prems(3) t W limit count by (auto simp: W_def key_def add.commute)
  have "run_log (map (\<lambda>t. (t, bucket_request l)) ts) d' =
      map (\<lambda>(i, t). Inr (if i < n then RArr [RInt 1, RInt (int i + 1), RInt 0] else RArr [RInt 0, RInt (int n), RInt (b * W + W - t)]))
        (enumerate (if c < n then Suc c else c) ts)"
  proof (rule Cons.IH)
    assume ne: "ts \<noteq> []"
    then have "hd ts div W = b" "hd ts < b * W + W" "b * W \<le> t"
      using Cons.prems(2) in_window [OF W0 t(1)] in_window [OF W0, of "hd ts" b] by auto
    then have "same_at key d' (tick (hd ts) d')"
      using tick_keeps [OF d'(1)] ttl_covers(1) [OF W] by simp
    then show "data (tick (hd ts) d') key = None \<and> (if c < n then Suc c else c) = 0
        \<or> data (tick (hd ts) d') key = Some (VStr (string_of_int (int (if c < n then Suc c else c))))"
      using d'(2) by (simp add: same_at_def)
  qed (use Cons.prems in auto)
  moreover have "map (\<lambda>(i, t). Inr (if i < n then RArr [RInt 1, RInt (int i + 1), RInt 0] else RArr [RInt 0, RInt (int n), RInt (b * W + W - t)]))
        (enumerate n ts) = map (\<lambda>(i, t). Inr (if i < n then RArr [RInt 1, RInt (int i + 1), RInt 0] else RArr [RInt 0, RInt (int n), RInt (b * W + W - t)]))
        (enumerate (Suc n) ts)"
    by (rule nth_equalityI) (auto simp: nth_enumerate_eq)
  ultimately show ?case
    using run count(3) by (cases "c < n") auto
qed simp

text \<open>
  C21: A fixed window grants exactly its limit.  Of any number of requests that reach the server within
  one window, the first \<open>limit\<close> are granted, with the count so far, and every other is refused with the
  exact time to the end of the window; a refused request does not use up anything.
\<close>

theorem bucket_grants_limit:
  fixes l :: BucketLimiter
  assumes "in_i64 (bucket_window_us l * 2)" "bk_limit l < 2 ^ 63 - 1" "0 \<le> b"
    and "sorted ts" "\<forall>t\<in>set ts. t div bucket_window_us l = b" "data (tick (hd ts) d) (bucket_key l b) = None"
  shows "run_log (map (\<lambda>t. (t, bucket_request l)) ts) d =
    map (\<lambda>(i, t). Inr (if int i < bk_limit l then RArr [RInt 1, RInt (int i + 1), RInt 0]
        else RArr [RInt 0, RInt (max 0 (bk_limit l)), RInt ((b + 1) * bucket_window_us l - t)])) (enumerate 0 ts)"
proof -
  have "1 \<le> bucket_window_us l"
    by (simp add: bucket_window_us_def at_least_one_def)
  then show ?thesis
    using bucket_log [of l b ts d 0] assms by (auto simp: distrib_right)
qed

theorem bucket_grants_limit_witness:
  "run_log (map (\<lambda>t. (t, bucket_request \<lparr>bk_name = ''api'', bk_limit = 2, bk_interval = Second, bk_waitTimeout = 0, bk_policy = PolicySkip,
       bk_keyPrefix = ''p''\<rparr>)) [5000000, 5000001, 5000001, 5999999]) empty_db =
   [Inr (RArr [RInt 1, RInt 1, RInt 0]), Inr (RArr [RInt 1, RInt 2, RInt 0]),
    Inr (RArr [RInt 0, RInt 2, RInt 999999]), Inr (RArr [RInt 0, RInt 2, RInt 1])]"
proof -
  let ?l = "\<lparr>bk_name = ''api'', bk_limit = 2, bk_interval = Second, bk_waitTimeout = 0, bk_policy = PolicySkip, bk_keyPrefix = ''p''\<rparr>"
  have "bucket_window_us ?l = 1000000"
    by code_simp
  moreover have "data (tick 5000000 empty_db) x = None" for x
    by (simp add: empty_db_def tick_def)
  ultimately show ?thesis
    using bucket_grants_limit [of ?l 5 "[5000000, 5000001, 5000001, 5999999]" empty_db] by (simp add: in_i64_def)
qed

section \<open>Sliding window\<close>

definition window_request :: "WindowLimiter \<Rightarrow> string \<Rightarrow> lua" where
  "window_request l member = window [wl_keyPrefix l @ '':'' @ wl_name l]
     [string_of_int (wl_limit l), string_of_int (window_us_of l), member, string_of_int (ttl_seconds (window_us_of l))]"

lemma window_rounds_request:
  "window_rounds (Suc n) l deadline = Uuid (\<lambda>member. Eval (window_request l member)
     (\<lambda>r. limiter_round (wl_name l) ''window'' (wl_limit l) (wl_policy l) (Some half_second) deadline r (window_rounds n l deadline)))"
  by (simp add: window_request_def)

definition granted :: "string + rreply \<Rightarrow> bool" where
  "granted r \<longleftrightarrow> (\<exists>n. r = Inr (RArr [RInt 1, n, RInt 0]))"

abbreviation recent :: "int \<Rightarrow> int \<Rightarrow> (int \<times> string) list \<Rightarrow> (int \<times> string) list" where
  "recent W now z \<equiv> filter (\<lambda>e. now - W < fst e) z"

lemma run_window:
  fixes l :: WindowLimiter
  defines "W \<equiv> window_us_of l" and "key \<equiv> wl_keyPrefix l @ '':'' @ wl_name l"
  assumes now: "0 \<le> clock_us d" and W: "1 \<le> W" "in_i64 (W * 2)" and z: "zsetty d key"
    and run: "run_lua exec (window_request l m) d = (r, d')"
  shows "if int (length (recent W (clock_us d) (zst d key))) < wl_limit l
    then granted r \<and> zsetty d' key \<and> zst d' key = zadd1 (recent W (clock_us d) (zst d key)) (clock_us d, m)
      \<and> expires d' key = Some (clock_us d + ttl_seconds W * 1000000)
    else \<not> granted r \<and> zsetty d' key \<and> zst d' key = recent W (clock_us d) (zst d key)
      \<and> (zst d' key \<noteq> [] \<longrightarrow> expires d' key = expires d key)"
proof -
  let ?z = "recent W (clock_us d) (zst d key)"
  let ?d1 = "put key (VZset ?z) d"
  have keep: "filter (\<lambda>e. \<not> fst e \<le> clock_us d - W) (zst d key) = ?z"
    by (simp add: not_le)
  have z1: "zsetty ?d1 key" "zst ?d1 key = ?z"
    using z by (simp_all add: redis_simps)
  have start: "run_lua exec (window_request l m) d =
      run_lua exec (let n = int (length ?z) in
         if n \<ge> wl_limit l
         then LCall (cZRANGE_FIRST key) (\<lambda>oldest.
                if length (bulks oldest) \<ge> 2
                then tonumber (bulks oldest ! 1) (\<lambda>score. LRet (RArr [RInt 0, RInt n, RInt (max 0 (score + W - clock_us d))]))
                else LRet (RArr [RInt 0, RInt n, RInt W]))
         else LCall (cZADD key [(clock_us d, m)]) (\<lambda>_.
                LCall (cEXPIRE key (ttl_seconds W)) (\<lambda>_. LRet (RArr [RInt 1, RInt (n + 1), RInt 0])))) ?d1"
    using now z z1 keep
    by (simp add: window_request_def window_def tonumber_int run_time_us Let_def W_def key_def with_zset_ok numeral_3_eq_3 numeral_2_eq_2
        cong: if_cong)
  show ?thesis
  proof (cases "int (length ?z) < wl_limit l")
    case True
    let ?z2 = "zadd1 ?z (clock_us d, m)"
    let ?d2 = "put key (VZset ?z2) ?d1"
    have ne: "?z2 \<noteq> []"
      by (simp add: zadd1_def)
    then have "run_lua exec (window_request l m) d = (Inr (RArr [RInt 1, RInt (int (length ?z) + 1), RInt 0]),
        ?d2\<lparr>expires := (expires ?d2)(key \<mapsto> clock_us d + ttl_seconds W * 1000000)\<rparr>)"
      unfolding start using True z1 ttl_covers(2) [OF W] by (simp add: with_zset_ok expire_in_def has_key_def Let_def put_def)
    then show ?thesis
      using run True ne by (auto simp: granted_def zsetty_def rtype_def zst_def put_def)
  next
    case False
    then have "\<exists>w. run_lua exec (window_request l m) d = (Inr (RArr [RInt 0, RInt (int (length ?z)), RInt w]), ?d1)"
      unfolding start using z1 by (cases ?z) (auto simp: with_zset_ok Let_def bulks_def reply_str_def tonumber_int)
    then show ?thesis
      using run False z1 by (auto simp: granted_def put_def)
  qed
qed

lemma zst_tick: "t \<le> t' \<Longrightarrow> zst (tick t' d) k = [] \<or> zst (tick t' d) k = zst (tick t d) k"
  by (auto simp: zst_def tick_def Let_def split: option.splits)

lemma zsetty_tick: "zsetty d k \<Longrightarrow> zsetty (tick t d) k"
  by (simp add: zsetty_def rtype_def tick_def Let_def)

lemma filter_zadd1:
  assumes "m \<notin> snd ` set z"
  shows "length (filter P (zadd1 z (s, m))) = length (filter P z) + (if P (s, m) then 1 else 0)"
proof -
  have "filter (\<lambda>q. snd q \<noteq> m) z = z"
    using assms by (auto simp: filter_id_conv)
  then have "mset (filter P (zadd1 z (s, m))) = mset (filter P z) + (if P (s, m) then {#(s, m)#} else {#})"
    by (simp add: zadd1_def)
  moreover have "length (filter P xs) = size (mset (filter P xs))" for xs
    by (rule size_mset [symmetric])
  ultimately show ?thesis
    by (cases "P (s, m)") (simp_all only: if_True if_False size_union size_single size_empty)
qed

text \<open>
  The invariant along a sequence of requests, with the times \<open>G\<close> of the grants so far and the members
  \<open>M\<close> used so far: at every later time, the entries that are still in the window account for the grants
  that are, and no interval of the window's length has seen more than the limit.
\<close>

definition window_ok :: "int \<Rightarrow> string \<Rightarrow> int \<Rightarrow> int list \<Rightarrow> string set \<Rightarrow> int \<Rightarrow> db \<Rightarrow> bool" where
  "window_ok W key limit G M now d \<longleftrightarrow> zsetty d key \<and> snd ` set (zst d key) \<subseteq> M \<and> (\<forall>g\<in>set G. g \<le> now)
     \<and> (\<forall>t\<ge>now. length (filter (\<lambda>g. t - W < g) G) \<le> length (recent W t (zst (tick t d) key)))
     \<and> (\<forall>T. int (length (filter (\<lambda>g. T - W < g \<and> g \<le> T) G)) \<le> max 0 limit)"

lemma window_step:
  fixes l :: WindowLimiter
  defines "W \<equiv> window_us_of l" and "key \<equiv> wl_keyPrefix l @ '':'' @ wl_name l"
  assumes W: "1 \<le> W" "in_i64 (W * 2)" and t: "0 \<le> t" "now \<le> t" and m: "m \<notin> M"
    and ok: "window_ok W key (wl_limit l) G M now d"
    and run: "run_lua exec (window_request l m) (tick t d) = (r, d')"
  shows "window_ok W key (wl_limit l) (if granted r then t # G else G) (insert m M) t d'"
proof -
  let ?z = "recent W t (zst (tick t d) key)"
  let ?G = "\<lambda>u. filter (\<lambda>g. u - W < g) G"
  note ok = ok [unfolded window_ok_def]
  have past: "\<forall>g\<in>set G. g \<le> t"
    using ok t(2) by force
  have counted: "length (?G u) \<le> length (recent W u ?z)" if "t \<le> u" for u
  proof -
    have "length (?G u) \<le> length (recent W u (zst (tick u d) key))"
      using ok t(2) that by simp
    also have "\<dots> \<le> length (recent W u (zst (tick t d) key))"
      using zst_tick [OF that, of d key] by auto
    also have "recent W u (zst (tick t d) key) = recent W u ?z"
      using that by (auto intro: filter_cong)
    finally show ?thesis .
  qed
  have sub: "snd ` set ?z \<subseteq> M"
    using ok zst_tick [of "min t (clock_us d)" t d key] by (auto simp: zst_def tick_def Let_def split: option.splits if_splits)
  have "if int (length ?z) < wl_limit l
    then granted r \<and> zsetty d' key \<and> zst d' key = zadd1 ?z (t, m) \<and> expires d' key = Some (t + ttl_seconds W * 1000000)
    else \<not> granted r \<and> zsetty d' key \<and> zst d' key = ?z \<and> (zst d' key \<noteq> [] \<longrightarrow> expires d' key = expires (tick t d) key)"
    using run_window [OF _ W [unfolded W_def] _ run] zsetty_tick ok t(1) by (simp add: W_def key_def cong: if_cong)
  then consider
      (yes) "int (length ?z) < wl_limit l" "granted r" "zsetty d' key" "zst d' key = zadd1 ?z (t, m)" "expires d' key = Some (t + ttl_seconds W * 1000000)"
    | (no) "\<not> granted r" "zsetty d' key" "zst d' key = ?z" "?z \<noteq> [] \<longrightarrow> expires d' key = expires (tick t d) key"
    by (auto split: if_splits)
  then show ?thesis
  proof cases
    case yes
    have fresh: "m \<notin> snd ` set ?z"
      using sub m by auto
    have "length (filter (\<lambda>g. u - W < g) (t # G)) \<le> length (recent W u (zst (tick u d') key))" if u: "t \<le> u" for u
    proof (cases "u < t + W")
      case True
      then have "same_at key d' (tick u d')"
        using tick_keeps [OF yes(5)] ttl_covers(1) [OF W] by simp
      then have "zst (tick u d') key = zadd1 ?z (t, m)"
        using yes(4) by (simp add: same_at_def zst_def)
      then show ?thesis
        using counted [OF u] filter_zadd1 [OF fresh, of "\<lambda>e. u - W < fst e" t] by simp
    next
      case False
      then have "filter (\<lambda>g. u - W < g) (t # G) = []"
        using past by (auto simp: filter_empty_conv)
      then show ?thesis
        by simp
    qed
    moreover have "int (length (filter (\<lambda>g. T - W < g \<and> g \<le> T) (t # G))) \<le> max 0 (wl_limit l)" for T
    proof (cases "t \<le> T")
      case True
      have "filter (\<lambda>g. T - W < g \<and> g \<le> T) G = filter (\<lambda>g. T - W < g \<and> g \<le> T) (?G t)"
        using True by (auto intro: filter_cong)
      then have "length (filter (\<lambda>g. T - W < g \<and> g \<le> T) G) \<le> length (?G t)"
        by (metis length_filter_le)
      moreover have "length (?G t) \<le> length ?z"
        using counted [of t] by simp
      ultimately show ?thesis
        using yes(1) by simp
    next
      case False
      then show ?thesis
        using ok by simp
    qed
    moreover have "snd ` set (zadd1 ?z (t, m)) \<subseteq> insert m M"
      using sub by auto
    ultimately show ?thesis
      using yes past by (auto simp: window_ok_def)
  next
    case no
    have "length (?G u) \<le> length (recent W u (zst (tick u d') key))" if u: "t \<le> u" for u
    proof (cases "?z = []")
      case False
      then have "expires d' key = expires d key"
        using no(4) by (auto simp: tick_def Let_def zst_def split: if_splits option.splits)
      then have "zst (tick u d') key = ?z \<or> zst (tick u d) key = []"
        using no(3) by (auto simp: tick_def Let_def zst_def split: option.splits)
      moreover have "length (?G u) \<le> length (recent W u (zst (tick u d) key))"
        using ok t(2) u by simp
      ultimately show ?thesis
        using counted [OF u] by auto
    qed (use counted [OF u] in simp)
    then show ?thesis
      using no ok past sub by (auto simp: window_ok_def)
  qed
qed

lemma window_log:
  fixes l :: WindowLimiter
  defines "W \<equiv> window_us_of l" and "key \<equiv> wl_keyPrefix l @ '':'' @ wl_name l"
  assumes W: "1 \<le> W" "in_i64 (W * 2)"
    and "window_ok W key (wl_limit l) G M now d" "0 \<le> now" "sorted (now # map fst reqs)" "distinct (map snd reqs)" "M \<inter> set (map snd reqs) = {}"
  shows "int (length (filter (\<lambda>g. T - W < g \<and> g \<le> T) (map fst (map fst (filter (granted \<circ> snd)
      (zip reqs (run_log (map (\<lambda>(t, m). (t, window_request l m)) reqs) d)))) @ G))) \<le> max 0 (wl_limit l)"
  using assms(5-)
proof (induction reqs arbitrary: G M now d)
  case Nil
  then show ?case
    by (simp add: window_ok_def)
next
  case (Cons x reqs)
  obtain t m where x: "x = (t, m)"
    by fastforce
  obtain r d' where run: "run_lua exec (window_request l m) (tick t d) = (r, d')"
    by fastforce
  let ?G = "if granted r then t # G else G"
  have "window_ok W key (wl_limit l) ?G (insert m M) t d'"
    using window_step [OF W [unfolded W_def] _ _ _ _ run, of now M G] Cons.prems x by (simp add: W_def key_def cong: if_cong)
  then have "int (length (filter (\<lambda>g. T - W < g \<and> g \<le> T) (map fst (map fst (filter (granted \<circ> snd)
      (zip reqs (run_log (map (\<lambda>(t, m). (t, window_request l m)) reqs) d')))) @ ?G))) \<le> max 0 (wl_limit l)"
    using Cons.prems x by (intro Cons.IH [where now = t and M = "insert m M"]) auto
  then show ?case
    using run x by (auto split: if_splits)
qed

text \<open>
  C22: A sliding window never grants more than its limit.  For any requests from any processes, in the
  order in which they reach the server, each with a member of its own: no interval of the window's
  length, wherever it begins, contains more than \<open>limit\<close> grants.  Neither purging old entries nor the
  expiry of the key forgets a grant that still counts.
\<close>

theorem window_limit_kept:
  fixes l :: WindowLimiter
  assumes "in_i64 (window_us_of l * 2)" "data d (wl_keyPrefix l @ '':'' @ wl_name l) = None"
    and "sorted (0 # map fst reqs)" "distinct (map snd reqs)"
  shows "let log = run_log (map (\<lambda>(t, m). (t, window_request l m)) reqs) d;
      grants = map (fst \<circ> fst) (filter (granted \<circ> snd) (zip reqs log))
    in int (length (filter (\<lambda>t. T - window_us_of l < t \<and> t \<le> T) grants)) \<le> max 0 (wl_limit l)"
proof -
  let ?key = "wl_keyPrefix l @ '':'' @ wl_name l"
  have "1 \<le> window_us_of l"
    by (simp add: window_us_of_def at_least_one_def)
  moreover have "window_ok (window_us_of l) ?key (wl_limit l) [] {} 0 d"
    using assms(2) by (simp add: window_ok_def zsetty_def rtype_def zst_def)
  ultimately show ?thesis
    using window_log [of l "[]" "{}" 0 d reqs T] assms by (simp add: Let_def comp_def)
qed

theorem window_limit_kept_witness:
  "let l = \<lparr>wl_name = ''api'', wl_limit = 1, wl_interval = Second, wl_waitTimeout = 0, wl_policy = PolicySkip, wl_keyPrefix = ''p''\<rparr>;
       reqs = [(5, ''a''), (700000, ''b''), (1000006, ''c'')];
       log = run_log (map (\<lambda>(t, m). (t, window_request l m)) reqs) empty_db;
       grants = map (fst \<circ> fst) (filter (granted \<circ> snd) (zip reqs log))
   in window_us_of l = 1000000 \<and> int (length (filter (\<lambda>t. 800000 - 1000000 < t \<and> t \<le> 800000) grants)) \<le> 1"
proof -
  let ?l = "\<lparr>wl_name = ''api'', wl_limit = 1, wl_interval = Second, wl_waitTimeout = 0, wl_policy = PolicySkip, wl_keyPrefix = ''p''\<rparr>"
  let ?reqs = "[(5 :: int, ''a''), (700000, ''b''), (1000006, ''c'')]"
  have W: "window_us_of ?l = 1000000"
    by code_simp
  have "data empty_db x = None" "in_i64 (1000000 * 2)" "sorted (0 # map fst ?reqs)" "distinct (map snd ?reqs)" for x
    by (simp_all add: empty_db_def in_i64_def)
  then show ?thesis
    using window_limit_kept [of ?l empty_db ?reqs 800000] W unfolding Let_def by simp
qed

section \<open>Reading a bucket back\<close>

text \<open>
  From \<open>10^14\<close> microseconds on, which is March 1973, the script names a bucket in exponent notation and
  \<^verbatim>\<open>Remaining\<close> names it in decimal notation, so \<^verbatim>\<open>Remaining\<close> reads a key that the script never writes.
\<close>

lemma remaining_reads_other_key:
  assumes "10 ^ 14 \<le> n"
  shows "k @ '':'' @ lua_text n \<noteq> k @ '':'' @ string_of_nat n"
proof -
  have "CHR ''e'' \<in> set (lua_text n)"
    using assms by (simp add: lua_text_def Let_def split: prod.split)
  moreover have "\<not> is_digit (CHR ''e'')"
    by code_simp
  then have "CHR ''e'' \<notin> set (string_of_nat n)"
    using string_of_nat_digits [of n] by (auto simp: list_all_iff)
  ultimately show ?thesis
    by auto
qed

end
