(* ===== verification/PeriodicGuarantees.thy ===== *)
theory PeriodicGuarantees
  imports Periodic QueueGuarantees
begin

text \<open>
  What the periodic scheduler guarantees: a job is due exactly in the minutes of its schedule, one
  slot gives one job however many processes run a scheduler, and the life cycle of the goroutine never
  panics, never runs two loops and never leaves \<^verbatim>\<open>Stop\<close> waiting for nothing.
\<close>

section \<open>Due minutes\<close>

lemma same_multiple:
  assumes "(x::int) mod m = 0" "c mod m = 0" "c - e < x" "x \<le> c" "e \<le> m"
  shows "x = c"
proof -
  have "m dvd c - x"
    using assms(1,2) by (simp add: dvd_eq_mod_eq_0 mod_diff_eq [symmetric])
  then show ?thesis
    using assms(3-5) zdvd_not_zless [of "c - x" m] by force
qed

text \<open>
  C11: A job is enqueued in exactly the minutes of its schedule.  The cron library's \<^verbatim>\<open>Next\<close> is the first
  activation after a time, and activations are whole minutes; the check at any moment of a minute then
  says yes when that minute is an activation, and no otherwise.
\<close>

theorem shouldEnqueue_iff:
  assumes first: "\<And>t. p_schedule job t \<in> A \<and> t < p_schedule job t \<and> (\<forall>a\<in>A. t < a \<longrightarrow> p_schedule job t \<le> a)"
    and minutes: "\<And>a. a \<in> A \<Longrightarrow> a mod Minute = 0"
  shows "shouldEnqueue now job \<longleftrightarrow> Truncate now Minute \<in> A"
proof
  let ?c = "Truncate now Minute"
  assume "?c \<in> A"
  moreover have "?c mod Minute = 0"
    by (simp add: Truncate_def minus_mod_eq_mult_div)
  moreover have "?c - Second < ?c"
    by (simp add: Second_def)
  ultimately have "p_schedule job (?c - Second) mod Minute = 0" "?c mod Minute = 0"
      "?c - Second < p_schedule job (?c - Second)" "p_schedule job (?c - Second) \<le> ?c"
    using first [of "?c - Second"] minutes by blast+
  moreover have "Second \<le> Minute"
    by (simp add: Minute_def Second_def)
  ultimately have "p_schedule job (?c - Second) = ?c"
    by (rule same_multiple)
  then show "shouldEnqueue now job"
    by (simp add: shouldEnqueue_def Let_def)
next
  assume "shouldEnqueue now job"
  then show "Truncate now Minute \<in> A"
    using first [of "Truncate now Minute - Second"] by (simp add: shouldEnqueue_def Let_def)
qed

theorem shouldEnqueue_iff_witness:
  "shouldEnqueue (90 * Second) \<lparr>p_Name = ''n'', p_Schedule = ''* * * * *'', p_JobType = ''n'', p_Args = None, p_Queue = ''q'', p_Retry = 3,
     p_schedule = (\<lambda>t. (t div Minute + 1) * Minute)\<rparr>"
proof -
  have pos: "0 < Minute"
    by (simp add: Minute_def Second_def)
  have "t < (t div Minute + 1) * Minute" for t
    using pos_mod_bound [OF pos, of t] div_mult_mod_eq [of t Minute] unfolding distrib_right mult_1 by linarith
  moreover have "(t div Minute + 1) * Minute \<le> a" if "t < a" "a mod Minute = 0" for t a
  proof -
    have "a = a div Minute * Minute"
      using that(2) div_mult_mod_eq [of a Minute] by simp
    moreover from this have "t div Minute < a div Minute"
      using that(1) pos pos_mod_sign [OF pos, of t] div_mult_mod_eq [of t Minute]
      by (intro ccontr [of "t div Minute < a div Minute"]) (use mult_right_mono [of "a div Minute" "t div Minute" Minute] in linarith)
    ultimately show ?thesis
      using pos mult_right_mono [of "t div Minute + 1" "a div Minute" Minute] by simp
  qed
  ultimately show ?thesis
    by (subst shouldEnqueue_iff [where A = "{a. a mod Minute = 0}"]) (auto simp: Truncate_def Minute_def Second_def)
qed

section \<open>One job per slot\<close>

lemma slot_same_minute:
  "sc_keys s' = sc_keys s \<Longrightarrow> p_Name job' = p_Name job \<Longrightarrow> Truncate now' Minute = Truncate now Minute \<Longrightarrow>
    periodicSlotKey s' job' now' = periodicSlotKey s job now"
  by (simp add: periodicSlotKey_def)

text \<open>The request of \<^verbatim>\<open>claimAndEnqueue\<close>, for a scheduler, a job, the time it read and the payload it made.\<close>

definition slot_request :: "Scheduler \<times> periodic_Job \<times> int \<times> string \<Rightarrow> lua" where
  "slot_request = (\<lambda>(s, job, now, payload).
     periodic_enqueue [periodicSlotKey s job now, Queues (sc_keys s), Queue (sc_keys s) (p_Queue job)]
       [''1'', string_of_int (periodicSlotTTL div Second), p_Queue job, payload])"

lemma slot_request_sent: "go_all (\<lambda>p. \<exists>payload. p = slot_request (s, job, now, payload)) (\<lambda>_. False) (claimAndEnqueue s job now)"
  by (auto simp: claimAndEnqueue_def marshalJob_def slot_request_def split: option.split sum.split)

text \<open>
  C9: One slot gives one job.  Any number of schedulers in any number of processes, with the same keys,
  find a job of the same name due in the same minute, each by its own clock; whatever payloads they
  make, of all their requests that reach the server within the hour the slot is held, exactly the first
  enqueues a job.
\<close>

theorem periodic_slot_once:
  assumes "queue_ready k (p_Queue job) d" and free: "data (tick t d) (periodicSlotKey s job now) = None"
    and "sc_keys s = k"
    and same: "\<forall>(t', s', job', now', payload')\<in>set later. sc_keys s' = k \<and> p_Name job' = p_Name job
      \<and> p_Queue job' = p_Queue job \<and> Truncate now' Minute = Truncate now Minute \<and> t' < t + 3600 * 1000000"
  shows "lst (run_at (map (\<lambda>(t, a). (t, slot_request a)) ((t, s, job, now, payload) # later)) d) (Queue k (p_Queue job))
    = payload # lst d (Queue k (p_Queue job))"
proof -
  let ?u = "p_Name job" and ?x = "'':'' @ string_of_int (Unix (Truncate now Minute))" and ?q = "p_Queue job"
  let ?script = "\<lambda>(v, p). periodic_enqueue [PeriodicLock k ?u @ ?x, Queues k, Queue k ?q] [v, string_of_int (1 + int 3599), ?q, p]"
  have key: "periodicSlotKey s' job' now' = PeriodicLock k ?u @ ?x"
    if "sc_keys s' = k" "p_Name job' = ?u" "Truncate now' Minute = Truncate now Minute" for s' job' now'
    using that by (simp add: periodicSlotKey_def)
  have ttl: "periodicSlotTTL div Second = 1 + int 3599"
    by (simp add: periodicSlotTTL_def Second_def)
  have "slot_request (s, job, now, payload) = ?script (''1'', payload)"
    using assms(3) key [of s job now] by (simp add: slot_request_def ttl)
  moreover have "map (\<lambda>(t, a). (t, slot_request a)) later = map (\<lambda>(t, a). (t, ?script a)) (map (\<lambda>(t, s, job, now, p). (t, ''1'', p)) later)"
    using same key by (auto simp: slot_request_def ttl)
  ultimately have requests: "map (\<lambda>(t, a). (t, slot_request a)) ((t, s, job, now, payload) # later)
      = map (\<lambda>(t, a). (t, ?script a)) ((t, ''1'', payload) # map (\<lambda>(t, s, job, now, p). (t, ''1'', p)) later)"
    by simp
  have "stringy (tick t d) (PeriodicLock k ?u @ ?x)" "str (tick t d) (PeriodicLock k ?u @ ?x) = None"
    using free key [of s job now] assms(3) by (simp_all add: stringy_def str_def rtype_def)
  moreover have "\<forall>(t', a)\<in>set (map (\<lambda>(t, s, job, now, p). (t, ''1'', p)) later). t' < t + (1 + int 3599) * 1000000"
    using same by auto
  ultimately show ?thesis
    using slotwise.claimed_once [OF assms(1), where a = "(''1'', payload)"] unfolding requests snd_conv by blast
qed

definition demo_periodic :: "periodic_Job" where
  "demo_periodic = \<lparr>p_Name = ''n'', p_Schedule = ''* * * * *'', p_JobType = ''n'', p_Args = None, p_Queue = ''q'', p_Retry = 3,
     p_schedule = (\<lambda>t. (t div Minute + 1) * Minute)\<rparr>"

theorem periodic_slot_once_witness:
  "lst (run_at (map (\<lambda>(t, a). (t, slot_request a))
      [(5, NewScheduler (keys_New []) [], demo_periodic, 90 * Second, ''first''),
       (3599000000, NewScheduler (keys_New []) [], demo_periodic, 119 * Second, ''second'')]) empty_db) (Queue (keys_New []) ''q'') = [''first'']"
proof -
  let ?s = "NewScheduler (keys_New []) []"
  let ?later = "[(3599000000, ?s, demo_periodic, 119 * Second, ''second'')]"
  have "queue_ready (keys_New []) (p_Queue demo_periodic) empty_db" "data (tick 5 empty_db) x = None" "sc_keys ?s = keys_New []" for x
    by (simp_all add: queue_ready_def empty_views) (simp_all add: empty_db_def tick_def NewScheduler_def Let_def)
  moreover have "\<forall>(t', s', job', now', payload')\<in>set ?later. sc_keys s' = keys_New [] \<and> p_Name job' = p_Name demo_periodic
      \<and> p_Queue job' = p_Queue demo_periodic \<and> Truncate now' Minute = Truncate (90 * Second) Minute \<and> t' < (5::int) + 3600 * 1000000"
    using calculation(3) by (simp add: Truncate_def Minute_def Second_def)
  ultimately have "lst (run_at (map (\<lambda>(t, a). (t, slot_request a)) ((5, ?s, demo_periodic, 90 * Second, ''first'') # ?later)) empty_db)
      (Queue (keys_New []) (p_Queue demo_periodic)) = ''first'' # lst empty_db (Queue (keys_New []) (p_Queue demo_periodic))"
    by (intro periodic_slot_once)
  moreover have "p_Queue demo_periodic = ''q''"
    by (simp add: demo_periodic_def)
  ultimately show ?thesis
    by (simp only: empty_views)
qed

text \<open>
  The slot is named after the job type alone.  Two registrations of one type, with other arguments,
  other queues or other schedules, share their slots: in a minute in which both are due, only the one
  whose request comes first is enqueued.
\<close>

lemma slot_shared_by_type:
  assumes "scheduler_Register parse e1 jobType [periodic_WithQueue q1, WithArgs a1] s = Inr s1"
    and "scheduler_Register parse e2 jobType [periodic_WithQueue q2, WithArgs a2] s1 = Inr s2"
  shows "\<exists>j1 j2. sc_jobs s2 = sc_jobs s @ [j1, j2] \<and> periodicSlotKey s2 j1 now = periodicSlotKey s2 j2 now"
  using assms by (auto simp: scheduler_Register_def periodicSlotKey_def periodic_WithQueue_def WithArgs_def split: sum.splits)

section \<open>Life cycle\<close>

definition life_ok :: "periodic_life \<Rightarrow> bool" where
  "life_ok l \<longleftrightarrow> (\<forall>g>pl_gen l. \<not> done_closed l g \<and> \<not> stop_closed l g) \<and>
     (if pl_running l then \<exists>b. pl_runs l = [(pl_gen l, b)] \<and> done_closed l (pl_gen l) = b \<and> stop_closed l (pl_gen l) = pl_stopping l
      else \<not> pl_stopping l \<and> pl_runs l = [] \<and> done_closed l (pl_gen l))"

lemma life_step_ok: "life_step l m \<Longrightarrow> life_ok l \<Longrightarrow> \<exists>l'. m = Some l' \<and> life_ok l'"
  by (induction rule: life_step.induct)
     (auto simp: life_ok_def scheduler_Start_def scheduler_Stop_def run_close_def run_reset_def Let_def split: if_splits)

text \<open>
  C10: Starting and stopping the periodic scheduler is safe.  In whatever order goroutines call \<^verbatim>\<open>Start\<close>
  and \<^verbatim>\<open>Stop\<close> and the loop's goroutine ends, no channel is closed twice, at most one loop goroutine
  exists, and the channel \<^verbatim>\<open>Stop\<close> waits for is closed or belongs to a goroutine that has yet to close
  it.
\<close>

theorem periodic_life_safe:
  assumes "(\<lambda>a b. \<exists>l. a = Some l \<and> life_step l b)\<^sup>*\<^sup>* (Some new_life) m"
  shows "\<exists>l. m = Some l \<and> length (pl_runs l) \<le> 1 \<and> (done_closed l (pl_gen l) \<or> (pl_gen l, False) \<in> set (pl_runs l))"
proof -
  have "\<exists>l. m = Some l \<and> life_ok l"
    using assms
  proof (induction rule: rtranclp_induct)
    case base
    show ?case
      by (simp add: new_life_def life_ok_def)
  next
    case (step a b)
    then show ?case
      using life_step_ok by blast
  qed
  then show ?thesis
    by (auto simp: life_ok_def split: if_splits)
qed

theorem periodic_life_safe_witness:
  "(\<lambda>a b. \<exists>l. a = Some l \<and> life_step l b)\<^sup>*\<^sup>* (Some new_life) (scheduler_Stop (scheduler_Start new_life))
   \<and> (\<exists>l. scheduler_Stop (scheduler_Start new_life) = Some l \<and> length (pl_runs l) \<le> 1)"
proof -
  have "(\<lambda>a b. \<exists>l. a = Some l \<and> life_step l b)\<^sup>*\<^sup>* (Some new_life) (Some (scheduler_Start new_life))"
    using life_step.start by blast
  then have "(\<lambda>a b. \<exists>l. a = Some l \<and> life_step l b)\<^sup>*\<^sup>* (Some new_life) (scheduler_Stop (scheduler_Start new_life))"
    by (rule rtranclp.rtrancl_into_rtrancl) (blast intro: life_step.stop)
  then show ?thesis
    using periodic_life_safe by blast
qed

text \<open>
  The loop closes its done channel before it resets the flags.  A caller whose \<^verbatim>\<open>Stop\<close> has returned can
  therefore still find the flags set: a \<^verbatim>\<open>Start\<close> made then does nothing, and once the flags are reset
  no loop runs although the last call was \<^verbatim>\<open>Start\<close>.
\<close>

definition stopped_life :: periodic_life where
  "stopped_life = the (run_close 0 (the (scheduler_Stop (scheduler_Start new_life))))"

lemma restart_lost:
  "(\<lambda>a b. \<exists>l. a = Some l \<and> life_step l b)\<^sup>*\<^sup>* (Some new_life) (Some stopped_life)"
  "done_closed stopped_life (pl_gen stopped_life)"
  "scheduler_Start stopped_life = stopped_life"
  "pl_runs (run_reset 0 (scheduler_Start stopped_life)) = []" "\<not> pl_running (run_reset 0 (scheduler_Start stopped_life))"
proof -
  let ?r = "\<lambda>a b. \<exists>l. a = Some l \<and> life_step l b"
  define l1 where "l1 = scheduler_Start new_life"
  define l2 where "l2 = the (scheduler_Stop l1)"
  have l2: "scheduler_Stop l1 = Some l2" and runs: "pl_runs l2 = [(1, False)]" and stopped: "run_close 0 l2 = Some stopped_life"
    by (simp_all add: l2_def l1_def stopped_life_def scheduler_Start_def scheduler_Stop_def run_close_def new_life_def)
  have "?r (Some new_life) (Some l1)" "?r (Some l1) (Some l2)" "?r (Some l2) (Some stopped_life)"
    using life_step.start [of new_life] life_step.stop [of l1] life_step.close [of 0 l2] l2 runs stopped by (auto simp: l1_def)
  then show "?r\<^sup>*\<^sup>* (Some new_life) (Some stopped_life)"
    by (rule converse_rtranclp_into_rtranclp [OF _ converse_rtranclp_into_rtranclp [OF _ r_into_rtranclp]])
qed (simp_all add: stopped_life_def scheduler_Start_def scheduler_Stop_def run_close_def run_reset_def new_life_def Let_def)

end
