(* ===== verification/BatchGuarantees.thy ===== *)
theory BatchGuarantees
  imports Safety
begin

text \<open>
  What a batch promises.  \<open>abatch\<close> is a batch as its users see it: the members that have not reported,
  the outcomes so far, and which callbacks are due.  A report of a member changes it by \<open>areport\<close>.
  The script \<^verbatim>\<open>batch_complete.lua\<close>, run on the keys of a batch, refines that step; the counter of
  pending members stays equal to the size of the set of members.
\<close>

section \<open>The abstract batch\<close>

record abatch =
  ab_members :: "string set"
  ab_failed :: "string set"
  ab_successes :: int
  ab_failures :: int
  ab_dead :: bool
  ab_invalidated :: bool
  ab_death_fired :: bool
  ab_complete :: bool
  ab_success_fired :: bool
  ab_callbacks :: int

definition leave :: "string \<Rightarrow> abatch \<Rightarrow> abatch" where
  "leave job b = b\<lparr>ab_members := ab_members b - {job}\<rparr>"

definition fail :: "string \<Rightarrow> abatch \<Rightarrow> abatch" where
  "fail job b = (if job \<in> ab_failed b then b
     else b\<lparr>ab_failed := insert job (ab_failed b), ab_failures := ab_failures b + 1\<rparr>)"

text \<open>\<open>on f\<close> says that the batch was created with the callback \<open>f\<close>.\<close>

definition bury :: "(string \<Rightarrow> bool) \<Rightarrow> abatch \<Rightarrow> abatch" where
  "bury on b = (if ab_invalidated b then b
     else if \<not> ab_death_fired b \<and> on ''on_death''
     then b\<lparr>ab_dead := True, ab_death_fired := True, ab_callbacks := ab_callbacks b + 1\<rparr>
     else b\<lparr>ab_dead := True\<rparr>)"

definition finish :: "(string \<Rightarrow> bool) \<Rightarrow> abatch \<Rightarrow> abatch" where
  "finish on b = (if ab_members b \<noteq> {} \<or> ab_complete b then b
     else let b = b\<lparr>ab_complete := True, ab_callbacks := ab_callbacks b + (if on ''on_complete'' then 1 else 0)\<rparr>
          in if \<not> ab_dead b \<and> \<not> ab_invalidated b \<and> \<not> ab_success_fired b \<and> on ''on_success''
             then b\<lparr>ab_success_fired := True, ab_callbacks := ab_callbacks b + 1\<rparr> else b)"

definition areport :: "(string \<Rightarrow> bool) \<Rightarrow> string \<Rightarrow> Result \<Rightarrow> abatch \<Rightarrow> abatch" where
  "areport on job res b = (if job \<notin> ab_members b then b
     else finish on (case res of
         ResultSuccess \<Rightarrow> (leave job b)\<lparr>ab_successes := ab_successes b + 1\<rparr>
       | ResultFailure \<Rightarrow> fail job b
       | ResultDeath \<Rightarrow> bury on (fail job (leave job b))
       | ResultInvalidated \<Rightarrow> (leave job b)\<lparr>ab_invalidated := True\<rparr>
       | ResultEmptySuccess \<Rightarrow> leave job b))"

section \<open>Scripts that return\<close>

definition rets :: "(rreply \<Rightarrow> db \<Rightarrow> bool) \<Rightarrow> lua \<Rightarrow> db \<Rightarrow> bool" where
  "rets R p d \<longleftrightarrow> (\<forall>r d'. run_lua exec p d = (Inr r, d') \<longrightarrow> R r d')"

lemma rets_simps [simp]: "rets R (LRet r) d = R r d" "rets R (LErr e) d"
  by (simp_all add: rets_def)

lemma rets_call:
  assumes "\<And>r e. exec c d = (r, e) \<Longrightarrow> \<forall>m. r \<noteq> RErr m \<Longrightarrow> rets R (f r) e"
  shows "rets R (LCall c f) d"
  unfolding rets_def
proof (intro allI impI)
  fix r' d'
  assume *: "run_lua exec (LCall c f) d = (Inr r', d')"
  obtain r e where "exec c d = (r, e)"
    by fastforce
  with * assms [OF this] show "R r' d'"
    by (cases r) (auto simp: rets_def)
qed

lemma rets_want: "(rtype d k = ''none'' \<or> rtype d k = ty \<Longrightarrow> rets R p d) \<Longrightarrow> rets R (want what ty k p) d"
  by (auto simp: rets_def)

lemma rets_lwhen:
  assumes "\<And>r e. b \<Longrightarrow> exec c d = (r, e) \<Longrightarrow> \<forall>m. r \<noteq> RErr m \<Longrightarrow> rets R p e" "\<not> b \<Longrightarrow> rets R p d"
  shows "rets R (lwhen b c p) d"
  using assms unfolding lwhen_def by (auto intro!: rets_call)

lemma rets_lencode: "(\<And>s. R (RBulk s) d) \<Longrightarrow> rets R (lencode cj j) d"
  by (simp add: lencode_def split: option.split)

lemma rets_lindex: "(\<And>v. rets R (cont v) d) \<Longrightarrow> rets R (lindex j f cont) d"
  by (simp add: lindex_def split: json.split)

lemma rets_make_callback:
  "(\<And>cb. rets R (cont (oc\<lparr>callback_list := callback_list oc @ [cb]\<rparr>)) d) \<Longrightarrow> rets R (make_callback cfg oc cont) d"
  unfolding make_callback_def Let_def by (intro rets_lindex) simp

section \<open>The keys of a batch\<close>

text \<open>
  The progress hash as a map \<open>h\<close> up to the sequence number of callbacks, the members \<open>M\<close>, the failed
  members \<open>F\<close> and the metadata \<open>meta\<close>.
\<close>

definition shape :: "string \<Rightarrow> string \<Rightarrow> string \<Rightarrow> string \<Rightarrow> string \<Rightarrow> (string \<Rightarrow> string option) \<Rightarrow> string set \<Rightarrow> string set \<Rightarrow> db \<Rightarrow> bool" where
  "shape bk pk jk fk meta h M F d \<longleftrightarrow> data d bk = Some (VStr meta) \<and> rtype d pk = ''hash'' \<and>
     (\<forall>f. f \<noteq> ''callback_seq'' \<longrightarrow> map_of (hsh d pk) f = h f) \<and>
     setty d jk \<and> distinct (sts d jk) \<and> set (sts d jk) = M \<and> set (sts d fk) = F"

lemma shape_frame:
  assumes "shape bk pk jk fk meta h M F d" "exec c d = (r, e)" "\<forall>x\<in>{bk, pk, jk, fk}. x \<notin> set (writes c)"
  shows "shape bk pk jk fk meta h M F e"
proof -
  have "data e x = data d x" if "x \<in> {bk, pk, jk, fk}" for x
    using exec_frame [of x c d] assms(2,3) that by (auto simp: same_at_def)
  then show ?thesis
    using assms(1) by (simp add: shape_def rtype_def hsh_def sts_def setty_def)
qed

definition batch_keys :: "string list \<Rightarrow> string \<Rightarrow> bool" where
  "batch_keys KEYS queue_prefix \<longleftrightarrow> distinct KEYS \<and> (\<forall>q. queue_prefix @ q \<notin> set KEYS)"

lemma completion_keys: "batch_keys (CompletionKeys k b) (Queue k [])"
  by (auto simp: batch_keys_def CompletionKeys_def Batch_def BatchProgress_def BatchJobs_def BatchFailed_def DeadBatches_def
      BatchCallbacks_def Queues_def Queue_def keys_prefix_def)

lemma shape_hash: "shape bk pk jk fk meta h M F d \<Longrightarrow> with_hash d pk f = f (hsh d pk)"
  by (rule with_hash_ok) (simp add: shape_def hashy_def)

lemma shape_set: "shape bk pk jk fk meta h M F d \<Longrightarrow> with_set d jk f = f (sts d jk)"
  by (rule with_set_ok) (simp add: shape_def)

lemma shape_put_hash:
  assumes "shape bk pk jk fk meta h M F d" "distinct [bk, pk, jk, fk]" "hs \<noteq> []" "\<forall>f. f \<noteq> ''callback_seq'' \<longrightarrow> map_of hs f = h' f"
  shows "shape bk pk jk fk meta h' M F (put pk (VHash hs) d)"
  using assms by (auto simp: shape_def redis_simps)

lemma shape_incr:
  assumes "shape bk pk jk fk meta h M F d" "distinct [bk, pk, jk, fk]" "exec (cHINCRBY pk f n) d = (r, e)" "\<forall>m. r \<noteq> RErr m"
  shows "shape bk pk jk fk meta (if f = ''callback_seq'' then h else h(f \<mapsto> string_of_int (number_or (h f) 0 + n))) M F e"
proof -
  let ?h = "hsh d pk"
  obtain i where i: "e = put pk (VHash (AList.update f (string_of_int (i + n)) ?h)) d" "number_or (map_of ?h f) 0 = i"
    using assms(3,4) by (auto simp: shape_hash [OF assms(1)] add_counter_def number_or_def not_integer_def overflow_error_def parse_i64_def
        split: option.splits if_splits)
  show ?thesis
    unfolding i(1) using assms(1) i(2)
    by (intro shape_put_hash [OF assms(1,2)]) (auto simp: update_conv' shape_def)
qed

lemma map_of_hset: "map_of (foldl hset1 h ps) = map_of h ++ map_of (rev ps)"
  by (induction ps arbitrary: h) (auto simp: hset1_def update_conv' fun_eq_iff map_add_def split: option.split)

lemma hset_nonempty: "ps \<noteq> [] \<Longrightarrow> foldl hset1 h ps \<noteq> []"
  by (induction ps rule: rev_induct) (simp_all add: hset1_def)

lemma shape_hset:
  assumes "shape bk pk jk fk meta h M F d" "distinct [bk, pk, jk, fk]" "ps \<noteq> []" "exec (cHSET pk ps) d = (r, e)"
  shows "shape bk pk jk fk meta (h ++ map_of (rev ps)) M F e"
proof -
  have e: "e = put pk (VHash (foldl hset1 (hsh d pk) ps)) d"
    using assms(4) by (simp add: shape_hash [OF assms(1)])
  show ?thesis
    unfolding e using assms(1) by (intro shape_put_hash [OF assms(1,2)]) (auto simp: hset_nonempty assms(3) map_of_hset shape_def map_add_def split: option.split)
qed

lemma shape_srem:
  assumes "shape bk pk jk fk meta h M F d" "distinct [bk, pk, jk, fk]" "exec (cSREM jk x) d = (r, e)"
  shows "shape bk pk jk fk meta h (M - {x}) F e"
  using assms by (auto simp: shape_set [OF assms(1)] shape_def redis_simps split: if_splits)

lemma shape_fail:
  assumes "shape bk pk jk fk meta h M F d" "distinct [bk, pk, jk, fk]" "exec (cSADD fk [x]) d = (r, e)" "\<forall>m. r \<noteq> RErr m"
  shows "shape bk pk jk fk meta h M (insert x F) e"
proof -
  have "setty d fk"
    using assms(3,4) by (auto simp: with_set_def setty_def rtype_def wrongtype_def split: option.splits rval.splits)
  then show ?thesis
    using assms by (auto simp: with_set_ok shape_def redis_simps set_sadd1)
qed

lemma shape_expire:
  assumes "shape bk pk jk fk meta h M F d" "exec (cEXPIRE k n) d = (r, e)" "0 < n"
  shows "shape bk pk jk fk meta h M F e"
  using assms by (auto simp: expire_in_def shape_def rtype_def hsh_def sts_def setty_def split: if_splits)

section \<open>The writes of a completion\<close>

lemma rets_frame:
  assumes "shape bk pk jk fk meta h M F d" "\<forall>x\<in>{bk, pk, jk, fk}. x \<notin> set (writes c)"
    and "\<And>r e. shape bk pk jk fk meta h M F e \<Longrightarrow> rets R (f r) e"
  shows "rets R (LCall c f) d"
  by (rule rets_call) (use assms shape_frame in blast)

lemma rets_make_callback_jobs:
  assumes "shape bk pk jk fk meta h M F d" "distinct [bk, pk, jk, fk]"
    and "\<And>jobs e. shape bk pk jk fk meta h M F e \<Longrightarrow> rets R (cont jobs) e"
  shows "rets R (make_callback_jobs cj pk q dr now bid bt parent cs cont) d"
  using assms
proof (induction cj pk q dr now bid bt parent cs cont arbitrary: d rule: make_callback_jobs.induct)
  case (2 cj pk q dr now bid bt parent ty opts cs cont)
  show ?case
    unfolding make_callback_jobs.simps Let_def
  proof (rule rets_call)
    fix r e
    assume "exec (cHINCRBY pk ''callback_seq'' 1) d = (r, e)" "\<forall>m. r \<noteq> RErr m"
    then have "shape bk pk jk fk meta h M F e"
      using shape_incr [OF 2(2,3)] by force
    then show "rets R (case cj_encode cj (callback_job (bt @ '':callback:'' @ string_of_int (reply_int r)) ty q (callback_args opts bid parent) dr now bid)
       of None \<Rightarrow> LErr ''Cannot serialise'' | Some text \<Rightarrow> make_callback_jobs cj pk q dr now bid bt parent cs
         (\<lambda>jobs. cont ((bt @ '':callback:'' @ string_of_int (reply_int r), text) # jobs))) e"
      using 2(1) [OF refl] 2(3,4) by (auto split: option.split)
  qed
qed simp

lemma rets_push_callback_jobs:
  assumes "shape bk pk jk fk meta h M F d" "ck \<notin> {bk, pk, jk, fk}" "qk \<notin> {bk, pk, jk, fk}"
    and "\<And>e. shape bk pk jk fk meta h M F e \<Longrightarrow> rets R cont e"
  shows "rets R (push_callback_jobs ck qk jobs cont) d"
  using assms
proof (induction ck qk jobs cont arbitrary: d rule: push_callback_jobs.induct)
  case (2 ck qk jid payload jobs cont)
  note step = rets_frame [where bk = bk and pk = pk and jk = jk and fk = fk and meta = meta and h = h and M = M and F = F]
  show ?case
    using 2 by (auto intro!: step)
qed simp

lemma rets_write_callbacks:
  assumes "shape bk pk jk fk meta h M F d" "batch_keys [bk, pk, jk, fk, dk, ck, qk] (ARGV ! 4)"
  shows "rets (\<lambda>_. shape bk pk jk fk meta h M F) (write_callbacks cj [bk, pk, jk, fk, dk, ck, qk] ARGV dr p oc bid q) d"
proof -
  note step = rets_frame [where bk = bk and pk = pk and jk = jk and fk = fk and meta = meta and h = h and M = M and F = F]
    rets_make_callback_jobs [where bk = bk and jk = jk and fk = fk and meta = meta and h = h and M = M and F = F]
    rets_push_callback_jobs [where bk = bk and pk = pk and jk = jk and fk = fk and meta = meta and h = h and M = M and F = F]
  show ?thesis
    using assms unfolding write_callbacks_def batch_keys_def by (auto intro!: rets_lencode step split: option.split)
qed

text \<open>What the updates of a completion leave in the progress hash.\<close>

definition counted :: "string \<Rightarrow> int \<Rightarrow> (string \<Rightarrow> string option) \<Rightarrow> string \<Rightarrow> string option" where
  "counted f n h = h(f := if n = 0 then h f else Some (string_of_int (number_or (h f) 0 + n)))"

definition updated :: "string \<Rightarrow> progress \<Rightarrow> outcome \<Rightarrow> (string \<Rightarrow> string option) \<Rightarrow> string \<Rightarrow> string option" where
  "updated res p oc h = counted ''callbacks_pending'' (int (length (callback_list oc)))
     (counted ''failures'' (failures_delta oc) (counted ''successes'' (successes_delta oc) h) ++ map_of (rev (progress_updates res p)))"

lemma rets_incr:
  assumes "shape bk pk jk fk meta h M F d" "distinct [bk, pk, jk, fk]" "f \<noteq> ''callback_seq''"
    and "\<And>e. shape bk pk jk fk meta (counted f n h) M F e \<Longrightarrow> rets R p e" "b \<longleftrightarrow> n \<noteq> 0"
  shows "rets R (lwhen b (cHINCRBY pk f n) p) d"
proof (rule rets_lwhen)
  fix r e
  assume "b" "exec (cHINCRBY pk f n) d = (r, e)" "\<forall>m. r \<noteq> RErr m"
  from shape_incr [OF assms(1,2) this(2,3)] show "rets R p e"
    using assms(3,5) \<open>b\<close> by (intro assms(4)) (simp add: counted_def)
qed (use assms(1,4,5) in \<open>simp add: counted_def\<close>)

lemma rets_update:
  assumes "shape bk pk jk fk meta h M F d" "distinct [bk, pk, jk, fk]"
    and "\<And>e. shape bk pk jk fk meta (h ++ map_of (rev ps)) M F e \<Longrightarrow> rets R p e"
  shows "rets R (lwhen (ps \<noteq> []) (cHSET pk ps) p) d"
  by (rule rets_lwhen) (use assms shape_hset [OF assms(1,2)] in auto)

lemma rets_leave:
  assumes "shape bk pk jk fk meta h M F d" "distinct [bk, pk, jk, fk]"
    and "\<And>e. shape bk pk jk fk meta h (if b then M - {x} else M) F e \<Longrightarrow> rets R p e"
  shows "rets R (lwhen b (cSREM jk x) p) d"
  by (rule rets_lwhen) (use assms shape_srem [OF assms(1,2)] in auto)

lemma rets_fail:
  assumes "shape bk pk jk fk meta h M F d" "distinct [bk, pk, jk, fk]" "0 < n"
    and "\<And>e. shape bk pk jk fk meta h M (if b then insert x F else F) e \<Longrightarrow> rets R p e"
  shows "rets R (lwhen b (cSADD fk [x]) (lwhen b (cEXPIRE fk n) p)) d"
proof (intro rets_lwhen)
  fix r e r' e'
  assume "b" "exec (cSADD fk [x]) d = (r, e)" "\<forall>m. r \<noteq> RErr m" "exec (cEXPIRE fk n) e = (r', e')"
  then show "rets R p e'"
    using assms(4) shape_expire [OF shape_fail [OF assms(1,2)]] assms(3) by fastforce
qed (use assms(1,4) in auto)

lemma rets_load_batch:
  assumes "shape bk pk jk fk meta h M F d" "cj_decode cj meta = Some md" "memo \<in> {None, Some md}" "rets R (cont md) d"
  shows "rets R (load_batch cj bk memo cont) d"
  using assms by (auto simp: load_batch_def shape_def with_str_def bulk_def intro!: rets_call)

lemma rets_write_completion:
  assumes "shape bk pk jk fk meta h M F d" "batch_keys [bk, pk, jk, fk, dk, ck, qk] (ARGV ! 4)"
    and "cj_decode cj meta = Some md" "memo \<in> {None, Some md}"
  shows "rets (\<lambda>_. shape bk pk jk fk meta (updated (ARGV ! 1) p oc h)
      (if gone then M - {ARGV ! 0} else M) (if add_failed_job oc then insert (ARGV ! 0) F else F))
    (write_completion cj [bk, pk, jk, fk, dk, ck, qk] ARGV dr gone memo p oc q) d"
proof -
  have ds: "distinct [bk, pk, jk, fk]" and dk: "dk \<notin> {bk, pk, jk, fk}"
    using assms(2) by (auto simp: batch_keys_def)
  let ?M = "if gone then M - {ARGV ! 0} else M" and ?F = "if add_failed_job oc then insert (ARGV ! 0) F else F"
  have rest: "rets (\<lambda>_. shape bk pk jk fk meta h' ?M ?F) (case batch_id p of
        Some b \<Rightarrow> write_dead_batch cj [bk, pk, jk, fk, dk, ck, qk] oc (Some (JStr b))
            (write_callbacks cj [bk, pk, jk, fk, dk, ck, qk] ARGV dr p oc (Some (JStr b)) q)
      | None \<Rightarrow> load_batch cj bk memo (\<lambda>metadata. lindex metadata ''id'' (\<lambda>bid.
          write_dead_batch cj [bk, pk, jk, fk, dk, ck, qk] oc bid
            (write_callbacks cj [bk, pk, jk, fk, dk, ck, qk] ARGV dr p oc bid q)))) e"
    if e: "shape bk pk jk fk meta h' ?M ?F e" for h' e
  proof -
    note tail = rets_write_callbacks [OF _ assms(2)]
    have "rets (\<lambda>_. shape bk pk jk fk meta h' ?M ?F) (write_dead_batch cj [bk, pk, jk, fk, dk, ck, qk] oc bid
            (write_callbacks cj [bk, pk, jk, fk, dk, ck, qk] ARGV dr p oc bid q)) e" for bid
      using tail [OF e] dk unfolding write_dead_batch_def
      by (auto simp: bad_argument_def intro!: rets_frame [OF e] tail split: option.split)
    then show ?thesis
      by (auto intro!: rets_load_batch [OF e assms(3,4)] rets_lindex split: option.split)
  qed
  show ?thesis
    unfolding write_completion_def updated_def nth_Cons_0 nth_Cons_Suc numeral_2_eq_2 numeral_3_eq_3 One_nat_def
    apply (rule rets_incr [OF assms(1) ds], simp)
     apply (erule rets_incr [OF _ ds], simp)
      apply (erule rets_update [OF _ ds])
      apply (erule rets_incr [OF _ ds], simp)
       apply (erule rets_leave [OF _ ds])
       apply (erule rets_fail [OF _ ds], simp)
       apply (erule rest)
      apply simp_all
    done
qed

section \<open>The decisions of a completion\<close>

definition configured :: "(string \<times> json) list \<Rightarrow> string \<Rightarrow> bool" where
  "configured ms f \<longleftrightarrow> truthy (map_of (rev ms) f)"

lemma rets_table: "rets R (cont (map_of (rev ms) f)) d \<Longrightarrow> rets R (lindex (JObj ms) f cont) d"
  by (simp add: lindex_def table_field_def)

lemma rets_when_truthy:
  assumes "\<And>cfg. truthy v \<Longrightarrow> rets R (yes cfg) d" "\<not> truthy v \<Longrightarrow> rets R no d"
  shows "rets R (when_truthy v yes no) d"
  using assms by (auto simp: when_truthy_def truthy_def split: option.split)

definition wants_success :: "(string \<times> json) list \<Rightarrow> progress \<Rightarrow> bool" where
  "wants_success ms p \<longleftrightarrow> \<not> dead p \<and> \<not> invalidated p \<and> \<not> success_fired p \<and> configured ms ''on_success''"

lemma rets_fire_complete:
  assumes "shape bk pk jk fk meta h M F d" "cj_decode cj meta = Some (JObj ms)" "memo \<in> {None, Some (JObj ms)}" "0 \<le> pending p"
    and "\<And>memo' cbs. memo' \<in> {None, Some (JObj ms)} \<Longrightarrow> pending p = 0 \<Longrightarrow> \<not> complete_fired p \<Longrightarrow>
      length cbs = (if configured ms ''on_complete'' then 1 else 0) + (if wants_success ms p then 1 else 0) \<Longrightarrow>
      rets R (cont memo' (p\<lparr>complete_fired := True, success_fired := success_fired p \<or> wants_success ms p\<rparr>)
        (oc\<lparr>callback_list := callback_list oc @ cbs\<rparr>)) d"
    and "pending p \<noteq> 0 \<or> complete_fired p \<Longrightarrow> rets R (cont memo p oc) d"
  shows "rets R (fire_complete cj bk memo p oc cont) d"
proof (cases "pending p = 0 \<and> \<not> complete_fired p")
  case True
  have fired: "rets R (cont (Some (JObj ms)) (p\<lparr>complete_fired := True, success_fired := success_fired p \<or> wants_success ms p\<rparr>)
      (oc\<lparr>callback_list := callback_list oc @ cbs\<rparr>)) d"
    if "length cbs = (if configured ms ''on_complete'' then 1 else 0) + (if wants_success ms p then 1 else 0)" for cbs
    using assms(5) [OF _ _ _ that] True by simp
  have same: "p\<lparr>pending := 0\<rparr> = p"
    using True by simp
  have success: "rets R (if \<not> dead p \<and> \<not> invalidated p \<and> \<not> success_fired p
        then lindex (JObj ms) ''on_success'' (\<lambda>on_success. when_truthy on_success
            (\<lambda>cfg. make_callback cfg oc' (\<lambda>oc. cont (Some (JObj ms)) (p\<lparr>complete_fired := True, success_fired := True\<rparr>) oc))
            (cont (Some (JObj ms)) (p\<lparr>complete_fired := True\<rparr>) oc'))
        else cont (Some (JObj ms)) (p\<lparr>complete_fired := True\<rparr>) oc') d"
    if oc': "oc' = oc\<lparr>callback_list := callback_list oc @ cbs\<rparr>" "length cbs = (if configured ms ''on_complete'' then 1 else 0)" for oc' cbs
  proof -
    have "rets R (make_callback cfg oc' (\<lambda>oc. cont (Some (JObj ms)) (p\<lparr>complete_fired := True, success_fired := True\<rparr>) oc)) d"
      if "wants_success ms p" for cfg
      using fired [of "cbs @ [cb]" for cb] oc' that by (intro rets_make_callback) simp
    moreover have "rets R (cont (Some (JObj ms)) (p\<lparr>complete_fired := True\<rparr>) oc') d" if "\<not> wants_success ms p"
      using fired [of cbs] oc' that by simp
    ultimately show ?thesis
      by (auto simp: wants_success_def configured_def intro!: rets_table rets_when_truthy)
  qed
  have "rets R (fire_complete cj bk memo p oc cont) d \<longleftrightarrow> rets R (load_batch cj bk memo (\<lambda>metadata.
      lindex metadata ''on_complete'' (\<lambda>on_complete.
        (\<lambda>then_success. when_truthy on_complete (\<lambda>cfg. make_callback cfg oc then_success) (then_success oc))
        (\<lambda>oc. if \<not> dead p \<and> \<not> invalidated p \<and> \<not> success_fired p
              then lindex metadata ''on_success'' (\<lambda>on_success. when_truthy on_success
                  (\<lambda>cfg. make_callback cfg oc (\<lambda>oc. cont (Some metadata) (p\<lparr>complete_fired := True, success_fired := True\<rparr>) oc))
                  (cont (Some metadata) (p\<lparr>complete_fired := True\<rparr>) oc))
              else cont (Some metadata) (p\<lparr>complete_fired := True\<rparr>) oc)))) d"
    using True by (simp add: fire_complete_def Let_def same)
  moreover have "oc = oc\<lparr>callback_list := callback_list oc @ []\<rparr>"
    by simp
  ultimately show ?thesis
    using success by (auto simp: configured_def intro!: rets_load_batch [OF assms(1-3)] rets_table rets_when_truthy rets_make_callback)
next
  case False
  moreover have "p\<lparr>pending := if pending p < 0 then 0 else pending p\<rparr> = p"
    using assms(4) by simp
  ultimately show ?thesis
    using assms(6) by (auto simp: fire_complete_def Let_def)
qed

lemma rets_fire_death:
  assumes "shape bk pk jk fk meta h M F d" "cj_decode cj meta = Some (JObj ms)" "memo \<in> {None, Some (JObj ms)}"
    and "invalidated p \<Longrightarrow> rets R (cont memo p oc) d"
    and "\<And>memo' cbs. memo' \<in> {None, Some (JObj ms)} \<Longrightarrow> \<not> invalidated p \<Longrightarrow>
      length cbs = (if \<not> death_fired p \<and> configured ms ''on_death'' then 1 else 0) \<Longrightarrow>
      rets R (cont memo' (p\<lparr>dead := True, death_fired := death_fired p \<or> configured ms ''on_death''\<rparr>)
        (oc\<lparr>add_dead_batch := True, callback_list := callback_list oc @ cbs\<rparr>)) d"
  shows "rets R (fire_death cj bk memo p oc cont) d"
proof -
  have "rets R (make_callback cfg (oc\<lparr>add_dead_batch := True\<rparr>) (\<lambda>oc. cont (Some (JObj ms)) (p\<lparr>dead := True, death_fired := True\<rparr>) oc)) d"
    if "\<not> invalidated p" "\<not> death_fired p" "configured ms ''on_death''" for cfg
    using assms(5) [of "Some (JObj ms)" "[cb]" for cb] that by (intro rets_make_callback) simp
  moreover have "rets R (cont memo' (p\<lparr>dead := True\<rparr>) (oc\<lparr>add_dead_batch := True\<rparr>)) d"
    if "memo' \<in> {None, Some (JObj ms)}" "\<not> invalidated p" "death_fired p \<or> \<not> configured ms ''on_death''" for memo'
  proof -
    have "p\<lparr>dead := True, death_fired := death_fired p \<or> configured ms ''on_death''\<rparr> = p\<lparr>dead := True\<rparr>"
      using that(3) by (cases p) auto
    then show ?thesis
      using assms(5) [OF that(1,2), of "[]"] that(3) by auto
  qed
  ultimately show ?thesis
    using assms(3,4) by (auto simp: fire_death_def Let_def configured_def
        intro!: rets_load_batch [OF assms(1-3)] rets_table rets_when_truthy)
qed

lemma rets_check_failed:
  assumes "shape bk pk jk fk meta h M F d" "rets R (cont (x \<notin> F)) d"
  shows "rets R (check_failed fk x cont) d"
  unfolding check_failed_def
proof (intro rets_want rets_call)
  fix r e
  assume "rtype d fk = ''none'' \<or> rtype d fk = ''set''" "exec (cSISMEMBER fk x) d = (r, e)"
  then have "e = d" "(reply_int r = 0) = (x \<notin> F)"
    using assms(1) by (auto simp: with_set_ok setty_def shape_def)
  then show "rets R (cont (reply_int r = 0)) e"
    using assms(2) by simp
qed

lemma rets_callback_target:
  assumes "shape bk pk jk fk meta h M F d" "cj_decode cj meta = Some (JObj ms)" "memo \<in> {None, Some (JObj ms)}"
    and "\<And>q. rets R (cont q) d"
  shows "rets R (callback_target cj [bk, pk, jk, fk, dk, ck, qk] ARGV memo cont) d"
  using assms(4) unfolding callback_target_def
  by (auto simp: shape_hash [OF assms(1)] intro!: rets_call rets_want rets_lindex rets_load_batch [OF assms(1-3)] split: option.split)

lemma updated_callbacks [simp]: "updated res (p\<lparr>callbacks_pending := n\<rparr>) oc h = updated res p oc h"
  by (simp add: updated_def progress_updates_def)

text \<open>What follows the decisions: the last type checks and the writes.\<close>

definition write_member :: "cjson \<Rightarrow> string list \<Rightarrow> string list \<Rightarrow> int \<Rightarrow> bool \<Rightarrow> json option \<Rightarrow> progress \<Rightarrow> outcome \<Rightarrow> lua" where
  "write_member cj KEYS ARGV dr gone memo p oc =
     (\<lambda>checked. if callback_list oc = [] then checked p []
                else callback_target cj KEYS ARGV memo
                       (checked (p\<lparr>callbacks_pending := callbacks_pending p + int (length (callback_list oc))\<rparr>)))
     (\<lambda>p callback_queue.
        (\<lambda>cont. if add_dead_batch oc then want ''dead batches key'' ''set'' (KEYS ! 4) cont else cont)
        (write_completion cj KEYS ARGV dr gone memo p oc callback_queue))"

lemma complete_member_parts:
  "complete_member cj KEYS ARGV dr gone memo p = apply_result cj KEYS ARGV memo p (\<lambda>memo p oc.
     fire_complete cj (KEYS ! 0) memo p oc (write_member cj KEYS ARGV dr gone))"
  by (simp add: complete_member_def write_member_def [abs_def])

lemma rets_write_member:
  assumes "shape bk pk jk fk meta h M F d" "batch_keys [bk, pk, jk, fk, dk, ck, qk] (ARGV ! 4)"
    and "cj_decode cj meta = Some (JObj ms)" "memo \<in> {None, Some (JObj ms)}"
    and "\<And>e. shape bk pk jk fk meta (updated (ARGV ! 1) p oc h)
      (if gone then M - {ARGV ! 0} else M) (if add_failed_job oc then insert (ARGV ! 0) F else F) e \<Longrightarrow> Q e"
  shows "rets (\<lambda>_. Q) (write_member cj [bk, pk, jk, fk, dk, ck, qk] ARGV dr gone memo p oc) d"
proof -
  have "rets (\<lambda>_. Q) (write_completion cj [bk, pk, jk, fk, dk, ck, qk] ARGV dr gone memo p' oc q) d"
    if "updated (ARGV ! 1) p' oc h = updated (ARGV ! 1) p oc h" for p' q
    using rets_write_completion [OF assms(1-4), of p' oc gone dr q] assms(5) that unfolding rets_def by auto
  then show ?thesis
    unfolding write_member_def by (auto intro!: rets_callback_target [OF assms(1,3,4)] rets_want)
qed

section \<open>The refinement\<close>

definition aview :: "(string \<Rightarrow> string option) \<Rightarrow> string set \<Rightarrow> string set \<Rightarrow> abatch" where
  "aview h M F = \<lparr>ab_members = M, ab_failed = F, ab_successes = number_or (h ''successes'') 0,
     ab_failures = number_or (h ''failures'') 0, ab_dead = bool_value (h ''dead''),
     ab_invalidated = bool_value (h ''invalidated''), ab_death_fired = bool_value (h ''death_fired''),
     ab_complete = bool_value (h ''complete_fired''), ab_success_fired = bool_value (h ''success_fired''),
     ab_callbacks = number_or (h ''callbacks_pending'') 0\<rparr>"

lemma number_or_text [simp]: "number_or (Some (string_of_int i)) n = i"
  by (simp add: number_or_def)

lemma bool_value_one [simp]: "bool_value (Some ''1'')"
  by (simp add: bool_value_def)

definition keeps_flags :: "(string \<Rightarrow> string option) \<Rightarrow> progress \<Rightarrow> bool" where
  "keeps_flags h p \<longleftrightarrow> (bool_value (h ''dead'') \<longrightarrow> dead p) \<and> (bool_value (h ''invalidated'') \<longrightarrow> invalidated p) \<and>
     (bool_value (h ''death_fired'') \<longrightarrow> death_fired p) \<and> (bool_value (h ''complete_fired'') \<longrightarrow> complete_fired p) \<and>
     (bool_value (h ''success_fired'') \<longrightarrow> success_fired p)"

lemma map_of_when: "map_of (rev (if c then [(k, v)] else [])) f = (if c \<and> f = k then Some v else None)"
  by simp

lemma updates_at [simp]:
  "map_of (rev (progress_updates res p)) ''successes'' = None" "map_of (rev (progress_updates res p)) ''failures'' = None"
  "map_of (rev (progress_updates res p)) ''callbacks_pending'' = None"
  "map_of (rev (progress_updates res p)) ''dead'' = (if dead p then Some ''1'' else None)"
  "map_of (rev (progress_updates res p)) ''invalidated'' = (if invalidated p then Some ''1'' else None)"
  "map_of (rev (progress_updates res p)) ''death_fired'' = (if death_fired p then Some ''1'' else None)"
  "map_of (rev (progress_updates res p)) ''complete_fired'' = (if complete_fired p then Some ''1'' else None)"
  "map_of (rev (progress_updates res p)) ''success_fired'' = (if success_fired p then Some ''1'' else None)"
  "map_of (rev (progress_updates res p)) ''pending'' =
     (if res \<in> {''success'', ''death'', ''invalidated''} then Some (string_of_int (pending p)) else None)"
  by (simp_all add: progress_updates_def map_add_def map_of_when del: rev.simps)

lemma kept_values:
  "bool_value v \<longrightarrow> c \<Longrightarrow> bool_value (case (if c then Some ''1'' else None) of None \<Rightarrow> v | Some y \<Rightarrow> Some y) = c"
  "number_or (if n = 0 then v else Some (string_of_int (number_or v 0 + n))) 0 = number_or v 0 + n"
  "number_or (if l = [] then v else Some (string_of_int (number_or v 0 + int (length l)))) 0 = number_or v 0 + int (length l)"
  by auto

definition recorded :: "(string \<Rightarrow> string option) \<Rightarrow> string set \<Rightarrow> string set \<Rightarrow> progress \<Rightarrow> outcome \<Rightarrow> abatch" where
  "recorded h M F p oc = \<lparr>ab_members = M, ab_failed = F,
     ab_successes = number_or (h ''successes'') 0 + successes_delta oc,
     ab_failures = number_or (h ''failures'') 0 + failures_delta oc, ab_dead = dead p, ab_invalidated = invalidated p,
     ab_death_fired = death_fired p, ab_complete = complete_fired p, ab_success_fired = success_fired p,
     ab_callbacks = number_or (h ''callbacks_pending'') 0 + int (length (callback_list oc))\<rparr>"

lemma aview_updated: "keeps_flags h p \<Longrightarrow> aview (updated res p oc h) M F = recorded h M F p oc"
  by (simp add: recorded_def aview_def updated_def counted_def keeps_flags_def map_add_def kept_values cong: if_cong split del: if_split)

lemma pending_updated:
  "updated res p oc h ''pending'' =
     (if res \<in> {''success'', ''death'', ''invalidated''} then Some (string_of_int (pending p)) else h ''pending'')"
  by (simp add: updated_def counted_def map_add_def)

definition batch_is :: "string \<Rightarrow> string \<Rightarrow> string \<Rightarrow> string \<Rightarrow> string \<Rightarrow> abatch \<Rightarrow> db \<Rightarrow> bool" where
  "batch_is bk pk jk fk meta b d \<longleftrightarrow>
     (\<exists>h M F. shape bk pk jk fk meta h M F d \<and> h ''pending'' = Some (string_of_int (int (card M))) \<and> aview h M F = b)"

lemma batch_isI:
  "shape bk pk jk fk meta h M F d \<Longrightarrow> h ''pending'' = Some (string_of_int (int (card M))) \<Longrightarrow> aview h M F = b \<Longrightarrow>
   batch_is bk pk jk fk meta b d"
  unfolding batch_is_def by blast

lemma rets_finish:
  assumes d: "shape bk pk jk fk meta h M F d" "batch_keys [bk, pk, jk, fk, dk, ck, qk] (ARGV ! 4)"
    and md: "cj_decode cj meta = Some (JObj ms)" "memo \<in> {None, Some (JObj ms)}"
    and p: "keeps_flags h p" "pending p = int (card M')" "finite M'" "M' = (if gone then M - {ARGV ! 0} else M)"
    and written: "ARGV ! 1 \<notin> {''success'', ''death'', ''invalidated''} \<longrightarrow> h ''pending'' = Some (string_of_int (pending p))"
    and F': "F' = (if add_failed_job oc then insert (ARGV ! 0) F else F)"
  shows "rets (\<lambda>_. batch_is bk pk jk fk meta (finish (configured ms) (recorded h M' F' p oc)))
    (fire_complete cj bk memo p oc (write_member cj [bk, pk, jk, fk, dk, ck, qk] ARGV dr gone)) d"
proof (rule rets_fire_complete [OF d(1) md])
  show "0 \<le> pending p"
    using p(2) by simp
next
  fix memo' and cbs :: "(string \<times> json option) list"
  assume memo': "memo' \<in> {None, Some (JObj ms)}" and now: "pending p = 0" "\<not> complete_fired p"
    and n: "length cbs = (if configured ms ''on_complete'' then 1 else 0) + (if wants_success ms p then 1 else 0)"
  let ?p = "p\<lparr>complete_fired := True, success_fired := success_fired p \<or> wants_success ms p\<rparr>"
  let ?oc = "oc\<lparr>callback_list := callback_list oc @ cbs\<rparr>"
  have flags: "keeps_flags h ?p" and M': "M' = {}"
    using p now by (auto simp: keeps_flags_def)
  have "recorded h M' F' ?p ?oc = finish (configured ms) (recorded h M' F' p oc)"
    using now n M' by (auto simp: recorded_def finish_def wants_success_def Let_def)
  then show "rets (\<lambda>_. batch_is bk pk jk fk meta (finish (configured ms) (recorded h M' F' p oc)))
      (write_member cj [bk, pk, jk, fk, dk, ck, qk] ARGV dr gone memo' ?p ?oc) d"
    using written now p(2) unfolding F' p(4)
    by (intro rets_write_member [OF d md(1) memo'], elim batch_isI) (auto simp: aview_updated [OF flags] pending_updated)
next
  assume "pending p \<noteq> 0 \<or> complete_fired p"
  then have "recorded h M' F' p oc = finish (configured ms) (recorded h M' F' p oc)"
    using p(2) by (auto simp: recorded_def finish_def)
  then show "rets (\<lambda>_. batch_is bk pk jk fk meta (finish (configured ms) (recorded h M' F' p oc)))
      (write_member cj [bk, pk, jk, fk, dk, ck, qk] ARGV dr gone memo p oc) d"
    using written p(2) unfolding F' p(4)
    by (intro rets_write_member [OF d md], elim batch_isI) (auto simp: aview_updated [OF p(1)] pending_updated)
qed

lemma finite_shape: "shape bk pk jk fk meta h M F d \<Longrightarrow> finite M"
  by (auto simp: shape_def)

lemma rets_complete_member:
  assumes d: "shape bk pk jk fk meta h M F d" "batch_keys [bk, pk, jk, fk, dk, ck, qk] qp" "cj_decode cj meta = Some (JObj ms)"
    and h: "h ''pending'' = Some (string_of_int (int (card M)))" and job: "job \<in> M" "res \<noteq> ResultEmptySuccess"
    and p: "pending p = int (card M)" "dead p = bool_value (h ''dead'')" "invalidated p = bool_value (h ''invalidated'')"
      "death_fired p = bool_value (h ''death_fired'')" "complete_fired p = bool_value (h ''complete_fired'')"
      "success_fired p = bool_value (h ''success_fired'')"
  shows "rets (\<lambda>_. batch_is bk pk jk fk meta (areport (configured ms) job res (aview h M F)))
    (complete_member cj [bk, pk, jk, fk, dk, ck, qk] [job, Result_string res, retry, now, qp] dr (Result_string res \<noteq> ''failure'') None p) d"
proof -
  let ?ARGV = "[job, Result_string res, retry, now, qp]"
  let ?KEYS = "[bk, pk, jk, fk, dk, ck, qk]"
  note fin = finite_shape [OF d(1)]
  have less: "int (card M) - 1 = int (card (M - {job}))"
    using fin job(1) by (simp add: card_Diff_singleton of_nat_diff card_gt_0_iff Suc_leI) (metis One_nat_def Suc_leI card_gt_0_iff empty_iff of_nat_diff of_nat_1)
  have finished: "rets (\<lambda>_. batch_is bk pk jk fk meta (areport (configured ms) job res (aview h M F)))
      (fire_complete cj bk memo q oc (write_member cj ?KEYS ?ARGV dr gone)) d"
    if "memo \<in> {None, Some (JObj ms)}" "keeps_flags h q" "pending q = int (card (if gone then M - {job} else M))"
      "gone \<longrightarrow> res \<noteq> ResultFailure" "\<not> gone \<longrightarrow> res = ResultFailure"
      "areport (configured ms) job res (aview h M F) =
        finish (configured ms) (recorded h (if gone then M - {job} else M) (if add_failed_job oc then insert job F else F) q oc)"
    for memo q oc gone
  proof -
    have gone: "Result_string res \<in> {''success'', ''death'', ''invalidated''} \<or> \<not> gone"
      using that(4) job(2) by (cases res) auto
    show ?thesis
      unfolding that(6) by (rule rets_finish [OF d(1)]) (use gone d(2,3) that(1-3) h fin in auto)
  qed
  note start = complete_member_parts apply_result_def nth_Cons_0 nth_Cons_Suc One_nat_def numeral_3_eq_3
  note views = areport_def leave_def fail_def bury_def aview_def recorded_def no_outcome_def
  show ?thesis
  proof (cases res)
    case ResultSuccess
    have "rets (\<lambda>_. batch_is bk pk jk fk meta (areport (configured ms) job res (aview h M F)))
      (fire_complete cj bk None (p\<lparr>pending := pending p - 1\<rparr>) (no_outcome\<lparr>successes_delta := 1\<rparr>) (write_member cj ?KEYS ?ARGV dr True)) d"
      by (rule finished) (use ResultSuccess job p less in \<open>simp_all add: keeps_flags_def views del: card_Diff_insert\<close>)
    with ResultSuccess show ?thesis
      by (simp add: start)
  next
    case ResultInvalidated
    have "rets (\<lambda>_. batch_is bk pk jk fk meta (areport (configured ms) job res (aview h M F)))
      (fire_complete cj bk None (p\<lparr>pending := pending p - 1, invalidated := True\<rparr>) no_outcome (write_member cj ?KEYS ?ARGV dr True)) d"
      by (rule finished) (use ResultInvalidated job p less in \<open>simp_all add: keeps_flags_def views del: card_Diff_insert\<close>)
    with ResultInvalidated show ?thesis
      by (simp add: start)
  next
    case ResultFailure
    have "rets (\<lambda>_. batch_is bk pk jk fk meta (areport (configured ms) job res (aview h M F)))
      (fire_complete cj bk None p (no_outcome\<lparr>failures_delta := if job \<notin> F then 1 else 0, add_failed_job := job \<notin> F\<rparr>)
        (write_member cj ?KEYS ?ARGV dr False)) d"
      by (rule finished) (use ResultFailure job p in \<open>simp_all add: keeps_flags_def views del: card_Diff_insert\<close>)
    with ResultFailure show ?thesis
      by (simp add: start rets_check_failed [OF d(1)])
  next
    case ResultDeath
    let ?p = "p\<lparr>pending := pending p - 1\<rparr>"
    let ?oc = "no_outcome\<lparr>failures_delta := if job \<notin> F then 1 else 0, add_failed_job := job \<notin> F\<rparr>"
    have "rets (\<lambda>_. batch_is bk pk jk fk meta (areport (configured ms) job res (aview h M F)))
      (fire_death cj bk None ?p ?oc (\<lambda>memo p oc. fire_complete cj bk memo p oc (write_member cj ?KEYS ?ARGV dr True))) d"
    proof (rule rets_fire_death [OF d(1,3)])
      assume "invalidated ?p"
      then show "rets (\<lambda>_. batch_is bk pk jk fk meta (areport (configured ms) job res (aview h M F)))
        (fire_complete cj bk None ?p ?oc (write_member cj ?KEYS ?ARGV dr True)) d"
        by (intro finished) (use ResultDeath job p less in \<open>simp_all add: keeps_flags_def views del: card_Diff_insert\<close>)
    next
      fix memo' and cbs :: "(string \<times> json option) list"
      assume "memo' \<in> {None, Some (JObj ms)}" "\<not> invalidated ?p"
        "length cbs = (if \<not> death_fired ?p \<and> configured ms ''on_death'' then 1 else 0)"
      then show "rets (\<lambda>_. batch_is bk pk jk fk meta (areport (configured ms) job res (aview h M F)))
        (fire_complete cj bk memo' (?p\<lparr>dead := True, death_fired := death_fired ?p \<or> configured ms ''on_death''\<rparr>)
          (?oc\<lparr>add_dead_batch := True, callback_list := callback_list ?oc @ cbs\<rparr>) (write_member cj ?KEYS ?ARGV dr True)) d"
        by (intro finished) (use ResultDeath job p less in \<open>auto simp: keeps_flags_def views simp del: card_Diff_insert\<close>)
    qed simp
    with ResultDeath show ?thesis
      by (simp add: start rets_check_failed [OF d(1)])
  qed (use job in simp)
qed

lemma aview_fields [simp]:
  "ab_members (aview h M F) = M" "ab_complete (aview h M F) = bool_value (h ''complete_fired'')"
  by (simp_all add: aview_def)

lemma rets_read: "exec c d = (r, d) \<Longrightarrow> \<forall>m. r \<noteq> RErr m \<Longrightarrow> rets R (LCall c f) d = rets R (f r) d"
  by (cases r) (simp_all add: rets_def)

lemma progress_count: "length progress_fields = 11"
  by (simp add: progress_fields_def)

lemma rets_batch_complete:
  assumes b: "batch_is bk pk jk fk meta b d" and keys: "batch_keys [bk, pk, jk, fk, dk, ck, qk] qp"
    and meta: "cj_decode cj meta = Some (JObj ms)" and res: "res \<noteq> ResultEmptySuccess"
  shows "rets (\<lambda>_. batch_is bk pk jk fk meta (areport (configured ms) job res b))
    (batch_complete cj [bk, pk, jk, fk, dk, ck, qk] [job, Result_string res, retry, now, qp]) d"
proof -
  obtain h M F where d: "shape bk pk jk fk meta h M F d" and h: "h ''pending'' = Some (string_of_int (int (card M)))"
    and b': "aview h M F = b"
    using b unfolding batch_is_def by blast
  let ?v = "\<lambda>i. if i < 11 then map_of (hsh d pk) (progress_fields ! i) else None"
  let ?p = "read_progress ?v (int (card M))"
  let ?KEYS = "[bk, pk, jk, fk, dk, ck, qk]" and ?ARGV = "[job, Result_string res, retry, now, qp]"
  have types: "rtype d bk = ''string''" "rtype d jk = ''none'' \<or> rtype d jk = ''set''" "rtype d pk = ''hash''"
    using d by (auto simp: shape_def rtype_def setty_def)
  have read: "exec (cHMGET pk progress_fields) d = (RArr (map (\<lambda>f. bulk (map_of (hsh d pk) f)) progress_fields), d)"
    "exec (cSCARD jk) d = (RInt (int (card M)), d)" "exec (cSISMEMBER jk job) d = (RInt (if job \<in> M then 1 else 0), d)"
    using d by (auto simp: shape_hash [OF d] shape_set [OF d] shape_def distinct_card [symmetric])
  have flags: "map_of (hsh d pk) f = h f" if "f \<noteq> ''callback_seq''" for f
    using d that by (simp add: shape_def)
  have p: "pending ?p = int (card M)" "dead ?p = bool_value (h ''dead'')" "invalidated ?p = bool_value (h ''invalidated'')"
    "death_fired ?p = bool_value (h ''death_fired'')" "complete_fired ?p = bool_value (h ''complete_fired'')"
    "success_fired ?p = bool_value (h ''success_fired'')"
    using h by (simp_all add: read_progress_def progress_fields_def flags)
  have "rets R (batch_complete cj ?KEYS ?ARGV) d = rets R (classify cj ?KEYS ?ARGV dr None ?p) d"
    if "dr = (case parse_int retry of Some i \<Rightarrow> i | None \<Rightarrow> 25)" for R dr
  proof -
    have "(\<lambda>i. case RArr (map (\<lambda>f. bulk (map_of (hsh d pk) f)) progress_fields) of
        RArr rs \<Rightarrow> if i < length rs then reply_opt (rs ! i) else None | _ \<Rightarrow> None) = ?v"
      by (simp add: fun_eq_iff reply_opt_def bulk_def progress_count split: option.split)
    then show ?thesis
      using types unfolding batch_complete_def with_batch_def want_def with_progress_type_def Let_def that
      by (auto simp: rets_read [OF exec.simps(1)] rets_read [OF read(1)] rets_read [OF read(2)] status_def)
  qed
  moreover have "rets (\<lambda>_. batch_is bk pk jk fk meta (areport (configured ms) job res b)) (classify cj ?KEYS ?ARGV dr None ?p) d" for dr
  proof (cases "job \<in> M")
    case True
    have "rets (\<lambda>_. batch_is bk pk jk fk meta (areport (configured ms) job res b))
      (complete_member cj ?KEYS ?ARGV dr (Result_string res \<noteq> ''failure'') None ?p) d"
      using rets_complete_member [OF d keys meta h True res p] b' by simp
    then show ?thesis
      using res True by (cases res) (simp_all add: classify_def rets_read [OF read(3)])
  next
    case False
    then have "areport (configured ms) job res b = b"
      by (simp add: areport_def flip: b')
    then show ?thesis
      using res False b by (cases res) (simp_all add: classify_def rets_read [OF read(3)] result_already_processed_def)
  qed
  ultimately show ?thesis
    by blast
qed

section \<open>What a batch promises\<close>

text \<open>The keys of a batch hold the abstract batch \<open>b\<close>; its document is an object with the members \<open>ms\<close>.\<close>

definition holds_batch :: "cjson \<Rightarrow> keys \<Rightarrow> string \<Rightarrow> (string \<times> json) list \<Rightarrow> abatch \<Rightarrow> db \<Rightarrow> bool" where
  "holds_batch cj k bid ms b d \<longleftrightarrow> (\<exists>meta. cj_decode cj meta = Some (JObj ms) \<and>
     batch_is (Batch k bid) (BatchProgress k bid) (BatchJobs k bid) (BatchFailed k bid) meta b d)"

definition report_script :: "cjson \<Rightarrow> keys \<Rightarrow> string \<Rightarrow> string \<times> Result \<times> int \<Rightarrow> lua" where
  "report_script cj k bid = (\<lambda>(job, res, now). batch_complete cj (CompletionKeys k bid) (CompletionArgs k job res now))"

lemma enum_free_report: "enum_free (report_script cj k bid x)"
  using safe_batch_complete [of "\<lambda>_. True" k cj bid] by (cases x) (auto simp: report_script_def safe_script_def)

lemma report_holds:
  assumes "holds_batch cj k bid ms b d" "res \<noteq> ResultEmptySuccess" "run_lua exec (report_script cj k bid (job, res, now)) d = (Inr r, d')"
  shows "holds_batch cj k bid ms (areport (configured ms) job res b) d'"
proof -
  have "rets (\<lambda>_. batch_is (Batch k bid) (BatchProgress k bid) (BatchJobs k bid) (BatchFailed k bid) meta (areport (configured ms) job res b))
      (report_script cj k bid (job, res, now)) d"
    if "cj_decode cj meta = Some (JObj ms)"
      "batch_is (Batch k bid) (BatchProgress k bid) (BatchJobs k bid) (BatchFailed k bid) meta b d" for meta
    using rets_batch_complete [OF that(2) completion_keys [unfolded CompletionKeys_def] that(1) assms(2)]
    by (simp add: report_script_def CompletionKeys_def CompletionArgs_def)
  then show ?thesis
    using assms(1,3) unfolding holds_batch_def rets_def by blast
qed

text \<open>
  C25: A batch changes by its abstract step.  When the script that reports a member's result returns,
  on any server whose keys hold a batch, the keys hold the batch after \<open>areport\<close>: a member that is not
  open any more changes nothing; otherwise it leaves (or, for a failure, stays), is counted once, and
  the last one to leave completes the batch.  The counter of pending members is the number of open
  members throughout.
\<close>

theorem batch_report_refined:
  assumes "redis_server call view" "holds_batch cj k bid ms b (view s)" "res \<noteq> ResultEmptySuccess"
    and "run_lua call (batch_complete cj (CompletionKeys k bid) (CompletionArgs k job res now)) s = (Inr r, s')"
  shows "holds_batch cj k bid ms (areport (configured ms) job res b) (view s')"
proof -
  have "run_lua exec (report_script cj k bid (job, res, now)) (view s) = (Inr r, view s')"
    using redis_server.run_lua_view [OF assms(1) enum_free_report [of cj k bid "(job, res, now)"]] assms(4)
    by (simp add: report_script_def)
  then show ?thesis
    by (rule report_holds [OF assms(2,3)])
qed

text \<open>The jobs with a report that ends their membership.\<close>

definition leavers :: "(string \<times> Result \<times> int) list \<Rightarrow> string set" where
  "leavers rs = set (map fst (filter (\<lambda>x. fst (snd x) \<noteq> ResultFailure) rs))"

lemma areport_members: "ab_members (areport on job res b) = (if res = ResultFailure then ab_members b else ab_members b - {job})"
  by (cases res) (auto simp: areport_def finish_def leave_def fail_def bury_def Let_def)

primrec run_all :: "lua list \<Rightarrow> db \<Rightarrow> db option" where
  "run_all [] d = Some d"
| "run_all (p # ps) d = (case run_lua exec p d of (Inr _, d') \<Rightarrow> run_all ps d' | _ \<Rightarrow> None)"

definition fresh_batch :: "string set \<Rightarrow> abatch" where
  "fresh_batch M = \<lparr>ab_members = M, ab_failed = {}, ab_successes = 0, ab_failures = 0, ab_dead = False, ab_invalidated = False,
     ab_death_fired = False, ab_complete = False, ab_success_fired = False, ab_callbacks = 0\<rparr>"

definition settled :: "(string \<Rightarrow> bool) \<Rightarrow> abatch \<Rightarrow> bool" where
  "settled on b \<longleftrightarrow> (ab_complete b \<longleftrightarrow> ab_members b = {}) \<and> (ab_death_fired b \<longleftrightarrow> ab_dead b \<and> on ''on_death'') \<and>
     (ab_success_fired b \<longleftrightarrow> ab_complete b \<and> \<not> ab_dead b \<and> \<not> ab_invalidated b \<and> on ''on_success'') \<and>
     ab_callbacks b = (if ab_death_fired b then 1 else 0) + (if ab_complete b \<and> on ''on_complete'' then 1 else 0) +
       (if ab_success_fired b then 1 else 0)"

definition running :: "(string \<Rightarrow> bool) \<Rightarrow> abatch \<Rightarrow> bool" where
  "running on b \<longleftrightarrow> \<not> ab_complete b \<and> \<not> ab_success_fired b \<and> (ab_death_fired b \<longleftrightarrow> ab_dead b \<and> on ''on_death'') \<and>
     ab_callbacks b = (if ab_death_fired b then 1 else 0)"

lemma running_steps:
  "running on b \<Longrightarrow> running on (leave job b)" "running on b \<Longrightarrow> running on (fail job b)"
  "running on b \<Longrightarrow> running on (b\<lparr>ab_successes := n\<rparr>)" "running on b \<Longrightarrow> running on (b\<lparr>ab_invalidated := True\<rparr>)"
  by (simp_all add: running_def leave_def fail_def)

lemma running_bury: "running on b \<Longrightarrow> running on (bury on b)"
  by (auto simp: running_def bury_def)

lemma finish_settled: "running on b \<Longrightarrow> settled on (finish on b)"
  by (auto simp: running_def settled_def finish_def Let_def)

lemma areport_settled: "settled on b \<Longrightarrow> settled on (areport on job res b)"
proof (cases "job \<in> ab_members b")
  case True
  moreover assume "settled on b"
  ultimately have "running on b"
    by (auto simp: settled_def running_def)
  with True show ?thesis
    by (cases res) (simp_all add: areport_def finish_settled running_steps running_bury)
qed (simp add: areport_def)

lemma run_reports_holds:
  assumes "holds_batch cj k bid ms b d" "settled (configured ms) b" "\<forall>(job, res, now)\<in>set rs. res \<noteq> ResultEmptySuccess"
    and "run_all (map (report_script cj k bid) rs) d = Some d'"
  shows "\<exists>b'. holds_batch cj k bid ms b' d' \<and> settled (configured ms) b' \<and> ab_members b' = ab_members b - leavers rs"
  using assms
proof (induction rs arbitrary: b d)
  case (Cons x rs)
  obtain job res now where x: "x = (job, res, now)"
    by (cases x)
  obtain r d1 where run: "run_lua exec (report_script cj k bid x) d = (Inr r, d1)" "run_all (map (report_script cj k bid) rs) d1 = Some d'"
    using Cons.prems(4) by (auto split: prod.splits sum.splits)
  let ?b = "areport (configured ms) job res b"
  have "holds_batch cj k bid ms ?b d1" "settled (configured ms) ?b"
    using report_holds Cons.prems(1-3) run(1) x areport_settled by auto
  from Cons.IH [OF this _ run(2)] obtain b' where "holds_batch cj k bid ms b' d'" "settled (configured ms) b'"
    "ab_members b' = ab_members ?b - leavers rs"
    using Cons.prems(3) by auto
  moreover have "leavers (x # rs) = (if res = ResultFailure then {} else {job}) \<union> leavers rs"
    by (auto simp: leavers_def x)
  ultimately show ?case
    by (auto simp: areport_members)
qed (auto simp: leavers_def)


section \<open>Examples\<close>

definition plain_cjson :: cjson where
  "plain_cjson = \<lparr>cj_decode = (\<lambda>_. Some (JObj [])), cj_encode = (\<lambda>_. Some ''{}''), cj_number = (\<lambda>s. s)\<rparr>"

definition demo_keys :: keys where
  "demo_keys = \<lparr>namespace = ''s''\<rparr>"

definition demo_batch :: db where
  "demo_batch = put (Batch demo_keys ''b'') (VStr ''{}'')
     (put (BatchProgress demo_keys ''b'') (VHash [(''id'', ''b''), (''pending'', ''2'')])
       (put (BatchJobs demo_keys ''b'') (VSet [''x'', ''y'']) empty_db))"

lemma demo_holds: "holds_batch plain_cjson demo_keys ''b'' [] (fresh_batch {''x'', ''y''}) demo_batch"
  unfolding holds_batch_def
proof (intro exI conjI)
  show "cj_decode plain_cjson ''{}'' = Some (JObj [])"
    by (simp add: plain_cjson_def)
  have keys: "distinct [Batch demo_keys ''b'', BatchProgress demo_keys ''b'', BatchJobs demo_keys ''b'', BatchFailed demo_keys ''b'']"
    by code_simp
  show "batch_is (Batch demo_keys ''b'') (BatchProgress demo_keys ''b'') (BatchJobs demo_keys ''b'') (BatchFailed demo_keys ''b'') ''{}''
      (fresh_batch {''x'', ''y''}) demo_batch"
  proof (rule batch_isI)
    show "shape (Batch demo_keys ''b'') (BatchProgress demo_keys ''b'') (BatchJobs demo_keys ''b'') (BatchFailed demo_keys ''b'') ''{}''
      (map_of [(''id'', ''b''), (''pending'', ''2'')]) {''x'', ''y''} {} demo_batch"
      using keys by (simp add: shape_def demo_batch_def redis_simps eq_commute) (auto simp: sts_def empty_db_def)
  qed (simp_all add: aview_def fresh_batch_def number_or_def bool_value_def string_of_int_def string_of_nat.simps digit_char_def)
qed

lemma demo_scripts:
  "report_script cj k bid (job, res, now) =
     batch_complete cj (CompletionKeys k bid) [job, Result_string res, ''25'', format_time now, Queue k []]"
proof -
  have "string_of_int DefaultRetryCount = ''25''"
    by code_simp
  then show ?thesis
    by (simp add: report_script_def CompletionArgs_def)
qed

theorem batch_report_refined_witness:
  "\<exists>r d'. run_lua exec (batch_complete plain_cjson (CompletionKeys demo_keys ''b'') (CompletionArgs demo_keys ''x'' ResultDeath 0)) demo_batch = (Inr r, d')
    \<and> holds_batch plain_cjson demo_keys ''b'' [] (areport (configured []) ''x'' ResultDeath (fresh_batch {''x'', ''y''})) d'"
proof -
  let ?run = "run_lua exec (batch_complete plain_cjson (CompletionKeys demo_keys ''b'') (CompletionArgs demo_keys ''x'' ResultDeath 0)) demo_batch"
  have "\<not> isl (fst (run_lua exec (batch_complete plain_cjson (CompletionKeys demo_keys ''b'') [''x'', ''death'', ''25'', t, Queue demo_keys []]) demo_batch))" for t
    by code_simp
  then have "\<not> isl (fst ?run)"
    using demo_scripts [of plain_cjson demo_keys "''b''" "''x''" ResultDeath 0] by (simp add: report_script_def)
  then obtain r d' where run: "?run = (Inr r, d')"
    by (cases ?run) (auto simp: isl_def, metis sum.exhaust)
  then show ?thesis
    using batch_report_refined [OF ref.redis_server_axioms demo_holds _ run] by blast
qed


text \<open>
  Adding jobs is not idempotent.  When the reply to \<^verbatim>\<open>batch_add_jobs.lua\<close> is lost and the request is
  sent again, the set of members gains the job once and the counter of pending members twice, so the
  counter stays above the number of open members and the batch does not complete.
\<close>

lemma resent_add_jobs_overcounts:
  "let p = batch_add_jobs plain_cjson [Batch demo_keys ''b'', BatchProgress demo_keys ''b'', BatchJobs demo_keys ''b''] [''1'', ''z'', Queue demo_keys ''q'', ''payload'']
   in map_option (\<lambda>d. (map_of (hsh d (BatchProgress demo_keys ''b'')) ''pending'', length (sts d (BatchJobs demo_keys ''b'')))) (run_all [p, p] demo_batch)
     = Some (Some ''4'', 3)"
  by code_simp

end
