(* ===== verification/Progress.thy ===== *)
theory Progress
  imports Worker QueueGuarantees
begin

text \<open>
  Work gets done: on a server that answers, one pass of the scheduler promotes every due job, waiting
  for a batch ends, and a queue is first in, first out.
\<close>

section \<open>The scheduler drains what is due\<close>

definition all_due :: "string \<Rightarrow> db \<Rightarrow> string list" where
  "all_due z d = map snd (filter (\<lambda>p. fst p \<le> clock_us d div 1000000) (zst d z))"

lemma due_take: "due z n d = take n (all_due z d)"
  by (simp add: due_def all_due_def take_map)

lemma filter_rest: "distinct (map snd xs) \<Longrightarrow> filter (\<lambda>e. snd e \<notin> set (take n (map snd xs))) xs = drop n xs"
proof (induction xs arbitrary: n)
  case (Cons x xs)
  then show ?case
  proof (cases n)
    case (Suc m)
    have "filter (\<lambda>e. snd e \<noteq> snd x \<and> snd e \<notin> set (take m (map snd xs))) xs = filter (\<lambda>e. snd e \<notin> set (take m (map snd xs))) xs"
      using Cons.prems by (intro filter_cong refl) (auto simp: image_iff)
    with Suc Cons show ?thesis
      by simp
  qed simp
qed simp

definition drainable :: "cjson \<Rightarrow> keys \<Rightarrow> string \<Rightarrow> db \<Rightarrow> bool" where
  "drainable cj k z d \<longleftrightarrow> zsetty d z \<and> setty d (Queues k) \<and> (\<forall>q. listy d (Queue k q)) \<and> distinct (map snd (zst d z)) \<and>
     (\<forall>p\<in>set (all_due z d). sched_target cj p \<noteq> None)"

lemma drain_pass:
  assumes "drainable cj k z d" "z = Scheduled k \<or> z = Retry k"
  shows "\<exists>d'. run_lua exec (enqueue_scheduled cj [z, Queues k] [string_of_int 100, Queue k []]) d =
      (Inr (RInt (int (length (take 100 (all_due z d))))), d') \<and> drainable cj k z d' \<and> all_due z d' = drop 100 (all_due z d) \<and>
    (\<forall>q. lst d' (Queue k q) = rev (filter (\<lambda>p. sched_target cj p = Some q) (take 100 (all_due z d))) @ lst d (Queue k q))"
proof -
  let ?D = "all_due z d"
  let ?run = "run_lua exec (enqueue_scheduled cj [z, Queues k] [string_of_int 100, Queue k []]) d"
  obtain d' where run: "?run = (Inr (RInt (int (length (filter (\<lambda>p. sched_target cj p \<noteq> None) (take 100 ?D))))), d')"
    and z: "zst d' z = filter (\<lambda>e. snd e \<notin> set (take 100 ?D)) (zst d z)"
    and q: "\<forall>q. lst d' (Queue k q) = rev (filter (\<lambda>p. sched_target cj p = Some q) (take 100 ?D)) @ lst d (Queue k q)"
    and types: "zsetty d' z" "setty d' (Queues k)" "\<forall>q. listy d' (Queue k q)"
    using promotion [OF assms(2), of 100 d cj] assms(1) unfolding drainable_def due_take by auto
  have clock: "clock_us d' = clock_us d"
    using run_lua_clock [of "enqueue_scheduled cj [z, Queues k] [string_of_int 100, Queue k []]" d] run by simp
  have all: "filter (\<lambda>p. sched_target cj p \<noteq> None) (take 100 ?D) = take 100 ?D"
    using assms(1) by (auto simp: drainable_def filter_id_conv dest: in_set_takeD)
  let ?due = "\<lambda>p. fst p \<le> clock_us d div 1000000"
  have "filter ?due (zst d' z) = filter (\<lambda>e. snd e \<notin> set (take 100 (map snd (filter ?due (zst d z))))) (filter ?due (zst d z))"
    unfolding z all_due_def by (simp add: conj_commute)
  also have "\<dots> = drop 100 (filter ?due (zst d z))"
    using assms(1) by (intro filter_rest) (auto simp: drainable_def distinct_map intro: inj_on_subset)
  finally have rest: "all_due z d' = drop 100 ?D"
    by (simp add: all_due_def clock drop_map)
  have "drainable cj k z d'"
    using assms(1) types rest z by (auto simp: drainable_def distinct_map dest: in_set_dropD intro: inj_on_subset)
  then show ?thesis
    using run q rest unfolding all by blast
qed

lemma enqueueFromZSet_drains:
  assumes "drainable cj k z d" "z = Scheduled k \<or> z = Retry k" "length (all_due z d) < n" "faults w = []"
  shows "\<exists>d'. run_go exec (enqueueFromZSet n cj k z cont) w l d = run_go exec (cont None) w l d' \<and> drainable cj k z d' \<and> all_due z d' = [] \<and>
    (\<forall>q. lst d' (Queue k q) = rev (filter (\<lambda>p. sched_target cj p = Some q) (all_due z d)) @ lst d (Queue k q))"
  using assms(1,3)
proof (induction n arbitrary: d)
  case (Suc n)
  have w: "w\<lparr>faults := []\<rparr> = w"
    using assms(4) by (cases w) simp
  obtain d1 where d1: "run_lua exec (enqueue_scheduled cj [z, Queues k] [string_of_int 100, Queue k []]) d =
      (Inr (RInt (int (length (take 100 (all_due z d))))), d1)" "drainable cj k z d1" "all_due z d1 = drop 100 (all_due z d)"
    "\<forall>q. lst d1 (Queue k q) = rev (filter (\<lambda>p. sched_target cj p = Some q) (take 100 (all_due z d))) @ lst d (Queue k q)"
    using drain_pass [OF Suc.prems(1) assms(2)] by blast
  show ?case
  proof (cases "all_due z d = []")
    case True
    then show ?thesis
      using d1 assms(4) by (intro exI [of _ d1]) (simp add: w go_result_def go_reply_def)
  next
    case False
    then have "length (all_due z d1) < n"
      using Suc.prems(2) d1(3) by (cases "all_due z d") auto
    from Suc.IH [OF d1(2) this] obtain d' where d':
      "run_go exec (enqueueFromZSet n cj k z cont) w l d1 = run_go exec (cont None) w l d'" "drainable cj k z d'" "all_due z d' = []"
      "\<forall>q. lst d' (Queue k q) = rev (filter (\<lambda>p. sched_target cj p = Some q) (all_due z d1)) @ lst d1 (Queue k q)"
      by blast
    have "rev (filter P (drop 100 xs)) @ rev (filter P (take 100 xs)) = rev (filter P xs)" for P and xs :: "string list"
      by (metis append_take_drop_id filter_append rev_append)
    then show ?thesis
      using d' d1 False assms(4) by (intro exI [of _ d']) (simp add: w min_def go_result_def go_reply_def flip: append_assoc)
  qed
qed simp

text \<open>
  C27: The scheduler does not leave due jobs behind.  When requests are answered, one call for the
  scheduled or the retry set ends after finitely many rounds of one hundred jobs, with no error; then
  no entry that was due remains, and every queue has received exactly the due jobs that name it, in
  order of their time.  As much fuel as there are due entries, and one more, is enough.
\<close>

theorem scheduler_drains:
  assumes "drainable cj k z d" "z = Scheduled k \<or> z = Retry k" "length (all_due z d) < n" "faults w = []"
  shows "\<exists>d'. run_go exec (enqueueFromZSet n cj k z (\<lambda>err. Done (if err = None then WDone else WRunning))) w l d = (WDone, w, l, d') \<and>
    all_due z d' = [] \<and>
    (\<forall>q. lst d' (Queue k q) = rev (filter (\<lambda>p. sched_target cj p = Some q) (all_due z d)) @ lst d (Queue k q))"
  using enqueueFromZSet_drains [OF assms, of "\<lambda>err. Done (if err = None then WDone else WRunning)" l] by auto

theorem scheduler_drains_witness:
  "\<exists>d'. run_go exec (enqueueFromZSet 2 std_cjson (keys_New []) (Retry (keys_New [])) (\<lambda>err. Done (if err = None then WDone else WRunning)))
     GoProg.quiet () (put (Retry (keys_New [])) (VZset [(-3, queued_payload ''q''), (8, ''later'')]) empty_db) = (WDone, GoProg.quiet, (), d')
   \<and> lst d' (Queue (keys_New []) ''q'') = [queued_payload ''q'']"
proof -
  let ?k = "keys_New []"
  let ?d = "put (Retry ?k) (VZset [(-3, queued_payload ''q''), (8, ''later'')]) empty_db"
  have due: "all_due (Retry ?k) ?d = [queued_payload ''q'']"
    by (simp add: all_due_def redis_simps empty_db_def)
  have "queued_payload ''q'' \<noteq> ''later''"
    by (simp add: queued_payload_def)
  then have "drainable std_cjson ?k (Retry ?k) ?d"
    using due by (auto simp: drainable_def redis_simps queued_payload_targets empty_views)
  from scheduler_drains [OF this _ _, of 2 GoProg.quiet "()"] show ?thesis
    using due by (auto simp: GoProg.quiet_def queued_payload_targets redis_simps empty_views)
qed

section \<open>Queues are first in, first out\<close>

text \<open>
  The interface of a store of queues: what adding to a queue and taking from it do to the abstract
  queues \<open>abs s\<close>, for elements that are \<open>ok\<close>, in states with \<open>inv\<close>.
\<close>

locale fifo =
  fixes inv :: "'s \<Rightarrow> bool" and abs :: "'s \<Rightarrow> 'q \<Rightarrow> 'a list" and ok :: "'a \<Rightarrow> bool"
    and enq :: "'q \<Rightarrow> 'a \<Rightarrow> 's \<Rightarrow> 's" and deq :: "'q \<Rightarrow> 'w \<Rightarrow> 's \<Rightarrow> 'a option \<times> 's"
  assumes enq: "inv s \<Longrightarrow> ok x \<Longrightarrow> inv (enq q x s) \<and> abs (enq q x s) = (abs s)(q := abs s q @ [x])"
    and deq_empty: "inv s \<Longrightarrow> abs s q = [] \<Longrightarrow> deq q w s = (r, s') \<Longrightarrow> inv s' \<and> r = None \<and> abs s' = abs s"
    and deq_first: "inv s \<Longrightarrow> abs s q = x # xs \<Longrightarrow> deq q w s = (r, s') \<Longrightarrow> inv s' \<and> r = Some x \<and> abs s' = (abs s)(q := xs)"

datatype ('q, 'a, 'w) queue_op = Enq 'q 'a | Deq 'q 'w

text \<open>What the takers of a sequence of operations receive.\<close>

fun served :: "('q \<Rightarrow> 'a \<Rightarrow> 's \<Rightarrow> 's) \<Rightarrow> ('q \<Rightarrow> 'w \<Rightarrow> 's \<Rightarrow> 'a option \<times> 's) \<Rightarrow> ('q, 'a, 'w) queue_op list \<Rightarrow> 's \<Rightarrow> 'a option list" where
  "served enq deq [] s = []"
| "served enq deq (Enq q x # ops) s = served enq deq ops (enq q x s)"
| "served enq deq (Deq q w # ops) s = (case deq q w s of (r, s') \<Rightarrow> r # served enq deq ops s')"

definition abs_enq :: "'q \<Rightarrow> 'a \<Rightarrow> ('q \<Rightarrow> 'a list) \<Rightarrow> 'q \<Rightarrow> 'a list" where
  "abs_enq q x s = s(q := s q @ [x])"

definition abs_deq :: "'q \<Rightarrow> 'w \<Rightarrow> ('q \<Rightarrow> 'a list) \<Rightarrow> 'a option \<times> ('q \<Rightarrow> 'a list)" where
  "abs_deq q w s = (case s q of [] \<Rightarrow> (None, s) | x # xs \<Rightarrow> (Some x, s(q := xs)))"

context fifo
begin

lemma served_abs:
  assumes "inv s" "\<forall>q x. Enq q x \<in> set ops \<longrightarrow> ok x"
  shows "served enq deq ops s = served abs_enq abs_deq ops (abs s)"
  using assms
proof (induction ops arbitrary: s)
  case (Cons op ops)
  show ?case
  proof (cases op)
    case (Enq q x)
    have "inv (enq q x s)" "abs (enq q x s) = abs_enq q x (abs s)"
      using enq [of s x q] Cons.prems Enq by (auto simp: abs_enq_def)
    then show ?thesis
      using Cons.IH Cons.prems(2) Enq by simp
  next
    case (Deq q w)
    obtain r s' where "deq q w s = (r, s')"
      by fastforce
    then show ?thesis
      using Cons Deq deq_empty [of s q w r s'] deq_first [of s q _ _ w r s'] by (cases "abs s q") (auto simp: abs_deq_def)
  qed
qed simp

end

definition enqueue_to :: "keys \<Rightarrow> string \<Rightarrow> string \<Rightarrow> db \<Rightarrow> db" where
  "enqueue_to k q p d = snd (run_lua exec (enqueue_now [Queues k, Queue k q] [q, p]) d)"

definition fetch_from :: "cjson \<Rightarrow> keys \<Rightarrow> string \<Rightarrow> string \<Rightarrow> db \<Rightarrow> string option \<times> db" where
  "fetch_from cj k q w d = (case run_lua exec (fetch_job cj [Queue k q, InFlight k w] [Finalization k []]) d of
     (Inr (RArr [RBulk tag, RBulk p]), d') \<Rightarrow> (if tag = ''job'' then Some p else None, d') | (_, d') \<Rightarrow> (None, d'))"

text \<open>A payload without a finalization record, which a fetch hands out unchanged.\<close>

definition unfinalized :: "cjson \<Rightarrow> string \<Rightarrow> bool" where
  "unfinalized cj p \<longleftrightarrow> (\<forall>job. cj_decode cj p = Some job \<longrightarrow> table_field job ''finalization'' = None)"

definition queues_ok :: "cjson \<Rightarrow> keys \<Rightarrow> db \<Rightarrow> bool" where
  "queues_ok cj k d \<longleftrightarrow> setty d (Queues k) \<and> (\<forall>q. listy d (Queue k q) \<and> (\<forall>p\<in>set (lst d (Queue k q)). unfinalized cj p)) \<and>
     (\<forall>w. listy d (InFlight k w))"

lemma enqueue_to_fifo:
  assumes "queues_ok cj k d" "unfinalized cj p"
  shows "queues_ok cj k (enqueue_to k q p d) \<and>
    (\<lambda>q'. rev (lst (enqueue_to k q p d) (Queue k q'))) = (\<lambda>q'. rev (lst d (Queue k q')))(q := rev (lst d (Queue k q)) @ [p])"
proof -
  have "enqueue_to k q p d = push_target (Queues k) (Queue k []) (q, p) d"
    using run_enqueue_now [of d "Queues k" "Queue k []" q p] assms(1) by (simp add: enqueue_to_def queues_ok_def)
  then show ?thesis
    using assms by (auto simp: queues_ok_def push_target_def Let_def redis_simps fun_eq_iff)
qed

lemma fetch_from_empty: "queues_ok cj k d \<Longrightarrow> lst d (Queue k q) = [] \<Longrightarrow> fetch_from cj k q w d = (None, d)"
  using run_fetch_job_empty [of d "Queue k q" "InFlight k w" cj "Finalization k []"] by (simp add: fetch_from_def queues_ok_def)

lemma fetch_from_first:
  assumes "queues_ok cj k d" "lst d (Queue k q) = xs @ [p]"
  shows "fetch_from cj k q w d = (Some p, put (InFlight k w) (VList (p # lst d (InFlight k w))) (put (Queue k q) (VList xs) d))"
proof -
  have "p \<in> set (lst d (Queue k q))"
    using assms(2) by simp
  then have "unfinalized cj p"
    using assms(1) unfolding queues_ok_def by blast
  then have "stripped cj (Finalization k []) p d = Some p"
    by (auto simp: stripped_def unfinalized_def split: option.split)
  then show ?thesis
    using run_fetch_job [of d "Queue k q" "InFlight k w" xs p cj "Finalization k []"] assms by (simp add: fetch_from_def queues_ok_def)
qed

interpretation rq: fifo "queues_ok cj k" "\<lambda>d q. rev (lst d (Queue k q))" "unfinalized cj" "enqueue_to k" "fetch_from cj k" for cj k
proof (unfold_locales, goal_cases)
  case (1 s x q)
  then show ?case
    using enqueue_to_fifo [of cj k s x q] by simp
next
  case (2 s q w r s')
  then show ?case
    using fetch_from_empty [of cj k s q w] by simp
next
  case (3 s q x xs w r s')
  then have "lst s (Queue k q) = rev xs @ [x]"
    by (metis rev.simps(2) rev_rev_ident)
  moreover from this have "unfinalized cj y" if "y \<in> set xs" for y
    using 3(1) that unfolding queues_ok_def by (metis Un_iff set_append set_rev)
  ultimately show ?case
    using 3 fetch_from_first [of cj k s q "rev xs" x w] by (auto simp: queues_ok_def redis_simps fun_eq_iff split: if_splits)
qed

text \<open>
  C28: Queues are first in, first out.  For any sequence of enqueues to any queues and fetches by any
  workers, of payloads without a finalization record, what the fetches return is what abstract queues
  return: each queue hands out its jobs in the order in which they were added, once each, and queues
  do not affect each other.
\<close>

theorem queues_first_in_first_out:
  assumes "queues_ok cj k d" "\<forall>q p. Enq q p \<in> set ops \<longrightarrow> unfinalized cj p"
  shows "served (enqueue_to k) (fetch_from cj k) ops d = served abs_enq abs_deq ops (\<lambda>q. rev (lst d (Queue k q)))"
  using assms by (rule rq.served_abs)

theorem queues_first_in_first_out_witness:
  "served (enqueue_to (keys_New [])) (fetch_from std_cjson (keys_New []))
     [Enq ''a'' ''1'', Enq ''b'' ''2'', Enq ''a'' ''3'', Deq ''a'' ''w'', Deq ''b'' ''w'', Deq ''a'' ''v'', Deq ''a'' ''w''] empty_db
   = [Some ''1'', Some ''2'', Some ''3'', None]"
proof -
  let ?ops = "[Enq ''a'' ''1'', Enq ''b'' ''2'', Enq ''a'' ''3'', Deq ''a'' ''w'', Deq ''b'' ''w'', Deq ''a'' ''v'', Deq ''a'' ''w'']"
  have "json_parse ''1'' = Some (JNum ''1'')" "json_parse ''2'' = Some (JNum ''2'')" "json_parse ''3'' = Some (JNum ''3'')"
    by code_simp+
  then have "unfinalized std_cjson p" if "p \<in> {''1'', ''2'', ''3''}" for p
    using that by (auto simp: unfinalized_def std_cjson_def table_field_def)
  then have ok: "\<forall>q p. Enq q p \<in> set ?ops \<longrightarrow> unfinalized std_cjson p" "queues_ok std_cjson (keys_New []) empty_db"
    by (auto simp: queues_ok_def empty_views)
  have "served abs_enq abs_deq ?ops (\<lambda>_. []) = [Some ''1'', Some ''2'', Some ''3'', None]"
    by (simp add: abs_enq_def abs_deq_def)
  then show ?thesis
    using queues_first_in_first_out [OF ok(2,1)] by (simp add: empty_views)
qed

section \<open>Waiting ends\<close>

lemma join_loop_result:
  "run_go call (join_loop n fl bs interval) w l s = (Some (bs', None), w', l', s') \<Longrightarrow> Complete bs'"
proof (induction n arbitrary: bs w l s)
  case (Suc n)
  then show ?case
    by (auto simp: run_go_bind split: if_splits prod.splits)
qed simp

text \<open>
  C29: Waiting for a batch ends, and says the truth.  \<^verbatim>\<open>Join\<close> returns once the context ends at the
  latest, whatever the server answers in between: with more fuel than the environment has timer ticks
  the loop never runs out of fuel.  When it returns without an error, the batch it read is complete.
\<close>

theorem join_terminates:
  assumes "length (waits w) < n"
  shows "\<exists>bs' err w' l' s'. run_go call (join n fl bs interval) w l s = (Some (bs', err), w', l', s') \<and> (err = None \<longrightarrow> Complete bs')"
proof -
  let ?run = "run_go call (join n fl bs interval) w l s"
  obtain r w' l' s' where run: "?run = (r, w', l', s')"
    by (metis surj_pair)
  have "r \<noteq> None"
    using join_returns [OF assms, of call fl bs _ l s] run unfolding join_def by (metis fst_conv)
  then obtain bs' err where r: "r = Some (bs', err)"
    by (cases r) auto
  have "Complete bs'" if "err = None"
    using run unfolding join_def r that by (rule join_loop_result)
  with run r show ?thesis
    by blast
qed

theorem join_terminates_witness:
  "\<exists>bs' err w' l' s'. run_go exec (join 3 (\<lambda>_. None) (NewBatchStatus [] ''b'') 0) (GoProg.quiet\<lparr>waits := [True, True]\<rparr>) () empty_db =
     (Some (bs', err), w', l', s') \<and> (err = None \<longrightarrow> Complete bs')"
  by (rule join_terminates) (simp add: GoProg.quiet_def)

end
