(* ===== verification/IterationGuarantees.thy ===== *)
theory IterationGuarantees
  imports Iterable GoProg
begin

text \<open>
  What iterable jobs promise: the iterators of \<^verbatim>\<open>iterable.go\<close> resume at the cursor they gave out, so a
  job that is interrupted between items sees every item once and in order; and a checkpoint that was
  saved is read back as it was.
\<close>

section \<open>Resuming an iterator\<close>

text \<open>One step of an iterator that does not use the server.\<close>

definition step_of :: "('i, 'item, 'l) Iterator \<Rightarrow> 'i \<Rightarrow> 'i \<times> bool" where
  "step_of ops it = (case it_Next ops it of Done r \<Rightarrow> r | _ \<Rightarrow> (it, False))"

text \<open>A run: at most \<open>n\<close> items, and the iterator after the last of them.\<close>

primrec run_items :: "('i, 'item, 'l) Iterator \<Rightarrow> nat \<Rightarrow> 'i \<Rightarrow> 'item list \<times> 'i" where
  "run_items ops 0 it = ([], it)"
| "run_items ops (Suc n) it = (case step_of ops it of (it', again) \<Rightarrow>
     if again then (case run_items ops n it' of (xs, it'') \<Rightarrow> (it_Item ops it' # xs, it'')) else ([], it))"

text \<open>Runs of the given lengths, each resumed from the cursor of the one before.\<close>

primrec resumed :: "('i, 'item, 'l) Iterator \<Rightarrow> (string \<Rightarrow> 'i) \<Rightarrow> nat list \<Rightarrow> 'i \<Rightarrow> 'item list" where
  "resumed ops build [] it = []"
| "resumed ops build (n # ns) it = (case run_items ops n it of (xs, it') \<Rightarrow>
     xs @ resumed ops build ns (if xs = [] then it else build (it_Cursor ops it')))"

text \<open>
  The contract of an iterator: \<open>left it\<close> are the items to come; a step takes the first; and what is
  built from the cursor of an iterator on an item has the items after it to come.
\<close>

locale resumable =
  fixes ops :: "('i, 'item, 'l) Iterator" and build :: "string \<Rightarrow> 'i" and ok :: "'i \<Rightarrow> bool" and left :: "'i \<Rightarrow> 'item list"
  assumes at_end: "ok it \<Longrightarrow> left it = [] \<Longrightarrow> \<not> snd (step_of ops it)"
    and advance: "ok it \<Longrightarrow> left it = x # xs \<Longrightarrow> step_of ops it = (it', again) \<Longrightarrow> again \<and> ok it' \<and> it_Item ops it' = x \<and> left it' = xs"
    and resume: "ok it \<Longrightarrow> left it = x # xs \<Longrightarrow> step_of ops it = (it', again) \<Longrightarrow> ok (build (it_Cursor ops it')) \<and> left (build (it_Cursor ops it')) = xs"
begin

lemma run_items_take:
  assumes "ok it" "run_items ops n it = (xs, it')"
  shows "xs = take n (left it) \<and> (xs \<noteq> [] \<longrightarrow> ok (build (it_Cursor ops it')) \<and> left (build (it_Cursor ops it')) = drop n (left it))"
  using assms
proof (induction n arbitrary: it xs it')
  case (Suc n)
  show ?case
  proof (cases "left it")
    case Nil
    then show ?thesis
      using Suc.prems at_end [of it] by (auto split: prod.splits if_splits)
  next
    case (Cons y ys)
    obtain it1 again where step: "step_of ops it = (it1, again)"
      by fastforce
    note adv = advance [OF Suc.prems(1) Cons step] and res = resume [OF Suc.prems(1) Cons step]
    obtain zs it2 where run: "run_items ops n it1 = (zs, it2)"
      by fastforce
    have "run_items ops (Suc n) it = (y # zs, it2)"
      using step adv run by simp
    moreover have "it2 = it1" if "zs = []"
      using run that by (cases n) (auto split: prod.splits if_splits)
    ultimately show ?thesis
      using Suc.IH [OF _ run] adv res Suc.prems(2) Cons by (cases "zs = []") (auto simp: take_eq_Nil)
  qed
qed simp

lemma resumed_take: "ok it \<Longrightarrow> resumed ops build ns it = take (sum_list ns) (left it)"
proof (induction ns arbitrary: it)
  case (Cons n ns)
  obtain xs it' where run: "run_items ops n it = (xs, it')"
    by fastforce
  note one = run_items_take [OF Cons.prems run]
  show ?case
  proof (cases "xs = []")
    case True
    then have "n = 0 \<or> left it = []"
      using one by (auto simp: take_eq_Nil)
    then show ?thesis
      using True run Cons.IH [OF Cons.prems] by auto
  next
    case False
    then show ?thesis
      using run one Cons.IH [of "build (it_Cursor ops it')"] by (simp add: take_add)
  qed
qed simp

end

section \<open>The iterators of the repository\<close>

lemma cursor_roundtrip: "in_i64 v \<Longrightarrow> CursorTo (CursorFrom v) = Inr v"
proof -
  assume v: "in_i64 v"
  have "json_print (JInt v) \<noteq> []"
    by (simp add: JInt_def)
  then show ?thesis
    using v by (simp add: CursorTo_def CursorFrom_def json_parse_print del: json_print.simps)
qed

definition cursor_or :: "int \<Rightarrow> string \<Rightarrow> int" where
  "cursor_or dflt c = (case CursorTo c of Inr v \<Rightarrow> v | Inl _ \<Rightarrow> dflt)"

lemma slice_parts:
  "step_of slice_ops it = (it\<lparr>si_index := si_index it + 1\<rparr>, si_index it + 1 < int (length (si_items it)))"
  "it_Item slice_ops it = si_items it ! nat (si_index it)" "it_Cursor slice_ops it = CursorFrom (si_index it + 1)"
  by (simp_all add: step_of_def slice_ops_def Let_def)

lemma slice_first:
  assumes "- 1 \<le> i" "drop (nat (i + 1)) items = x # xs"
  shows "i + 1 < int (length items)" "items ! nat (i + 1) = x" "drop (nat (i + 2)) items = xs"
proof -
  obtain n where i: "i = int n - 1"
    using assms(1) by (metis add.commute diff_add_cancel le_add_diff_inverse nonneg_int_cases uminus_add_conv_diff zle_iff_zadd)
  have "drop n items = x # xs"
    using assms(2) i by simp
  moreover have "n < length items"
    using calculation by (metis drop_eq_Nil linorder_not_le list.discI)
  moreover have "nat (int n + 1) = Suc n"
    by simp
  ultimately show "i + 1 < int (length items)" "items ! nat (i + 1) = x" "drop (nat (i + 2)) items = xs"
    using i by (simp_all add: add.commute) (metis hd_drop_conv_nth list.sel(1), metis Cons_nth_drop_Suc list.inject)
qed

interpretation slice: resumable slice_ops "\<lambda>c. SliceIterator items (cursor_or 0 c)"
  "\<lambda>it. si_items it = items \<and> - 1 \<le> si_index it \<and> int (length items) < 2 ^ 63" "\<lambda>it. drop (nat (si_index it + 1)) items" for items
proof (unfold_locales, goal_cases)
  case (1 it)
  then show ?case
    by (auto simp: slice_parts)
next
  case (2 it x xs it' again)
  then show ?case
    using slice_first [of "si_index it" items x xs] by (auto simp: slice_parts add.commute [of 2])
next
  case (3 it x xs it' again)
  note first = slice_first [of "si_index it" items x xs]
  have "cursor_or 0 (CursorFrom (si_index it + 2)) = si_index it + 2"
    using 3 first cursor_roundtrip [of "si_index it + 2"] by (auto simp: cursor_or_def in_i64_def)
  then show ?case
    using 3 first by (auto simp: slice_parts SliceIterator_def Let_def add.commute [of 2])
qed

function range_from :: "int \<Rightarrow> int \<Rightarrow> int \<Rightarrow> int list" where
  "range_from step end' a = (if 0 < step \<and> a < end' \<or> step < 0 \<and> end' < a then a # range_from step end' (a + step) else [])"
  by auto
termination
  by (relation "measure (\<lambda>(step, end', a). nat \<bar>end' - a\<bar> + (if (a < end') = (0 < step) then nat \<bar>step\<bar> else 0))") auto

declare range_from.simps [simp del]

lemma range_parts:
  "step_of range_ops it = (it\<lparr>ri_current := i64 (ri_current it + ri_step it)\<rparr>,
     if ri_step it > 0 then i64 (ri_current it + ri_step it) < ri_end it else i64 (ri_current it + ri_step it) > ri_end it)"
  "it_Item range_ops it = ri_current it" "it_Cursor range_ops it = CursorFrom (i64 (ri_current it + ri_step it))"
  by (simp_all add: step_of_def range_ops_def Let_def)

text \<open>The values between which no step leaves the 64-bit integers.\<close>

definition range_fits :: "int \<Rightarrow> int \<Rightarrow> bool" where
  "range_fits step end' \<longleftrightarrow> step \<noteq> 0 \<and> in_i64 step \<and> in_i64 end' \<and> in_i64 (end' + step)"

lemma range_first:
  assumes "range_from step end' a = x # xs" "range_fits step end'" "in_i64 a"
  shows "x = a" "if step > 0 then a < end' else a > end'" "xs = range_from step end' (a + step)" "in_i64 (a + step)"
proof -
  have cond: "0 < step \<and> a < end' \<or> step < 0 \<and> end' < a"
    using assms(1) by (subst (asm) range_from.simps) (auto split: if_splits)
  then show "x = a" "if step > 0 then a < end' else a > end'" "xs = range_from step end' (a + step)"
    using assms(1) by (subst (asm) range_from.simps, auto)+
  show "in_i64 (a + step)"
    using cond assms(2,3) by (auto simp: range_fits_def in_i64_def)
qed

lemma range_end:
  assumes "range_from step end' a = []" "step \<noteq> 0"
  shows "\<not> (if step > 0 then a < end' else a > end')"
  using assms by (subst (asm) range_from.simps) (auto split: if_splits)

interpretation range': resumable range_ops "\<lambda>c. RangeIterator (cursor_or 0 c) end' step"
  "\<lambda>it. ri_step it = step \<and> ri_end it = end' \<and> range_fits step end' \<and> in_i64 (ri_current it) \<and> in_i64 (ri_current it + step)"
  "\<lambda>it. range_from step end' (ri_current it + step)" for step end'
proof (unfold_locales, goal_cases)
  case (1 it)
  then show ?case
    using range_end [of step end' "ri_current it + step"] by (auto simp: range_parts range_fits_def i64_id)
next
  case (2 it x xs it' again)
  then show ?case
    using range_first [of step end' "ri_current it + step" x xs] by (auto simp: range_parts i64_id split: if_splits)
next
  case (3 it x xs it' again)
  let ?a = "ri_current it + step"
  note first = range_first [of step end' ?a x xs]
  have it': "it' = it\<lparr>ri_current := ?a\<rparr>" and a: "in_i64 (?a + step)" "xs = range_from step end' (?a + step)"
    using 3 first by (auto simp: range_parts i64_id)
  then have "cursor_or 0 (CursorFrom (i64 (ri_current it' + ri_step it'))) = ?a + step"
    using 3 cursor_roundtrip [of "?a + step"] by (simp add: cursor_or_def i64_id)
  moreover have "i64 (step + ri_current it) = step + ri_current it"
    using 3 by (intro i64_id) (simp add: add.commute)
  ultimately show ?case
    using 3 a by (simp add: range_parts RangeIterator_def Let_def range_fits_def i64_id ac_simps)
qed

text \<open>
  C30: An interrupted iteration over a slice skips and repeats nothing.  A job that runs over a slice
  from an offset, is interrupted after any number of items any number of times, and is built again
  from the cursor each time, processes the items from the offset on in order, each once, as far as
  the runs reach.
\<close>

theorem slice_resumes:
  assumes "int (length items) < 2 ^ 63"
  shows "resumed slice_ops (\<lambda>c. SliceIterator items (cursor_or 0 c)) runs (SliceIterator items offset) =
    take (sum_list runs) (drop (nat offset) items)"
  using slice.resumed_take [of "SliceIterator items offset" items runs] assms
  by (cases "offset < 0") (auto simp: SliceIterator_def Let_def)

theorem slice_resumes_witness:
  "resumed slice_ops (\<lambda>c. SliceIterator ''abcde'' (cursor_or 0 c)) [2, 0, 1, 9] (SliceIterator ''abcde'' 1) = ''bcde''"
  using slice_resumes [of "''abcde''" "[2, 0, 1, 9]" 1] by simp

text \<open>
  C31: The same holds for a numeric range: the numbers from the start, by the step, short of the end
  are processed in order, each once, whenever the end and one step beyond it are 64-bit integers.
\<close>

theorem range_resumes:
  assumes "step \<noteq> 0" "in_i64 step" "in_i64 end'" "in_i64 (end' + step)" "in_i64 start" "in_i64 (start - step)"
  shows "resumed range_ops (\<lambda>c. RangeIterator (cursor_or 0 c) end' step) runs (RangeIterator start end' step) =
    take (sum_list runs) (range_from step end' start)"
  using range'.resumed_take [of "RangeIterator start end' step" step end' runs] assms
  by (auto simp: RangeIterator_def Let_def range_fits_def i64_id)

theorem range_resumes_witness:
  "resumed range_ops (\<lambda>c. RangeIterator (cursor_or 0 c) 7 2) [1, 1, 5] (RangeIterator 1 7 2) = [1, 3, 5]"
proof -
  have "range_from 2 7 1 = [1, 3, 5]"
    by (simp add: range_from.simps)
  then show ?thesis
    using range_resumes [of 2 7 1 "[1, 1, 5]"] by (simp add: in_i64_def)
qed

text \<open>
  Without that bound the position wraps round: at the end of the 64-bit integers a step of two goes
  from the last value to a negative one, which is below the end again.
\<close>

lemma range_wraps:
  "step_of range_ops \<lparr>ri_current = 2 ^ 63 - 2, ri_end = 2 ^ 63 - 1, ri_step = 2\<rparr> =
     (\<lparr>ri_current = - (2 ^ 63), ri_end = 2 ^ 63 - 1, ri_step = 2\<rparr>, True)"
  by (simp add: range_parts i64_def)

section \<open>Checkpoints\<close>

definition checkpoint_ok :: "IterationState \<Rightarrow> bool" where
  "checkpoint_ok st \<longleftrightarrow> (is_Cursor st = [] \<or> (\<exists>v. json_ok v \<and> is_Cursor st = json_print v)) \<and>
     in_i64 (is_Executions st) \<and> in_i64 (is_TotalItems st) \<and> in_i64 (is_TotalTime st)"

lemma state_names [simp]:
  "fold_name ''cursor'' = ''cursor''" "fold_name ''executions'' = ''executions''" "fold_name ''total_items'' = ''total_items''"
  "fold_name ''total_time_ns'' = ''total_time_ns''" "fold_name ''started_at'' = ''started_at''"
  "fold_name ''last_run_at'' = ''last_run_at''" "fold_name ''cancelled'' = ''cancelled''"
  by code_simp+

lemma dec_state_fields:
  "dec_IterationState_field (''jid'', v) st = map_option (\<lambda>x. st\<lparr>is_JobID := x\<rparr>) (dec_str v (is_JobID st))"
  "dec_IterationState_field (''cursor'', v) st = Some (st\<lparr>is_Cursor := json_print v\<rparr>)"
  "dec_IterationState_field (''executions'', v) st = map_option (\<lambda>x. st\<lparr>is_Executions := x\<rparr>) (dec_int v (is_Executions st))"
  "dec_IterationState_field (''total_items'', v) st = map_option (\<lambda>x. st\<lparr>is_TotalItems := x\<rparr>) (dec_int v (is_TotalItems st))"
  "dec_IterationState_field (''total_time_ns'', v) st = map_option (\<lambda>x. st\<lparr>is_TotalTime := x\<rparr>) (dec_int v (is_TotalTime st))"
  "dec_IterationState_field (''started_at'', v) st = map_option (\<lambda>x. st\<lparr>is_StartedAt := x\<rparr>) (dec_time v (is_StartedAt st))"
  "dec_IterationState_field (''last_run_at'', v) st = map_option (\<lambda>x. st\<lparr>is_LastRunAt := x\<rparr>) (dec_time v (is_LastRunAt st))"
  "dec_IterationState_field (''cancelled'', v) st = map_option (\<lambda>x. st\<lparr>is_Cancelled := x\<rparr>) (dec_bool v (is_Cancelled st))"
  by (simp_all add: dec_IterationState_field_def)

lemma decode_state:
  assumes "IterationState_json st = Some j" "checkpoint_ok st"
  shows "json_ok j" "decode_IterationState (json_print j) = Some st"
proof -
  obtain cursor started last_run where parts: "fmt_time (is_StartedAt st) = Some started" "fmt_time (is_LastRunAt st) = Some last_run"
    "cursor = (if is_Cursor st = [] then [] else [(''cursor'', the (json_parse (is_Cursor st)))])"
    "j = JObj ([(''jid'', JStr (is_JobID st))] @ cursor @
       [(''executions'', JInt (is_Executions st)), (''total_items'', JInt (is_TotalItems st)),
        (''total_time_ns'', JInt (is_TotalTime st)), (''started_at'', JStr started), (''last_run_at'', JStr last_run)] @
       (if is_Cancelled st then [(''cancelled'', JBool True)] else []))"
    using assms(1) unfolding IterationState_json_def by (auto split: option.splits if_splits)
  have cursor: "is_Cursor st = [] \<and> cursor = [] \<or> (\<exists>v. json_ok v \<and> is_Cursor st = json_print v \<and> cursor = [(''cursor'', v)])"
    using assms(2) parts(3) by (auto simp: checkpoint_ok_def json_parse_print)
  then show ok: "json_ok j"
    unfolding parts(4) by auto
  show "decode_IterationState (json_print j) = Some st"
    unfolding decode_IterationState_def json_parse_print [OF ok] using cursor assms(2) parts(1,2) unfolding parts(4)
    by (cases st) (auto simp: dec_state_fields zero_IterationState_def checkpoint_ok_def)
qed

lemma run_set_ttl: "\<exists>e. exec (set_ttl key v ttl) d = (RStatus ''OK'', set_str key v e d)"
proof -
  have "0 < ttl div Second" if "\<not> ttl < Second"
    using that by (simp add: pos_imp_zdiv_pos_iff Second_def)
  then show ?thesis
    by (auto simp: set_ttl_def not_le)
qed



end
