(* ===== verification/ClientGuarantees.thy ===== *)
theory ClientGuarantees
  imports Client QueueGuarantees Registry
begin

text \<open>
  What a caller of the client can rely on.

  \<^item> A job that \<^verbatim>\<open>Enqueue\<close> or \<^verbatim>\<open>EnqueueBulk\<close> reports as accepted is stored in its queue or in the
    schedule, whatever happened to the requests on the way; \<open>lands\<close> is that condition.
  \<^item> Encrypted arguments reach the handler as the caller gave them.
\<close>

section \<open>Accepted requests\<close>

text \<open>An answer without an error is the answer of the last delivery.\<close>

lemma request_answered:
  assumes "request f conv ft s = (Inr r, s')"
  obtains s0 x where "f s0 = (x, s')" "conv x = Inr r"
proof (cases "reached ft")
  case (Suc n)
  obtain x t where "f (snd (times_run f n s)) = (x, t)"
    by fastforce
  then show ?thesis
    using assms that Suc by (auto simp: request_def split: if_splits)
qed (use assms in \<open>simp add: request_def\<close>)

lemma go_reply_Inr: "go_reply x = Inr r \<Longrightarrow> x = r"
  by (cases x) (auto simp: go_reply_def)

lemma answered_script:
  assumes "request (run_lua exec p) go_result ft s = (Inr r, s')"
  obtains s0 where "run_lua exec p s0 = (Inr r, s')"
proof (rule request_answered [OF assms])
  fix s0 x
  assume "run_lua exec p s0 = (x, s')" "go_result x = Inr r"
  then show thesis
    using that go_reply_Inr by (cases x) (auto simp: go_result_def)
qed

lemma answered_cmd:
  assumes "request (exec c) go_reply ft s = (Inr r, s')"
  obtains s0 where "exec c s0 = (r, s')" "go_reply r = Inr r"
proof (rule request_answered [OF assms])
  fix s0 x
  assume "exec c s0 = (x, s')" "go_reply x = Inr r"
  then show thesis
    using that go_reply_Inr by blast
qed

definition lands :: "keys \<Rightarrow> string \<Rightarrow> int option \<Rightarrow> string \<Rightarrow> db \<Rightarrow> bool" where
  "lands k q score p d \<longleftrightarrow> (case score of
     None \<Rightarrow> p \<in> set (lst d (Queue k q)) | Some t \<Rightarrow> (t, p) \<in> set (zst d (Scheduled k)))"

lemma zadds_same_score: "(t, p) \<in> set z \<or> p \<in> set ps \<Longrightarrow> (t, p) \<in> set (foldl zadd1 z (map (Pair t) ps))"
  by (induction ps arbitrary: z) (auto simp: zadd1_def set_insort_key)

lemma zadds_keep: "(t, p) \<in> set z \<Longrightarrow> foldl zadd1 z (map (Pair t) ps) \<noteq> []"
  using zadds_same_score [of t p z ps] by auto

lemma lands_keeps:
  "preserves (exec (cSADD (Queues k) vs)) (lands k q score p)"
  "preserves (exec (cLPUSH (Queue k q') vs)) (lands k q score p)"
  "preserves (exec (cZADD (Scheduled k) (map (Pair t) ps))) (lands k q (Some t) p)"
  by (auto simp: preserves_def lands_def with_set_def with_list_def with_zset_def redis_simps zadds_same_score dest: zadds_keep
      split: option.splits rval.splits) (auto simp: lst_def zst_def zadds_same_score)

lemma enqueue_now_lands:
  assumes "run_lua exec (enqueue_now [Queues k, Queue k q] [q, p]) d = (Inr r, d')"
  shows "lands k q None p d'"
proof -
  have "setty d (Queues k) \<and> listy d (Queue k q)"
    using assms by (auto simp: enqueue_now_def setty_def listy_def split: if_splits)
  then show ?thesis
    using assms run_enqueue_now [of d "Queues k" "Queue k []" q p] by (auto simp: lands_def push_target_def Let_def redis_simps)
qed

lemma uniqueTTLMillis_pos: "0 < uniqueTTLMillis ttl"
  by (simp add: uniqueTTLMillis_def Let_def)

lemma unique_now_lands:
  assumes "run_lua exec (enqueue_unique_now [Unique k u, Queues k, Queue k q] [jid, string_of_int (uniqueTTLMillis ttl), q, p]) d = (Inr r, d')"
    and "script_Int r = Inr n" "n \<noteq> 0"
  shows "lands k q None p d'"
proof -
  have "stringy d (Unique k u)" "setty d (Queues k)" "listy d (Queue k q)"
    using assms by (auto simp: enqueue_unique_now_def run_unless_claimed setty_def listy_def script_Int_def split: if_splits)
  then show ?thesis
    using assms run_enqueue_unique_now [of d "Unique k u" "Queues k" "Queue k []" q "uniqueTTLMillis ttl" jid p] uniqueTTLMillis_pos [of ttl]
    by (auto simp: lands_def push_target_def Let_def redis_simps script_Int_def split: if_splits)
qed

lemma unique_at_lands:
  assumes "run_lua exec (enqueue_unique_at [Unique k u, Scheduled k] [jid, string_of_int (uniqueTTLMillis ttl), string_of_int t, p]) d = (Inr r, d')"
    and "script_Int r = Inr n" "n \<noteq> 0"
  shows "lands k q (Some t) p d'"
proof -
  have "stringy d (Unique k u)" "zsetty d (Scheduled k)"
    using assms by (auto simp: enqueue_unique_at_def run_unless_claimed zsetty_def script_Int_def split: if_splits)
  then show ?thesis
    using assms run_enqueue_unique_at [of d "Unique k u" "Scheduled k" "uniqueTTLMillis ttl" jid t p] uniqueTTLMillis_pos [of ttl]
    by (auto simp: lands_def redis_simps script_Int_def zadd1_def set_insort_key split: if_splits)
qed

section \<open>Single jobs\<close>

definition stored_as :: "client \<Rightarrow> int option \<Rightarrow> job \<Rightarrow> db \<Rightarrow> bool" where
  "stored_as c score job d \<longleftrightarrow> (\<exists>p. Marshal job = Some p \<and> lands (cl_keys c) (j_Queue job) score p d)"

lemma marshaled_Inr: "marshaled job = Inr p \<longleftrightarrow> Marshal job = Some p"
  by (auto simp: marshaled_def split: option.splits)

lemma claimed_Inr: "claimed what job r = Inr job' \<longleftrightarrow> job' = job \<and> (\<exists>n. script_Int r = Inr n \<and> n \<noteq> 0)"
  by (auto simp: claimed_def split: sum.splits)

text \<open>A program of one request whose errors it wraps.\<close>

lemma accepted_script:
  assumes "run_go exec (Eval p (\<lambda>r. case r of Inl e \<Rightarrow> Done (Inl (f e)) | Inr x \<Rightarrow> Done (g x))) w l d = (Inr y, w', l', d')"
  obtains x d0 where "run_lua exec p d0 = (Inr x, d')" "g x = Inr y"
  using assms by (auto split: prod.splits sum.splits elim!: answered_script)

lemma accepted_cmd:
  assumes "run_go exec (Cmd c (\<lambda>r. case r of Inl e \<Rightarrow> Done (Inl (f e)) | Inr x \<Rightarrow> Done (g x))) w l d = (Inr y, w', l', d')"
  obtains x d0 where "exec c d0 = (x, d')" "go_reply x = Inr x" "g x = Inr y"
  using assms by (auto split: prod.splits sum.splits elim!: answered_cmd simp del: exec.simps)

lemma enqueueNow_stored:
  assumes "run_go exec (enqueueNow c job) w l d = (Inr job', w', l', d')"
  shows "job' = job \<and> stored_as c None job d'"
proof -
  obtain p where p: "marshaled job = Inr p"
    using assms by (auto simp: enqueueNow_def split: sum.splits)
  show ?thesis
    by (rule accepted_script [OF assms [unfolded enqueueNow_def p sum.case]])
      (use p in \<open>auto simp: marshaled_Inr stored_as_def dest: enqueue_now_lands\<close>)
qed

lemma enqueueUniqueNow_stored:
  assumes "run_go exec (enqueueUniqueNow c job) w l d = (Inr job', w', l', d')"
  shows "job' = job \<and> stored_as c None job d'"
proof -
  obtain p where p: "marshaled job = Inr p"
    using assms by (auto simp: enqueueUniqueNow_def split: sum.splits)
  show ?thesis
    by (rule accepted_script [OF assms [unfolded enqueueUniqueNow_def p sum.case]])
      (use p in \<open>auto simp: marshaled_Inr claimed_Inr stored_as_def dest: unique_now_lands\<close>)
qed

lemma enqueueUniqueAt_stored:
  assumes "run_go exec (enqueueUniqueAt c t job) w l d = (Inr job', w', l', d')"
  shows "job' = job \<and> stored_as c (Some (Unix t)) job d'"
proof -
  obtain p where p: "marshaled job = Inr p"
    using assms by (auto simp: enqueueUniqueAt_def split: sum.splits)
  show ?thesis
    by (rule accepted_script [OF assms [unfolded enqueueUniqueAt_def p sum.case]])
      (use p in \<open>auto simp: marshaled_Inr claimed_Inr stored_as_def dest: unique_at_lands\<close>)
qed

lemma zadd_lands:
  assumes "exec (cZADD (Scheduled k) (map (Pair t) ps)) d = (r, d')" "go_reply r = Inr r" "p \<in> set ps"
  shows "lands k q (Some t) p d'"
  using assms zadds_same_score [of t p _ ps]
  by (auto simp: lands_def with_zset_def wrongtype_def go_reply_def redis_simps split: option.splits rval.splits)

lemma enqueueAt_stored:
  assumes "run_go exec (enqueueAt c t job) w l d = (Inr job', w', l', d')"
  shows "job' = job \<and> stored_as c (Some (Unix t)) job d'"
proof -
  obtain p where p: "marshaled job = Inr p"
    using assms by (auto simp: enqueueAt_def split: sum.splits)
  show ?thesis
    by (rule accepted_cmd [OF assms [unfolded enqueueAt_def p sum.case]])
      (use p zadd_lands [of "cl_keys c" "Unix t" "[p]"] in \<open>auto simp: marshaled_Inr stored_as_def simp del: exec.simps\<close>)
qed

lemma time_request: "request (exec cTIME) go_reply ft d =
    (if 0 < reached ft \<and> answered ft
     then Inr (RArr [RBulk (string_of_int (clock_us d div 1000000)), RBulk (string_of_int (clock_us d mod 1000000))])
     else Inl (NetErr (cause ft)), d)"
proof -
  have "times_run (exec cTIME) n d = (if n = 0 then None else Some (fst (exec cTIME d)), d)" for n
    by (induction n) simp_all
  then show ?thesis
    by (auto simp: request_def go_reply_def)
qed

lemma redisNow_cases:
  assumes "run_go exec (redisNow cont) w l d = (x, w', l', d')"
  obtains (error) e w1 where "run_go exec (cont (Inl e)) w1 l d = (x, w', l', d')"
  | (time) w1 where "run_go exec (cont (Inr (clock_us d * 1000))) w1 l d = (x, w', l', d')"
proof -
  have "clock_us d div 1000000 * 1000000000 + clock_us d mod 1000000 * 1000 = clock_us d * 1000"
    using div_mult_mod_eq [of "clock_us d" 1000000] by linarith
  then show thesis
    using assms that by (auto simp: redisNow_def time_request simp del: exec.simps split: if_splits)
qed

lemma enqueueIn_stored:
  assumes "run_go exec (enqueueIn c delay job) w l d = (Inr job', w', l', d')"
  shows "job' = job \<and> stored_as c (Some (Unix (clock_us d * 1000 + delay))) job d'"
  using assms unfolding enqueueIn_def by (rule redisNow_cases) (auto dest: enqueueAt_stored)

lemma enqueueUniqueIn_stored:
  assumes "run_go exec (enqueueUniqueIn c delay job) w l d = (Inr job', w', l', d')"
  shows "job' = job \<and> stored_as c (Some (Unix (clock_us d * 1000 + delay))) job d'"
  using assms unfolding enqueueUniqueIn_def by (rule redisNow_cases) (auto dest: enqueueUniqueAt_stored)

lemmas enqueued_stored = enqueueNow_stored enqueueAt_stored enqueueIn_stored
  enqueueUniqueNow_stored enqueueUniqueAt_stored enqueueUniqueIn_stored

text \<open>The score of a job in the schedule, if it goes there.\<close>

definition due_score :: "enqueueConfig \<Rightarrow> db \<Rightarrow> int option" where
  "due_score cfg d = (if ec_at cfg \<noteq> zero_time then Some (Unix (ec_at cfg))
     else if ec_delay cfg > 0 then Some (Unix (clock_us d * 1000 + ec_delay cfg)) else None)"

lemma dispatch_stored:
  assumes "run_go exec (dispatch_enqueue c cfg job) w l d = (Inr job', w', l', d')"
  shows "job' = job \<and> stored_as c (due_score cfg d) job d'"
  using assms by (auto simp: dispatch_enqueue_def due_score_def split: if_splits dest: enqueued_stored)

lemma encrypted_job_run:
  assumes "run_go call (encrypted_job c encrypt a job) w l s = (r, w', l', s')"
  shows "s' = s \<and> (\<forall>job'. r = Inr job' \<longrightarrow> j_Type job' = j_Type job \<and> j_Queue job' = j_Queue job)"
  using assms by (auto simp: encrypted_job_def split: option.splits if_splits sum.splits)

lemma Enqueue_stored:
  assumes "run_go exec (Enqueue c jobType a opts) w l d = (Inr job, w', l', d')"
  shows "j_Type job = jobType \<and> j_Queue job = ec_queue (configure c opts) \<and> stored_as c (due_score (configure c opts) d) job d'"
proof -
  obtain now uuid w1 where "run_go exec (go_bind (encrypted_job c (ec_encrypt (configure c opts)) a
        ((NewJob now uuid jobType a)\<lparr>j_Queue := ec_queue (configure c opts), j_Retry := ec_retry (configure c opts),
          j_BatchID := ec_batchID (configure c opts), j_UniqueKey := ec_uniqueKey (configure c opts),
          j_UniqueTTL := ec_uniqueTTL (configure c opts)\<rparr>))
      (\<lambda>r. case r of Inl e \<Rightarrow> Done (Inl e) | Inr job \<Rightarrow> dispatch_enqueue c (configure c opts) job)) w1 l d = (Inr job, w', l', d')"
    using assms by (auto simp: Enqueue_def Let_def split: option.splits if_splits)
  then show ?thesis
    by (auto simp: run_go_bind NewJob_def split: prod.splits sum.splits dest!: encrypted_job_run dispatch_stored)
qed

section \<open>Jobs in bulk\<close>

lemma lands_sound:
  "sound_cmd exec (lands k q score p) (cSADD (Queues k) vs)"
  "sound_cmd exec (lands k q score p) (cLPUSH (Queue k q') vs)"
  "sound_cmd exec (lands k q (Some t) p) (cZADD (Scheduled k) (map (Pair t) ps))"
  unfolding sound_cmd_def by (intro conjI allI impI lands_keeps ans_ok_reply; simp)+

lemma chunk_keeps:
  assumes "run_go exec (enqueueBulkChunk c jobs score) w l d = (x, w', l', d')" "stored_as c score job d"
  shows "stored_as c score job d'"
proof -
  obtain p where p: "Marshal job = Some p" "lands (cl_keys c) (j_Queue job) score p d"
    using assms(2) by (auto simp: stored_as_def)
  have "go_all (\<lambda>_. False) (sound_cmd exec (lands (cl_keys c) (j_Queue job) score p)) (enqueueBulkChunk c jobs score)"
    by (simp add: enqueueBulkChunk_def pipeline_def Let_def lands_sound split: sum.split option.split)
  from run_go_invariant [where I = "lands (cl_keys c) (j_Queue job) score p", OF this _ _ p(2) assms(1)] show ?thesis
    using p(1) by (simp add: stored_as_def)
qed

lemma lpush_lands:
  assumes "exec (cLPUSH (Queue k q) ps) d = (r, d')" "go_reply r = Inr r" "p \<in> set ps"
  shows "lands k q None p d'"
  using assms by (auto simp: lands_def with_list_def wrongtype_def go_reply_def redis_simps split: option.splits rval.splits)

lemma marshal_jobs_Inr: "marshal_jobs jobs = Inr ps \<Longrightarrow> job \<in> set jobs \<Longrightarrow> \<exists>p\<in>set ps. Marshal job = Some p"
  by (induction jobs arbitrary: ps) (auto simp: marshaled_Inr split: sum.splits)

lemma pipeline_last:
  assumes "run_go exec (pipeline [c1, c2]) w l d = (None, w', l', d')"
  obtains r d0 where "exec c2 d0 = (r, d')" "go_reply r = Inr r"
  using assms by (auto simp: pipeline_def split: prod.splits sum.splits elim!: answered_cmd simp del: exec.simps)

lemma chunk_stored:
  assumes run: "run_go exec (enqueueBulkChunk c jobs score) w l d = (None, w', l', d')"
    and q: "\<forall>job\<in>set jobs. j_Queue job = q" and job: "job \<in> set jobs"
  shows "stored_as c score job d'"
proof -
  obtain ps where ps: "marshal_jobs jobs = Inr ps"
    using run by (auto simp: enqueueBulkChunk_def split: sum.splits)
  then obtain p where p: "p \<in> set ps" "Marshal job = Some p"
    using marshal_jobs_Inr job by blast
  have "j_Queue (jobs ! 0) = q"
    using q job by (cases jobs) auto
  have "lands (cl_keys c) q score p d'"
  proof (cases score)
    case None
    then have "run_go exec (pipeline [cSADD (Queues (cl_keys c)) [q], cLPUSH (Queue (cl_keys c) q) ps]) w l d = (None, w', l', d')"
      using run ps \<open>j_Queue (jobs ! 0) = q\<close> by (simp add: enqueueBulkChunk_def)
    then show ?thesis
      using lpush_lands p(1) None by (auto elim!: pipeline_last simp del: exec.simps)
  next
    case (Some t)
    then show ?thesis
      using run ps zadd_lands [of "cl_keys c" t ps _ _ _ p] p(1)
      by (auto simp: enqueueBulkChunk_def split: prod.splits sum.splits elim!: answered_cmd simp del: exec.simps)
  qed
  then show ?thesis
    using p(2) q job by (auto simp: stored_as_def)
qed

lemma bulk_chunks_stored:
  assumes "run_go exec (bulk_chunks c jobType jobs chunk score start) w l d = ((js, err), w', l', d')"
    and "0 < chunk" "\<forall>job\<in>set jobs. j_Queue job = q" "\<forall>job\<in>set (take start jobs). stored_as c score job d"
  shows "(\<forall>job\<in>set js. stored_as c score job d') \<and> (case err of None \<Rightarrow> js = jobs | Some e \<Rightarrow>
     js = [] \<or> (\<exists>n e'. js = take n jobs \<and> n < length jobs \<and> e = BulkPartialError (int n) (int (length jobs)) e'))"
  using assms
proof (induction c jobType jobs chunk score start arbitrary: w l d rule: bulk_chunks.induct)
  case (1 c jobType jobs chunk score start)
  show ?case
  proof (cases "start < length jobs")
    case True
    let ?part = "take (min (start + chunk) (length jobs) - start) (drop start jobs)"
    obtain err1 w1 l1 d1 where chunk: "run_go exec (enqueueBulkChunk c ?part score) w l d = (err1, w1, l1, d1)"
      by (cases "run_go exec (enqueueBulkChunk c ?part score) w l d") auto
    have before: "\<forall>job\<in>set (take start jobs). stored_as c score job d1"
      using "1.prems"(4) chunk_keeps [OF chunk] by blast
    show ?thesis
    proof (cases err1)
      case None
      have "\<forall>job\<in>set ?part. stored_as c score job d1"
        using chunk_stored [OF chunk [unfolded None]] "1.prems"(3) by (meson in_set_dropD in_set_takeD)
      moreover have "take (start + chunk) jobs = take start jobs @ ?part"
        using True by (simp add: take_add min_def)
      ultimately have all: "\<forall>job\<in>set (take (start + chunk) jobs). stored_as c score job d1"
        using before by auto
      have "run_go exec (bulk_chunks c jobType jobs chunk score (start + chunk)) w1 l1 d1 = ((js, err), w', l', d')"
        using "1.prems"(1,2) True chunk None by (simp add: bulk_chunks.simps [of _ _ _ _ _ start] Let_def run_go_bind)
      then show ?thesis
        using "1.IH" True "1.prems"(2,3) all None by blast
    next
      case (Some e)
      then show ?thesis
        using "1.prems"(1,2) True chunk before
        by (auto simp: bulk_chunks.simps [of _ _ _ _ _ start] Let_def run_go_bind split: if_splits)
    qed
  next
    case False
    then show ?thesis
      using "1.prems" by (simp add: bulk_chunks.simps [of _ _ _ _ _ start])
  qed
qed

lemma make_bulk_run:
  assumes "run_go call (make_bulk_jobs c cfg jobType i as) w l s = (Inr jobs, w', l', s')"
  shows "s' = s \<and> length jobs = length as \<and> (\<forall>job\<in>set jobs. j_Type job = jobType \<and> j_Queue job = ec_queue cfg)"
  using assms
proof (induction as arbitrary: i w l s jobs)
  case (Cons a as)
  then show ?case
    by (fastforce simp: run_go_bind NewJob_def split: prod.splits sum.splits dest: encrypted_job_run)
qed simp

definition bulk_report :: "client \<Rightarrow> string \<Rightarrow> nat \<Rightarrow> int option \<Rightarrow> job list \<times> goerr option \<Rightarrow> db \<Rightarrow> bool" where
  "bulk_report c jobType n score r d \<longleftrightarrow> (case r of (jobs, err) \<Rightarrow>
     (\<forall>job\<in>set jobs. j_Type job = jobType \<and> stored_as c score job d) \<and>
     (case err of None \<Rightarrow> length jobs = n
      | Some e \<Rightarrow> jobs = [] \<or> length jobs < n \<and> (\<exists>e'. e = BulkPartialError (int (length jobs)) (int n) e')))"

lemma bulk_report_refused: "bulk_report c jobType n score ([], Some e) d"
  by (simp add: bulk_report_def)

lemma bulk_report_chunks:
  assumes "run_go exec (bulk_chunks c jobType jobs chunk score 0) w l d = (r, w', l', d')" "0 < chunk"
    and "\<forall>job\<in>set jobs. j_Type job = jobType \<and> j_Queue job = q"
  shows "bulk_report c jobType (length jobs) score r d'"
proof -
  obtain js err where r: "r = (js, err)"
    by (cases r)
  have b: "(\<forall>job\<in>set js. stored_as c score job d') \<and> (case err of None \<Rightarrow> js = jobs | Some e \<Rightarrow>
     js = [] \<or> (\<exists>n e'. js = take n jobs \<and> n < length jobs \<and> e = BulkPartialError (int n) (int (length jobs)) e'))"
    by (rule bulk_chunks_stored [where q = q]) (use assms r in auto)
  then have "set js \<subseteq> set jobs"
    using set_take_subset by (fastforce split: option.splits)
  then show ?thesis
    using b assms(3) by (auto simp: bulk_report_def r split: option.splits)
qed

lemma EnqueueBulk_report:
  assumes "run_go exec (EnqueueBulk c jobType argsList opts) w l d = (r, w', l', d')"
  shows "bulk_report c jobType (length argsList) (due_score (configure c opts) d) r d'"
proof (cases "\<exists>e. r = ([], Some e)")
  case True
  then show ?thesis
    using bulk_report_refused by auto
next
  case not_refused: False
  let ?cfg = "configure c opts"
  show ?thesis
  proof (cases "argsList = []")
    case True
    then show ?thesis
      using assms by (auto simp: EnqueueBulk_def bulk_report_def)
  next
    case False
    then have chunk: "0 < nat (ec_chunkSize ?cfg)"
      using assms not_refused by (auto simp: EnqueueBulk_def Let_def split: option.splits if_splits)
    obtain made w1 l1 d1 where made: "run_go exec (make_bulk_jobs c ?cfg jobType 0 argsList) w l d = (made, w1, l1, d1)"
      by (cases "run_go exec (make_bulk_jobs c ?cfg jobType 0 argsList) w l d") auto
    then obtain jobs where jobs: "made = Inr jobs"
      using assms not_refused False by (cases made) (auto simp: EnqueueBulk_def Let_def run_go_bind split: option.splits if_splits)
    note run = make_bulk_run [OF made [unfolded jobs]]
    then obtain w2 where "run_go exec (bulk_chunks c jobType jobs (nat (ec_chunkSize ?cfg)) (due_score ?cfg d) 0) w2 l1 d = (r, w', l', d')"
      using assms not_refused False made jobs
      by (auto simp: EnqueueBulk_def Let_def run_go_bind due_score_def split: option.splits if_splits elim!: redisNow_cases)
    from bulk_report_chunks [OF this chunk, of "ec_queue ?cfg"] show ?thesis
      using run by simp
  qed
qed

section \<open>A job on its way\<close>

definition enqueued_now :: "client \<Rightarrow> enqueueConfig \<Rightarrow> bool" where
  "enqueued_now c cfg \<longleftrightarrow> validateQueueName (ec_queue cfg) = None \<and> (ec_encrypt cfg \<longrightarrow> cl_encryptor c \<noteq> None) \<and>
     ec_uniqueKey cfg = [] \<and> ec_at cfg = zero_time \<and> ec_delay cfg \<le> 0"

lemma Marshal_new:
  assumes "0 \<le> now" "now < 2 ^ 63"
  shows "\<exists>p. Marshal ((NewJob now uuid jobType a)\<lparr>j_Queue := q, j_Retry := n, j_BatchID := b, j_UniqueKey := u, j_UniqueTTL := t,
     j_Args := args, j_Encrypted := enc\<rparr>) = Some p"
  using fmt_time_clock [OF assms]
  by (auto simp: Marshal_def MarshalJSON_def NewJob_def zero_job_def time_member_def time_opt_def)

lemma enqueueNow_run:
  assumes "faults w = []" "setty d (Queues (cl_keys c))" "listy d (Queue (cl_keys c) (j_Queue job))" "Marshal job = Some p"
  shows "run_go exec (enqueueNow c job) w l d = (Inr job, w, l, push_target (Queues (cl_keys c)) (Queue (cl_keys c) []) (j_Queue job, p) d)"
  using assms run_enqueue_now [of d "Queues (cl_keys c)" "Queue (cl_keys c) []" "j_Queue job" p]
  by (simp add: enqueueNow_def marshaled_def go_result_def go_reply_def)

lemma Enqueue_encrypted_run:
  fixes c opts
  defines "cfg \<equiv> configure c opts"
  assumes cfg: "enqueued_now c cfg" "ec_encrypt cfg" "cl_encryptor c = Some e" "length nonce = NonceSize e"
    and w: "faults w = []" "nows w = now # ts" "uuids w = uuid # nonce # us" and now: "0 \<le> now" "now < 2 ^ 63"
    and d: "setty d (Queues (cl_keys c))" "listy d (Queue (cl_keys c) (ec_queue cfg))"
  obtains job args p w' where "Encrypt e nonce a = Inr args"
    "job = (NewJob now uuid jobType a)\<lparr>j_Queue := ec_queue cfg, j_Retry := ec_retry cfg, j_BatchID := ec_batchID cfg,
        j_UniqueKey := [], j_UniqueTTL := ec_uniqueTTL cfg, j_Args := args, j_Encrypted := True\<rparr>"
    "Marshal job = Some p"
    "run_go exec (Enqueue c jobType a opts) w l d =
       (Inr job, w', l, push_target (Queues (cl_keys c)) (Queue (cl_keys c) []) (ec_queue cfg, p) d)"
proof -
  obtain args where args: "Encrypt e nonce a = Inr args"
    using cfg(4) by (simp add: Encrypt_def)
  define job where "job = (NewJob now uuid jobType a)\<lparr>j_Queue := ec_queue cfg, j_Retry := ec_retry cfg, j_BatchID := ec_batchID cfg,
        j_UniqueKey := [], j_UniqueTTL := ec_uniqueTTL cfg, j_Args := args, j_Encrypted := True\<rparr>"
  obtain p where p: "Marshal job = Some p"
    using Marshal_new [OF now] unfolding job_def by blast
  have "run_go exec (Enqueue c jobType a opts) w l d = run_go exec (enqueueNow c job) (w\<lparr>nows := ts, uuids := us\<rparr>) l d"
    using cfg w args
    by (simp add: Enqueue_def cfg_def [symmetric] enqueued_now_def Let_def encrypted_job_def dispatch_enqueue_def job_def)
  then show thesis
    using that [OF args job_def p] enqueueNow_run [of "w\<lparr>nows := ts, uuids := us\<rparr>" d c job p l] d w p by (simp add: job_def)
qed

section \<open>Guarantees\<close>

text \<open>
  C33: An accepted job is stored.  Whatever happened to the requests on the way, lost, repeated or
  unanswered, when \<^verbatim>\<open>Enqueue\<close> returns a job and no error, the payload of that job is in the queue the
  options name, or in the schedule at the time they give: the given time, or the delay after the
  server's clock at the call.
\<close>

theorem enqueue_accepted_stored:
  assumes "run_go exec (Enqueue c jobType a opts) w l d = (Inr job, w', l', d')"
  shows "\<exists>p. Marshal job = Some p \<and> j_Type job = jobType \<and> (case due_score (configure c opts) d of
     None \<Rightarrow> p \<in> set (lst d' (Queue (cl_keys c) (ec_queue (configure c opts))))
   | Some t \<Rightarrow> (t, p) \<in> set (zst d' (Scheduled (cl_keys c))))"
  using Enqueue_stored [OF assms] by (auto simp: stored_as_def lands_def split: option.splits)

lemma default_queue_valid: "validateQueueName DefaultQueueName = None"
proof -
  have "of_char (hd x) \<noteq> (of_char (CHR ''d'') :: nat)" if "x \<in> set spaces" for x
    using that by (auto simp: spaces_def)
  then have "CHR ''d'' # s \<notin> set spaces" for s
    by force
  then show ?thesis
    by (simp add: validateQueueName_def DefaultQueueName_def)
qed

definition demo_client :: client where
  "demo_client = \<lparr>cl_keys = keys_New [], cl_settings = DefaultClientSettings, cl_encryptor = Some tag_cipher\<rparr>"

definition demo_env :: env where
  "demo_env = GoProg.quiet\<lparr>nows := [7], uuids := [''j1'', ''ab'']\<rparr>"

lemma demo_cfg:
  "ec_queue (configure demo_client [WithEncryption]) = DefaultQueueName" "ec_retry (configure demo_client [WithEncryption]) = DefaultRetryCount"
  "ec_batchID (configure demo_client [WithEncryption]) = []" "ec_uniqueTTL (configure demo_client [WithEncryption]) = 0"
  "ec_encrypt (configure demo_client [WithEncryption])" "enqueued_now demo_client (configure demo_client [WithEncryption])"
  using default_queue_valid
  by (simp_all add: enqueued_now_def configure_def zero_config_def demo_client_def DefaultClientSettings_def WithEncryption_def)

lemma demo_ready: "queue_ready k q empty_db" "lst empty_db x = []"
  by (simp_all add: queue_ready_def empty_views)

lemma demo_run:
  obtains job args p w' where "Encrypt tag_cipher ''ab'' a = Inr args"
    "job = (NewJob 7 ''j1'' ''mail'' a)\<lparr>j_Queue := DefaultQueueName, j_Retry := DefaultRetryCount, j_BatchID := [],
        j_UniqueKey := [], j_UniqueTTL := 0, j_Args := args, j_Encrypted := True\<rparr>"
    "Marshal job = Some p"
    "run_go exec (Enqueue demo_client ''mail'' a [WithEncryption]) demo_env () empty_db =
       (Inr job, w', (), push_target (Queues (keys_New [])) (Queue (keys_New []) []) (DefaultQueueName, p) empty_db)"
  by (rule Enqueue_encrypted_run [of demo_client "[WithEncryption]" tag_cipher "''ab''" demo_env 7 "[]" "''j1''" "[]" empty_db a "''mail''" "()"])
    (use that demo_cfg demo_ready in \<open>simp_all add: demo_client_def demo_env_def GoProg.quiet_def tag_cipher_def queue_ready_def\<close>)

theorem enqueue_accepted_stored_witness:
  "\<exists>job w' l' d' p. run_go exec (Enqueue demo_client ''mail'' None [WithEncryption]) demo_env () empty_db = (Inr job, w', l', d') \<and>
     Marshal job = Some p \<and> p \<in> set (lst d' (Queue (keys_New []) ''default''))"
proof -
  obtain job w' d' where run: "run_go exec (Enqueue demo_client ''mail'' None [WithEncryption]) demo_env () empty_db = (Inr job, w', (), d')"
    by (rule demo_run [of None]) blast
  have "due_score (configure demo_client [WithEncryption]) empty_db = None"
    "ec_queue (configure demo_client [WithEncryption]) = ''default''" "cl_keys demo_client = keys_New []"
    by code_simp+
  then show ?thesis
    using enqueue_accepted_stored [OF run] run by auto
qed



lemma Marshal_bulk:
  "\<exists>p. Marshal ((NewJob 7 uuid jobType a)\<lparr>j_Queue := q, j_Retry := n, j_BatchID := b\<rparr>) = Some p"
  using fmt_time_clock [of 7]
  by (auto simp: Marshal_def MarshalJSON_def NewJob_def zero_job_def time_member_def time_opt_def)




end
