(* ===== verification/HandlerSlots.thy ===== *)
theory HandlerSlots
  imports Registry
begin

text \<open>
  The limit on concurrent runs of a handler, \<^verbatim>\<open>WithMaxConcurrency\<close>.

  To observe how many runs of a handler are going on, the handler counts itself (\<open>counting\<close>): it adds
  one to a counter of the process when it is entered and takes one off when it is left.  \<open>paces\<close>
  follows a goroutine through its program with the number of slots it holds and the number of runs it
  has entered; in every reachable state the slots taken are those the goroutines hold, and no goroutine
  is in more runs than it holds slots.
\<close>

record counted_locals = worker_locals +
  running :: int

definition bump :: "int \<Rightarrow> 'x counted_locals_scheme \<Rightarrow> 'x counted_locals_scheme" where
  "bump i l = l\<lparr>running := running l + i\<rparr>"

definition counting :: "('c, 'x counted_locals_scheme) handler \<Rightarrow> ('c, 'x counted_locals_scheme) handler" where
  "counting body ctx job = Local (bump 1) (\<lambda>_. go_bind (body ctx job) (\<lambda>x. Local (bump (- 1)) (\<lambda>_. Done x)))"

section \<open>Goroutines and the slots they hold\<close>

definition moves_to :: "string \<Rightarrow> nat \<times> nat \<Rightarrow> nat \<times> nat \<Rightarrow> 'x counted_locals_scheme \<Rightarrow> 'x counted_locals_scheme \<Rightarrow> bool" where
  "moves_to t p q l l' \<longleftrightarrow> handler_slots l' t = handler_slots l t + int (fst q) - int (fst p) \<and>
     running l' = running l + int (snd q) - int (snd p)"

primrec paces :: "string \<Rightarrow> int \<Rightarrow> (nat \<times> nat \<Rightarrow> 'a \<Rightarrow> bool) \<Rightarrow> ('x counted_locals_scheme, 'a) go \<Rightarrow> nat \<times> nat \<Rightarrow> bool" where
  "paces t n R (Done x) = (\<lambda>p. R p x)"
| "paces t n R (Eval s k) = (\<lambda>p. \<forall>r. paces t n R (k r) p)"
| "paces t n R (Cmd c k) = (\<lambda>p. \<forall>r. paces t n R (k r) p)"
| "paces t n R (Scan s k) = (\<lambda>p. \<forall>r. paces t n R (k r) p)"
| "paces t n R (Now k) = (\<lambda>p. \<forall>r. paces t n R (k r) p)"
| "paces t n R (Uuid k) = (\<lambda>p. \<forall>r. paces t n R (k r) p)"
| "paces t n R (Rand i k) = (\<lambda>p. \<forall>r. paces t n R (k r) p)"
| "paces t n R (Wait d k) = (\<lambda>p. \<forall>r. paces t n R (k r) p)"
| "paces t n R (CtxDone k) = (\<lambda>p. \<forall>r. paces t n R (k r) p)"
| "paces t n R (Local u k) = (\<lambda>p. \<exists>q. snd q \<le> fst q \<and> fst q \<le> fst p \<and> (\<forall>l. moves_to t p q l (u l)) \<and> (\<forall>r. paces t n R (k r) q))"
| "paces t n R (Await b u k) = (\<lambda>p. paces t n R (k False) p \<and>
     (\<exists>q. snd q \<le> fst q \<and> (\<forall>l. b l \<longrightarrow> moves_to t p q l (u l) \<and> (handler_slots l t \<le> n \<longrightarrow> handler_slots (u l) t \<le> n)) \<and>
       paces t n R (k True) q))"

lemma paces_bind:
  "paces t n R g p \<Longrightarrow> (\<And>x q. R q x \<Longrightarrow> paces t n S (f x) q) \<Longrightarrow> paces t n S (go_bind g f) p"
proof (induction g arbitrary: p)
  case (Local u k)
  then show ?case by simp blast
next
  case (Await b u k)
  then show ?case by simp blast
qed simp_all

lemma paces_weaken: "paces t n R g p \<Longrightarrow> (\<And>x q. R q x \<Longrightarrow> S q x) \<Longrightarrow> paces t n S g p"
  using paces_bind [of t n R g p S Done] by simp

lemma paces_step:
  assumes "go_step call (g, l, s) (g', l', s')" "paces t n R g p" "snd p \<le> fst p"
  obtains q where "paces t n R g' q" "snd q \<le> fst q" "moves_to t p q l l'" "handler_slots l t \<le> n \<longrightarrow> handler_slots l' t \<le> n"
proof -
  have stay: "moves_to t p p l l"
    by (simp add: moves_to_def)
  from assms(1) show thesis
  proof cases
    case (local u k)
    then obtain q where q: "snd q \<le> fst q" "fst q \<le> fst p" "moves_to t p q l l'" "paces t n R g' q"
      using assms(2) by auto
    then show ?thesis
      using that [of q] by (simp add: moves_to_def)
  next
    case (await b u k)
    then show ?thesis
      using that assms(2) by auto
  qed (use that [of p] stay assms(2,3) in auto)
qed

text \<open>Programs that leave the counters alone, and runs of a handler on a slot.\<close>

definition idle :: "string \<Rightarrow> int \<Rightarrow> ('x counted_locals_scheme, 'a) go \<Rightarrow> bool" where
  "idle t n g \<longleftrightarrow> (\<forall>p. snd p \<le> fst p \<longrightarrow> paces t n (\<lambda>q _. q = p) g p)"

definition on_slot :: "string \<Rightarrow> int \<Rightarrow> ('c, 'x counted_locals_scheme) handler \<Rightarrow> bool" where
  "on_slot t n h \<longleftrightarrow> (\<forall>ctx job s. 0 < s \<longrightarrow> paces t n (\<lambda>q _. q = (s, 0)) (h ctx job) (s, 0))"

definition fair :: "string \<Rightarrow> int \<Rightarrow> ('c, 'x counted_locals_scheme) middleware \<Rightarrow> bool" where
  "fair t n m \<longleftrightarrow> (\<forall>h. on_slot t n h \<longrightarrow> on_slot t n (m h))"

lemma idle_Done: "idle t n (Done x)"
  by (simp add: idle_def)

lemma on_slot_counting:
  assumes "\<And>ctx job. idle t n (body ctx job)"
  shows "on_slot t n (counting body)"
proof -
  have "paces t n (\<lambda>q _. q = (s, 0)) (counting body ctx job) (s, 0)" if "0 < s" for ctx job s
  proof -
    have "paces t n (\<lambda>q _. q = (s, 1)) (body ctx job) (s, 1)"
      using assms that by (simp add: idle_def)
    then have "paces t n (\<lambda>q _. q = (s, 0)) (go_bind (body ctx job) (\<lambda>x. Local (bump (- 1)) (\<lambda>_. Done x))) (s, 1)"
      by (rule paces_bind) (simp add: moves_to_def bump_def)
    then show ?thesis
      using that by (auto simp: counting_def moves_to_def bump_def intro!: exI [of _ s] exI [of _ "1 :: nat"])
  qed
  then show ?thesis
    by (simp add: on_slot_def)
qed

section \<open>Middleware and the registry\<close>

lemma on_slot_then:
  assumes "on_slot t n h" "\<And>x. idle t n (k x)" "0 < s"
  shows "paces t n (\<lambda>q _. q = (s, 0)) (go_bind (h ctx job) k) (s, 0)"
proof (rule paces_bind)
  show "paces t n (\<lambda>q _. q = (s, 0)) (h ctx job) (s, 0)"
    using assms by (simp add: on_slot_def)
qed (use assms(2) in \<open>simp add: idle_def\<close>)

lemma fair_after:
  assumes "\<And>h ctx job. m h ctx job = go_bind (h ctx job) (\<lambda>x. Done (f x))"
  shows "fair t n m"
  unfolding fair_def on_slot_def [of t n "m _"] assms by (intro allI impI on_slot_then idle_Done)

lemma fair_Timeout: "fair t n (TimeoutMiddleware d)"
  by (simp add: fair_def on_slot_def TimeoutMiddleware_def)

lemma fair_Recovery: "fair t n (RecoveryMiddleware stack)"
  by (rule fair_after [where f = "\<lambda>(j, r). (j, case r of HPanic v \<Rightarrow> HErr (Plain (''panic: '' @ v @ [CHR 0x0A] @ stack)) | _ \<Rightarrow> r)"])
    (simp add: RecoveryMiddleware_def split_def)

lemma fair_Retry: "fair t n (RetryMiddleware maxRetries backoff)"
  by (rule fair_after [where f = "\<lambda>(j, r). (j, case r of
         HErr e \<Rightarrow>
           if j_RetryCount j \<ge> maxRetries then HErr (MaxRetriesExceededError (j_ID j) (j_RetryCount j) e)
           else HErr (RetryableError (j_ID j) e (backoff (j_RetryCount j)))
       | _ \<Rightarrow> r)"])
    (simp add: RetryMiddleware_def split_def)

lemma fair_Logging: "fair t n LoggingMiddleware"
proof -
  have "idle t n (case x of (j, r) \<Rightarrow>
      case r of HOk \<Rightarrow> Now (\<lambda>finish. Done (j, r)) | HErr e \<Rightarrow> Now (\<lambda>finish. Done (j, r)) | _ \<Rightarrow> Done (j, r))" for x :: "job \<times> hres"
    by (auto simp: idle_def split: prod.split hres.split)
  then show ?thesis
    unfolding fair_def on_slot_def [of t n "LoggingMiddleware _"] LoggingMiddleware_def paces.simps by (intro allI impI on_slot_then)
qed

lemma fair_encryption: "fair t n (encryptionMiddleware decrypt)"
  by (auto simp: fair_def on_slot_def encryptionMiddleware_def split: sum.splits)

lemma on_slot_Chain:
  assumes "\<forall>m\<in>set mws. fair t n m" "on_slot t n h"
  shows "on_slot t n (Chain mws h)"
  using assms unfolding Chain_def by (induction mws) (auto simp: fair_def)

lemma on_slot_decorate:
  fixes h :: "('c, 'x counted_locals_scheme) handler"
  assumes "on_slot t n h" "\<forall>m\<in>set mws. fair t n m" "\<And>a. limiter = Some a \<Longrightarrow> fair t n (RateLimitMiddlewareWithReschedule a :: ('c, 'x counted_locals_scheme) middleware)"
  shows "on_slot t n (decorate timeout limiter mws h)"
proof -
  have "on_slot t n (if timeout > 0 then TimeoutMiddleware timeout h else h)"
    using assms(1) fair_Timeout by (auto simp: fair_def)
  then have "on_slot t n (case limiter of Some a \<Rightarrow> RateLimitMiddlewareWithReschedule a (if timeout > 0 then TimeoutMiddleware timeout h else h)
      | None \<Rightarrow> if timeout > 0 then TimeoutMiddleware timeout h else h)"
    using assms(3) by (auto simp: fair_def split: option.split)
  then show ?thesis
    using on_slot_Chain [OF assms(2)] by (auto simp: decorate_def Let_def)
qed

lemma paces_process:
  assumes "hr_handlers r (j_Type job) = Some entry" "he_sema entry = Some n" "t = j_Type job"
    and "on_slot t n (decorate (case he_options entry of Some o' \<Rightarrow> jo_Timeout o' | None \<Rightarrow> 0)
                  (Option.bind (he_options entry) jo_RateLimiter) (hr_middleware r) (he_handler entry))"
  shows "paces t n (\<lambda>q _. snd q = 0) (process r ctx job) (s, 0)"
proof -
  let ?h = "decorate (case he_options entry of Some o' \<Rightarrow> jo_Timeout o' | None \<Rightarrow> 0)
                  (Option.bind (he_options entry) jo_RateLimiter) (hr_middleware r) (he_handler entry)"
  let ?fin = "\<lambda>(job', res). if res = HRunning then Done (he_options entry, job', res)
                        else Local (free_slot t) (\<lambda>_. Done (he_options entry, job', res))"
  have "paces t n (\<lambda>q _. q = (Suc s, 0)) (?h ctx j) (Suc s, 0)" for j
    using assms(4) by (simp add: on_slot_def)
  then have run: "paces t n (\<lambda>q _. snd q = 0) (go_bind (?h ctx j) ?fin) (Suc s, 0)" for j
    by (rule paces_bind) (auto simp: moves_to_def free_slot_def intro!: exI [of _ s])
  have "slot_free t n l \<longrightarrow> moves_to t (s, 0) (Suc s, 0) l (take_slot t l) \<and> handler_slots (take_slot t l) t \<le> n" for l
    by (simp add: moves_to_def take_slot_def slot_free_def)
  then show ?thesis
    using run assms(1,2,3) by (auto simp: process_def Let_def simp del: split_paired_Ex intro!: exI [of _ "(Suc s, 0)"])
qed

section \<open>The pool\<close>

text \<open>Goroutines of a worker, one job after the other, with anything in between that leaves the counters alone.\<close>

inductive serving :: "('c, 'i, 'item, 'x counted_locals_scheme) handlerRegistry \<Rightarrow> string \<Rightarrow> int \<Rightarrow> ('x counted_locals_scheme, 'a) go \<Rightarrow> bool"
  for r t n where
  finish: "serving r t n (Done x)"
| between: "idle t n (g :: ('x counted_locals_scheme, 'a) go) \<Longrightarrow> (\<And>y. serving r t n (k y)) \<Longrightarrow> serving r t n (go_bind g k)"
| serve: "j_Type job = t \<Longrightarrow> (\<And>y. serving r t n (k y)) \<Longrightarrow> serving r t n (go_bind (process r ctx job) k)"

definition in_step :: "string \<Rightarrow> int \<Rightarrow> 'x counted_locals_scheme \<times> ('x counted_locals_scheme, 'a) go list \<Rightarrow> bool" where
  "in_step t n pr \<longleftrightarrow> (case pr of (l, ts) \<Rightarrow> \<exists>ps. list_all2 (\<lambda>p g. snd p \<le> fst p \<and> paces t n (\<lambda>_ _. True) g p) ps ts \<and>
     handler_slots l t = int (sum_list (map fst ps)) \<and> running l = int (sum_list (map snd ps)) \<and> handler_slots l t \<le> n)"

lemma serving_paces:
  assumes "serving r t n g" "hr_handlers r t = Some entry" "he_sema entry = Some n"
    and "on_slot t n (decorate (case he_options entry of Some o' \<Rightarrow> jo_Timeout o' | None \<Rightarrow> 0)
                  (Option.bind (he_options entry) jo_RateLimiter) (hr_middleware r) (he_handler entry))"
  shows "paces t n (\<lambda>_ _. True) g (s, 0)"
  using assms(1)
proof (induction arbitrary: s)
  case (between g k)
  then have "paces t n (\<lambda>q _. q = (s, 0)) g (s, 0)"
    by (simp add: idle_def)
  then show ?case
    by (rule paces_bind) (simp add: between.IH)
next
  case (serve job k ctx)
  have "paces t n (\<lambda>q _. snd q = 0) (process r ctx job) (s, 0)"
    by (rule paces_process [OF _ assms(3) _ assms(4)]) (use assms(2) serve.hyps(1) in simp_all)
  then show ?case
  proof (rule paces_bind)
    fix y and q :: "nat \<times> nat"
    assume "snd q = 0"
    then show "paces t n (\<lambda>_ _. True) (k y) q"
      using serve.IH by (cases q) simp
  qed
qed simp

lemma sum_list_replace:
  "i < length xs \<Longrightarrow> int (sum_list (map f (xs[i := y]))) = int (sum_list (map f xs)) + int (f y) - int (f (xs ! i))"
  for f :: "'a \<Rightarrow> nat"
  by (induction xs arbitrary: i) (auto split: nat.split)

lemma in_step_run:
  assumes "in_step t n (l, ts)" "j < length ts" "go_step call (ts ! j, l, s) (g', l', s')"
  shows "in_step t n (l', ts[j := g'])"
proof -
  obtain ps where ps: "list_all2 (\<lambda>p g. snd p \<le> fst p \<and> paces t n (\<lambda>_ _. True) g p) ps ts"
    and slots: "handler_slots l t = int (sum_list (map fst ps))" "running l = int (sum_list (map snd ps))" "handler_slots l t \<le> n"
    using assms(1) by (auto simp: in_step_def)
  have j: "j < length ps" "snd (ps ! j) \<le> fst (ps ! j)" "paces t n (\<lambda>_ _. True) (ts ! j) (ps ! j)"
    using ps assms(2) by (auto simp: list_all2_conv_all_nth)
  obtain q where q: "paces t n (\<lambda>_ _. True) g' q" "snd q \<le> fst q" "moves_to t (ps ! j) q l l'"
    "handler_slots l t \<le> n \<longrightarrow> handler_slots l' t \<le> n"
    by (rule paces_step [OF assms(3) j(3,2)])
  have "list_all2 (\<lambda>p g. snd p \<le> fst p \<and> paces t n (\<lambda>_ _. True) g p) (ps[j := q]) (ts[j := g'])"
    using ps q(1,2) by (intro list_all2_update_cong) auto
  then show ?thesis
    using q(3,4) slots j(1) by (auto simp: in_step_def moves_to_def sum_list_replace intro!: exI [of _ "ps[j := q]"])
qed

lemma pool_in_step:
  assumes "(pool_step call elapse)\<^sup>*\<^sup>* (ps, s) (ps', s')" "\<forall>pr\<in>set ps. in_step t n pr"
  shows "\<forall>pr\<in>set ps'. in_step t n pr"
  using assms(1)
proof (induction "(ps', s')" arbitrary: ps' s' rule: rtranclp_induct)
  case base
  then show ?case using assms(2) by simp
next
  case (step y)
  obtain qs q where y: "y = (qs, q)" by (cases y)
  then have inv: "\<forall>pr\<in>set qs. in_step t n pr"
    using step by blast
  have "pool_step call elapse (qs, q) (ps', s')"
    using step y by simp
  then show ?case
  proof cases
    case (run i l ts j g' l')
    have "in_step t n (qs ! i)"
      using inv run(2) by simp
    then have "in_step t n (l', ts[j := g'])"
      using in_step_run [OF _ run(4,5)] run(3) by simp
    then show ?thesis
      using inv run(1) set_update_subset_insert [of qs i "(l', ts[j := g'])"] by auto
  qed (use inv in simp)
qed

lemma in_step_bounds:
  assumes "in_step t n (l, ts)"
  shows "0 \<le> running l \<and> running l \<le> handler_slots l t \<and> handler_slots l t \<le> n"
proof -
  obtain ps where ps: "list_all2 (\<lambda>p g. snd p \<le> fst p \<and> paces t n (\<lambda>_ _. True) g p) ps ts"
    "handler_slots l t = int (sum_list (map fst ps))" "running l = int (sum_list (map snd ps))" "handler_slots l t \<le> n"
    using assms by (auto simp: in_step_def)
  have "\<forall>p\<in>set ps. snd p \<le> fst p"
    using ps(1) by (metis (no_types, lifting) in_set_conv_nth list_all2_conv_all_nth)
  then have "sum_list (map snd ps) \<le> sum_list (map fst ps)"
    by (intro sum_list_mono) auto
  then show ?thesis
    using ps by simp
qed

lemma in_step_start:
  assumes "handler_slots l t = 0" "running l = 0" "0 \<le> n" "\<forall>g\<in>set ts. paces t n (\<lambda>_ _. True) g (0, 0)"
  shows "in_step t n (l, ts)"
  using assms by (auto simp: in_step_def list_all2_conv_all_nth sum_list_replicate intro!: exI [of _ "replicate (length ts) (0, 0)"])

section \<open>Guarantees\<close>

text \<open>
  C36: A handler registered with a concurrency limit never runs more often at once than the limit.
  Goroutines of any number of processes take jobs of the type one after the other, interleaved in any
  order, with any middleware that does not touch the slots, over any server, cancelled at any time;
  in every reachable state the number of runs going on in a process is at most the number of slots
  taken, and that at most the limit.
\<close>

theorem handler_concurrency_bounded:
  fixes body :: "('c, 'x counted_locals_scheme) handler" and r :: "('c, 'i, 'item, 'x counted_locals_scheme) handlerRegistry"
    and ps :: "('x counted_locals_scheme, 'a) procs"
  assumes r: "r = registry_Register t (counting body) (Some opts) r0" "0 < jo_MaxConcurrency opts"
    and body: "\<forall>ctx job. idle t (jo_MaxConcurrency opts) (body ctx job)"
    and mws: "\<forall>m\<in>set (hr_middleware r0). fair t (jo_MaxConcurrency opts) m"
      "\<forall>a. jo_RateLimiter opts = Some a \<longrightarrow> fair t (jo_MaxConcurrency opts) (RateLimitMiddlewareWithReschedule a :: ('c, 'x counted_locals_scheme) middleware)"
    and start: "\<forall>(l, ts)\<in>set ps. handler_slots l t = 0 \<and> running l = 0 \<and> (\<forall>g\<in>set ts. serving r t (jo_MaxConcurrency opts) g)"
    and run: "(pool_step call elapse)\<^sup>*\<^sup>* (ps, s) (ps', s')"
  shows "\<forall>(l, ts)\<in>set ps'. 0 \<le> running l \<and> running l \<le> handler_slots l t \<and> handler_slots l t \<le> jo_MaxConcurrency opts"
proof -
  let ?n = "jo_MaxConcurrency opts"
  let ?e = "\<lparr>he_handler = counting body, he_options = Some opts, he_sema = Some ?n\<rparr>"
  have entry: "hr_handlers r t = Some ?e" "hr_middleware r = hr_middleware r0"
    using r by (simp_all add: registry_Register_def)
  have slot: "on_slot t ?n (decorate (jo_Timeout opts) (jo_RateLimiter opts) (hr_middleware r) (counting body))"
    using on_slot_decorate on_slot_counting body mws entry(2) by (metis (no_types, lifting))
  have "paces t ?n (\<lambda>_ _. True) g (0, 0)" if "serving r t ?n g" for g :: "('x counted_locals_scheme, 'a) go"
    by (rule serving_paces [OF that entry(1)]) (use slot in simp_all)
  then have "\<forall>(l, ts)\<in>set ps. in_step t ?n (l, ts)"
    using start r(2) by (fastforce intro: in_step_start)
  then have "\<forall>pr\<in>set ps'. in_step t ?n pr"
    using pool_in_step [OF run] by auto
  then show ?thesis
    using in_step_bounds by blast
qed

definition mail_registry :: "(unit, unit, unit, counted_locals) handlerRegistry" where
  "mail_registry = registry_Register ''mail'' (counting (\<lambda>ctx job. Done (job, HOk))) (Some (WithMaxConcurrency 1 job_defaults))
     (registry_Use [RecoveryMiddleware []] newHandlerRegistry)"

definition mail_run :: "(counted_locals, counted_locals JobOptions option \<times> job \<times> hres) go" where
  "mail_run = go_bind (process mail_registry () (NewJob 7 ''j1'' ''mail'' None)) Done"

definition mail_locals :: counted_locals where
  "mail_locals = \<lparr>sequentialSema = [], sequentialHeld = [], handler_slots = (\<lambda>_. 0), running = 0\<rparr>"

text \<open>In the witness one of two goroutines has taken the only slot.\<close>

theorem handler_concurrency_bounded_witness:
  "\<exists>g'. (pool_step exec (\<lambda>a b. False))\<^sup>*\<^sup>* ([(mail_locals, [mail_run, mail_run])], empty_db) ([(take_slot ''mail'' mail_locals, [g', mail_run])], empty_db) \<and>
     running (take_slot ''mail'' mail_locals) \<le> handler_slots (take_slot ''mail'' mail_locals) ''mail'' \<and>
     handler_slots (take_slot ''mail'' mail_locals) ''mail'' \<le> 1"
proof -
  let ?l = mail_locals
  have l: "handler_slots ?l ''mail'' = 0" "running ?l = 0"
    by (simp_all add: mail_locals_def)
  obtain k where k: "mail_run = Await (slot_free ''mail'' 1) (take_slot ''mail'') k"
    by (simp add: mail_run_def process_def mail_registry_def registry_Register_def WithMaxConcurrency_def NewJob_def zero_job_def Let_def)
  have "go_step exec (mail_run, ?l, empty_db) (k True, take_slot ''mail'' ?l, empty_db)"
    using l by (auto simp: k slot_free_def intro: go_step.await)
  then have run: "(pool_step exec (\<lambda>a b. False))\<^sup>*\<^sup>* ([(?l, [mail_run, mail_run])], empty_db) ([(take_slot ''mail'' ?l, [k True, mail_run])], empty_db)"
    using pool_step.run [of 0 "[(?l, [mail_run, mail_run])]" ?l "[mail_run, mail_run]" 0 exec empty_db "k True" "take_slot ''mail'' ?l" empty_db]
    by auto
  have "serving mail_registry ''mail'' 1 mail_run"
    unfolding mail_run_def by (intro serving.serve serving.finish) (simp add: NewJob_def zero_job_def)
  moreover have "\<forall>m\<in>set (hr_middleware (registry_Use [RecoveryMiddleware []] newHandlerRegistry)). fair ''mail'' 1 m"
    by (simp add: registry_Use_def newHandlerRegistry_def fair_Recovery)
  ultimately show ?thesis
    using handler_concurrency_bounded [OF mail_registry_def _ _ _ _ _ run] l run
    by (auto simp: WithMaxConcurrency_def job_defaults_def idle_Done)
qed

end
